(* ===== verification/Prelude.thy ===== *)
theory Prelude
  imports Complex_Main "HOL-Library.Sublist"
begin

text \<open>
  Shared vocabulary of the development: the named collections the component proofs use,
  JavaScript string operations on \<open>string\<close>, the list-as-table operations that the
  SQLite repositories are written with, and two generic interfaces (a store with keyed
  rows, a state machine with an invariant) that the components interpret.

  A \<open>string\<close> is a list of \<open>char\<close>, one per UTF-16 code unit below 256; code units
  outside Latin-1 are not represented. Times are milliseconds since the epoch
  (\<open>nat\<close>): the ISO texts the repositories store are a one-to-one rendering of them.
\<close>

named_theorems table_simps \<open>lookup after an update of a list of rows\<close>
named_theorems str_simps \<open>string operations\<close>
named_theorems inv_intros \<open>operations preserve the invariant\<close>

type_synonym time = nat

section \<open>Strings\<close>

subsection \<open>Character classes\<close>

text \<open>The class \<open>\s\<close> of a regular expression, and what \<open>trim\<close> removes.\<close>

definition is_ws :: "char \<Rightarrow> bool" where
  "is_ws c \<longleftrightarrow> (let n = of_char c :: nat in 9 \<le> n \<and> n \<le> 13 \<or> n = 32 \<or> n = 160)"

definition is_digit :: "char \<Rightarrow> bool" where
  "is_digit c \<longleftrightarrow> (let n = of_char c :: nat in 48 \<le> n \<and> n \<le> 57)"

definition is_upper :: "char \<Rightarrow> bool" where
  "is_upper c \<longleftrightarrow> (let n = of_char c :: nat in 65 \<le> n \<and> n \<le> 90)"

definition is_lower :: "char \<Rightarrow> bool" where
  "is_lower c \<longleftrightarrow> (let n = of_char c :: nat in 97 \<le> n \<and> n \<le> 122)"

definition is_alnum :: "char \<Rightarrow> bool" where
  "is_alnum c \<longleftrightarrow> is_digit c \<or> is_upper c \<or> is_lower c"

text \<open>\<open>toLowerCase\<close> on one Latin-1 code unit.\<close>

definition lower_char :: "char \<Rightarrow> char" where
  "lower_char c =
     (let n = of_char c :: nat in
      if 65 \<le> n \<and> n \<le> 90 \<or> 192 \<le> n \<and> n \<le> 222 \<and> n \<noteq> 215 then char_of (n + 32) else c)"

definition lowercase :: "string \<Rightarrow> string" where
  "lowercase s = map lower_char s"

subsection \<open>trim, startsWith, endsWith, includes, indexOf\<close>

definition trim_start :: "string \<Rightarrow> string" where
  "trim_start s = dropWhile is_ws s"

definition trim_end :: "string \<Rightarrow> string" where
  "trim_end s = rev (dropWhile is_ws (rev s))"

definition trim :: "string \<Rightarrow> string" where
  "trim s = trim_end (trim_start s)"

definition starts_with :: "string \<Rightarrow> string \<Rightarrow> bool" where
  "starts_with p s \<longleftrightarrow> take (length p) s = p"

definition ends_with :: "string \<Rightarrow> string \<Rightarrow> bool" where
  "ends_with p s \<longleftrightarrow> length p \<le> length s \<and> drop (length s - length p) s = p"

fun includes_str :: "string \<Rightarrow> string \<Rightarrow> bool" where
  "includes_str p [] = (p = [])"
| "includes_str p (c # s) = (starts_with p (c # s) \<or> includes_str p s)"

text \<open>\<open>s.indexOf(c)\<close> as the text before the first \<open>c\<close> and the text from it on.\<close>

definition before_char :: "char \<Rightarrow> string \<Rightarrow> string" where
  "before_char c s = takeWhile (\<lambda>x. x \<noteq> c) s"

definition from_char :: "char \<Rightarrow> string \<Rightarrow> string" where
  "from_char c s = dropWhile (\<lambda>x. x \<noteq> c) s"

text \<open>\<open>s.slice(-n)\<close>, for a positive \<open>n\<close>.\<close>

definition last_n :: "nat \<Rightarrow> string \<Rightarrow> string" where
  "last_n n s = drop (length s - n) s"

text \<open>\<open>s.split(c)\<close> and \<open>xs.join(sep)\<close>.\<close>

fun split_on :: "char \<Rightarrow> string \<Rightarrow> string list" where
  "split_on c [] = [[]]"
| "split_on c (x # xs) =
     (if x = c then [] # split_on c xs
      else (case split_on c xs of [] \<Rightarrow> [[x]] | y # ys \<Rightarrow> (x # y) # ys))"

fun join_with :: "string \<Rightarrow> string list \<Rightarrow> string" where
  "join_with sep [] = []"
| "join_with sep [x] = x"
| "join_with sep (x # y # ys) = x @ sep @ join_with sep (y # ys)"

text \<open>The base type of a MIME string: \<open>mime.split(";")[0].trim().toLowerCase()\<close>.\<close>

definition mime_base :: "string \<Rightarrow> string" where
  "mime_base m = lowercase (trim (before_char (CHR '';'') m))"

text \<open>\<open>s.trim()\<close> is truthy.\<close>

definition nonblank :: "string \<Rightarrow> bool" where
  "nonblank s \<longleftrightarrow> trim s \<noteq> []"

definition nl :: string where "nl = [CHR 10]"

text \<open>\<open>Math.round\<close>, and the decimal text of a number.\<close>

definition js_round :: "rat \<Rightarrow> int" where
  "js_round x = \<lfloor>x + 1 / 2\<rfloor>"

fun show_nat :: "nat \<Rightarrow> string" where
  "show_nat n = (if n < 10 then [char_of (48 + n)] else show_nat (n div 10) @ [char_of (48 + n mod 10)])"

declare show_nat.simps [simp del]

definition show_int :: "int \<Rightarrow> string" where
  "show_int z = (if z < 0 then CHR ''-'' # show_nat (nat (- z)) else show_nat (nat z))"

text \<open>The number that decimal digits denote.\<close>

definition digit_val :: "char \<Rightarrow> nat" where
  "digit_val c = of_char c - 48"

definition read_nat :: "string \<Rightarrow> nat" where
  "read_nat ds = foldl (\<lambda>n c. 10 * n + digit_val c) 0 ds"

text \<open>\<open>replace(/X+/g, by)\<close> for a character class.\<close>

fun replace_from :: "(char \<Rightarrow> bool) \<Rightarrow> string \<Rightarrow> bool \<Rightarrow> string \<Rightarrow> string" where
  "replace_from p w inside [] = []"
| "replace_from p w inside (c # s) =
     (if p c then (if inside then [] else w) @ replace_from p w True s
      else c # replace_from p w False s)"

definition replace_runs :: "(char \<Rightarrow> bool) \<Rightarrow> string \<Rightarrow> string \<Rightarrow> string" where
  "replace_runs p w s = replace_from p w False s"

subsection \<open>Lemmas\<close>

lemma show_nat_digits: "c \<in> set (show_nat n) \<Longrightarrow> is_digit c"
  by (induction n rule: show_nat.induct) (subst (asm) (2) show_nat.simps, auto simp: is_digit_def split: if_splits)

lemma show_nat_nonempty: "show_nat n \<noteq> []"
  by (subst show_nat.simps) simp

lemma read_show_nat: "read_nat (show_nat n) = n"
  by (induction n rule: show_nat.induct) (subst show_nat.simps, auto simp: read_nat_def digit_val_def)

lemma hd_show_nat: "0 < n \<Longrightarrow> hd (show_nat n) \<noteq> CHR ''0''"
proof (induction n rule: show_nat.induct)
  case (1 n)
  show ?case
  proof (cases "n < 10")
    case True
    have "of_char (char_of (48 + n) :: char) = 48 + n" using True by simp
    moreover have "of_char (CHR ''0'') = (48 :: nat)" by simp
    ultimately have "char_of (48 + n) \<noteq> CHR ''0''" using 1(2) by (metis add_eq_self_zero less_numeral_extra(3))
    then show ?thesis using True by (subst show_nat.simps) simp
  next
    case False
    then show ?thesis using 1 show_nat_nonempty [of "n div 10"] by (subst show_nat.simps) simp
  qed
qed

lemma starts_with_prefix [str_simps]: "starts_with p s \<longleftrightarrow> prefix p s"
  by (auto simp: starts_with_def prefix_def) (metis append_take_drop_id)

lemma ends_with_suffix [str_simps]: "ends_with p s \<longleftrightarrow> suffix p s"
proof
  assume "ends_with p s"
  then have "s = take (length s - length p) s @ p"
    by (metis append_take_drop_id ends_with_def)
  then show "suffix p s" by (rule suffixI)
qed (auto simp: ends_with_def suffix_def)

lemma is_digit_not_ws: "is_digit c \<Longrightarrow> \<not> is_ws c"
  by (auto simp: is_digit_def is_ws_def Let_def)

lemma dropWhile_none: "list_all (\<lambda>x. \<not> P x) xs \<Longrightarrow> dropWhile P xs = xs"
  by (cases xs) auto

lemma trim_no_ws: "list_all (\<lambda>c. \<not> is_ws c) s \<Longrightarrow> trim s = s"
  by (simp add: trim_def trim_start_def trim_end_def dropWhile_none list_all_rev)

lemma trim_end_ends: "trim_end s = [] \<or> \<not> is_ws (last (trim_end s))"
  unfolding trim_end_def using hd_dropWhile [of is_ws "rev s"]
  by (cases "dropWhile is_ws (rev s) = []") (auto simp: last_rev)

lemma trim_end_fixed: "s = [] \<or> \<not> is_ws (last s) \<Longrightarrow> trim_end s = s"
  by (cases s rule: rev_cases) (auto simp: trim_end_def)

lemma trim_start_fixed: "s = [] \<or> \<not> is_ws (hd s) \<Longrightarrow> trim_start s = s"
  by (cases s) (auto simp: trim_start_def)

lemma trim_end_prefix: "prefix (trim_end s) s"
  using suffix_dropWhile [of is_ws "rev s"] by (simp add: trim_end_def suffix_to_prefix)

lemma hd_trim_end: "trim_end s \<noteq> [] \<Longrightarrow> hd (trim_end s) = hd s"
  using trim_end_prefix [of s] by (metis hd_append2 prefix_def)

lemma set_trim: "set (trim s) \<subseteq> set s"
  by (auto simp: trim_def trim_start_def trim_end_def dest!: set_dropWhileD)

lemma trim_idem [simp]: "trim (trim s) = trim s"
proof -
  have "trim s = [] \<or> \<not> is_ws (hd (trim s))"
  proof (cases "trim s = []")
    case False
    then have "hd (trim s) = hd (trim_start s)" and "trim_start s \<noteq> []"
      using trim_end_prefix [of "trim_start s"] by (auto simp: trim_def hd_trim_end)
    then show ?thesis using hd_dropWhile [of is_ws s] by (simp add: trim_start_def)
  qed simp
  then have "trim_start (trim s) = trim s" by (rule trim_start_fixed)
  moreover have "trim_end (trim s) = trim s"
    unfolding trim_def by (rule trim_end_fixed [OF trim_end_ends])
  ultimately show ?thesis by (simp add: trim_def)
qed

lemma length_last_n [str_simps]: "length (last_n n s) \<le> n"
  by (simp add: last_n_def)

lemma last_n_suffix [str_simps]: "suffix (last_n n s) s"
  by (simp add: last_n_def suffix_drop)

section \<open>Tables as lists of rows\<close>

text \<open>
  A SQLite table is the list of its rows in rowid order: \<open>INSERT\<close> appends,
  \<open>UPDATE ... WHERE p\<close> maps, a \<open>SELECT\<close> of one row takes the first match.
\<close>

definition sql_update :: "('r \<Rightarrow> bool) \<Rightarrow> ('r \<Rightarrow> 'r) \<Rightarrow> 'r list \<Rightarrow> 'r list" where
  "sql_update p f rows = map (\<lambda>r. if p r then f r else r) rows"

definition sql_get :: "('r \<Rightarrow> bool) \<Rightarrow> 'r list \<Rightarrow> 'r option" where
  "sql_get p rows = find p rows"

text \<open>\<open>res.changes > 0\<close>.\<close>

definition sql_any :: "('r \<Rightarrow> bool) \<Rightarrow> 'r list \<Rightarrow> bool" where
  "sql_any p rows \<longleftrightarrow> list_ex p rows"

text \<open>\<open>INSERT ... ON CONFLICT (key) DO UPDATE\<close>: the fresh row, or the merge of the stored one.\<close>

definition sql_upsert :: "('r \<Rightarrow> 'k) \<Rightarrow> 'r \<Rightarrow> ('r \<Rightarrow> 'r) \<Rightarrow> 'r list \<Rightarrow> 'r list" where
  "sql_upsert key new merge rows =
     (if list_ex (\<lambda>r. key r = key new) rows
      then sql_update (\<lambda>r. key r = key new) merge rows else rows @ [new])"

text \<open>
  What a repository call can throw: a foreign key without its row, a unique index hit by an
  \<open>INSERT\<close>, an argument the zod schema refuses, or a missing encryption key. A transaction
  that throws is rolled back, so an error carries no new table.
\<close>

datatype db_error = ForeignKeyFailed | UniqueFailed | InvalidInput | KeyMissing

definition sql_insert :: "('r \<Rightarrow> 'k) \<Rightarrow> 'r \<Rightarrow> 'r list \<Rightarrow> db_error + 'r list" where
  "sql_insert key new rows =
     (if list_ex (\<lambda>r. key r = key new) rows then Inl UniqueFailed else Inr (rows @ [new]))"

text \<open>The unique index on \<open>key\<close>.\<close>

definition unique_key :: "('r \<Rightarrow> 'k) \<Rightarrow> 'r list \<Rightarrow> bool" where
  "unique_key key rows \<longleftrightarrow> distinct (map key rows)"

lemma sql_get_Some: "sql_get p rows = Some r \<Longrightarrow> r \<in> set rows \<and> p r"
  by (auto simp: sql_get_def find_Some_iff)

lemma sql_get_None [table_simps]: "sql_get p rows = None \<longleftrightarrow> (\<forall>r \<in> set rows. \<not> p r)"
  by (auto simp: sql_get_def find_None_iff)

lemma sql_any_get: "sql_any p rows \<longleftrightarrow> sql_get p rows \<noteq> None"
  by (auto simp: sql_any_def list_ex_iff sql_get_None)

lemma sql_get_Nil [simp]: "sql_get p [] = None"
  by (simp add: sql_get_def)

lemma sql_get_Cons: "sql_get p (r # rows) = (if p r then Some r else sql_get p rows)"
  by (simp add: sql_get_def)

lemma sql_get_append:
  "sql_get p (xs @ ys) = (case sql_get p xs of None \<Rightarrow> sql_get p ys | Some r \<Rightarrow> Some r)"
  by (induction xs) (auto simp: sql_get_Cons)

lemma sql_update_Nil [simp]: "sql_update p f [] = []"
  by (simp add: sql_update_def)

lemma sql_update_Cons: "sql_update p f (r # rows) = (if p r then f r else r) # sql_update p f rows"
  by (simp add: sql_update_def)

lemma set_sql_update: "set (sql_update p f rows) = (\<lambda>r. if p r then f r else r) ` set rows"
  by (simp add: sql_update_def)

text \<open>An update that keeps the key keeps the keys, hence the unique index.\<close>

lemma map_key_sql_update:
  assumes "\<And>r. p r \<Longrightarrow> key (f r) = key r"
  shows "map key (sql_update p f rows) = map key rows"
  using assms by (induction rows) (auto simp: sql_update_Cons)

lemma key_image_update:
  assumes "\<And>r. key (f r) = key r"
  shows "key ` set (sql_update p f rows) = key ` set rows"
  using map_key_sql_update [of p key f rows] assms by (metis list.set_map)

lemma ball_update: "(\<forall>r \<in> set (sql_update p f rows). Q r) \<longleftrightarrow> (\<forall>r \<in> set rows. Q (if p r then f r else r))"
  by (auto simp: sql_update_def)

lemma unique_key_update [inv_intros]:
  assumes "\<And>r. p r \<Longrightarrow> key (f r) = key r" "unique_key key rows"
  shows "unique_key key (sql_update p f rows)"
  using assms by (simp add: unique_key_def map_key_sql_update)

lemma unique_key_append:
  "unique_key key (rows @ [r]) \<longleftrightarrow> unique_key key rows \<and> (\<forall>x \<in> set rows. key x \<noteq> key r)"
  by (auto simp: unique_key_def image_iff)

lemma unique_key_upsert [inv_intros]:
  assumes "\<And>r. key r = key new \<Longrightarrow> key (merge r) = key r" "unique_key key rows"
  shows "unique_key key (sql_upsert key new merge rows)"
  using assms by (auto simp: sql_upsert_def unique_key_append list_ex_iff intro: unique_key_update)

lemma sql_insert_Inr:
  "sql_insert key new rows = Inr rows' \<longleftrightarrow>
     rows' = rows @ [new] \<and> (\<forall>r \<in> set rows. key r \<noteq> key new)"
  by (auto simp: sql_insert_def list_ex_iff)

lemma unique_key_insert [inv_intros]:
  "unique_key key rows \<Longrightarrow> sql_insert key new rows = Inr rows' \<Longrightarrow> unique_key key rows'"
  by (auto simp: sql_insert_Inr unique_key_append)

text \<open>Under the index, a row of the table is the row its key reads.\<close>

lemma sql_get_unique:
  assumes "unique_key key rows" "r \<in> set rows"
  shows "sql_get (\<lambda>x. key x = key r) rows = Some r"
  using assms by (induction rows) (auto simp: unique_key_def sql_get_Cons)

lemma sql_get_stronger:
  "sql_get p rows = Some r \<Longrightarrow> q r \<Longrightarrow> sql_get (\<lambda>x. p x \<and> q x) rows = Some r"
  by (induction rows) (auto simp: sql_get_Cons split: if_splits)

text \<open>Reading a key after an update or an upsert.\<close>

lemma sql_get_update_key:
  assumes "\<And>r. p r \<Longrightarrow> key (f r) = key r"
  shows "sql_get (\<lambda>r. key r = k) (sql_update p f rows)
    = map_option (\<lambda>r. if p r then f r else r) (sql_get (\<lambda>r. key r = k) rows)"
  using assms by (induction rows) (auto simp: sql_update_Cons sql_get_Cons)

lemma sql_get_update_at:
  assumes "\<And>r. key (f r) = key r"
  shows "sql_get (\<lambda>r. key r = k) (sql_update (\<lambda>r. key r = j) f rows)
    = (if k = j then map_option f (sql_get (\<lambda>r. key r = k) rows) else sql_get (\<lambda>r. key r = k) rows)"
  using assms by (induction rows) (auto simp: sql_update_Cons sql_get_Cons)

lemma sql_get_upsert:
  assumes "\<And>r. key r = key new \<Longrightarrow> key (merge r) = key r"
  shows "sql_get (\<lambda>r. key r = k) (sql_upsert key new merge rows)
    = (if k = key new
       then Some (case sql_get (\<lambda>r. key r = k) rows of None \<Rightarrow> new | Some r \<Rightarrow> merge r)
       else sql_get (\<lambda>r. key r = k) rows)"
proof (cases "list_ex (\<lambda>r. key r = key new) rows")
  case True
  then have ex: "sql_get (\<lambda>r. key r = key new) rows \<noteq> None"
    by (auto simp: sql_get_None list_ex_iff)
  have "sql_get (\<lambda>r. key r = k) (sql_upsert key new merge rows)
    = map_option (\<lambda>r. if key r = key new then merge r else r) (sql_get (\<lambda>r. key r = k) rows)"
    using True assms sql_get_update_key [of "\<lambda>r. key r = key new" key merge k rows]
    by (simp add: sql_upsert_def)
  then show ?thesis
    using ex by (auto split: option.splits dest: sql_get_Some simp: map_option_case)
next
  case False
  then have "sql_get (\<lambda>r. key r = key new) rows = None"
    by (auto simp: sql_get_None list_ex_iff)
  then show ?thesis
    using False by (auto simp: sql_upsert_def sql_get_append sql_get_Cons split: option.splits)
qed

section \<open>Interfaces\<close>

subsection \<open>A machine with an invariant\<close>

text \<open>
  A component whose operations are the steps of a deterministic machine: what every step
  keeps holds after any sequence of operations.
\<close>

locale machine =
  fixes step :: "'s \<Rightarrow> 'e \<Rightarrow> 's"
    and inv :: "'s \<Rightarrow> bool"
  assumes step_inv: "inv s \<Longrightarrow> inv (step s e)"
begin

lemma run_inv: "inv s \<Longrightarrow> inv (foldl step s es)"
  by (induction es arbitrary: s) (simp_all add: step_inv)

end

text \<open>A machine in which a relation between the states before and after is kept by every step.\<close>

locale monotone_machine = machine +
  fixes rel :: "'s \<Rightarrow> 's \<Rightarrow> bool"
  assumes rel_refl: "rel s s"
    and rel_trans: "rel s t \<Longrightarrow> rel t u \<Longrightarrow> rel s u"
    and step_rel: "inv s \<Longrightarrow> rel s (step s e)"
begin

lemma run_rel: "inv s \<Longrightarrow> rel s (foldl step s es)"
proof (induction es arbitrary: s)
  case Nil
  show ?case by (simp add: rel_refl)
next
  case (Cons e es)
  have "rel s (step s e)" using Cons.prems by (rule step_rel)
  moreover have "rel (step s e) (foldl step (step s e) es)"
    using Cons.prems by (intro Cons.IH step_inv)
  ultimately show ?case by (auto intro: rel_trans)
qed

end

subsection \<open>A store with keyed rows\<close>

text \<open>
  A repository whose \<open>put\<close> replaces what one key reads and nothing else: the upserts of the
  SQLite repositories, read through the columns that the upsert overwrites.
\<close>

locale keyed_store =
  fixes put :: "'k \<Rightarrow> 'v \<Rightarrow> 's \<Rightarrow> 's"
    and look :: "'k \<Rightarrow> 's \<Rightarrow> 'v option"
  assumes look_put: "look k' (put k v s) = (if k' = k then Some v else look k' s)"
begin

text \<open>After any writes a key reads its last write.\<close>

lemma look_puts:
  "look k (foldl (\<lambda>s (k, v). put k v s) s kvs)
    = (case map_of (rev kvs) k of None \<Rightarrow> look k s | Some v \<Rightarrow> Some v)"
  by (induction kvs arbitrary: s)
    (auto simp: look_put map_add_def split: option.splits)

lemma put_twice: "look j (put k v' (put k v s)) = look j (put k v' s)"
  by (simp add: look_put)

lemma put_commutes: "k \<noteq> k' \<Longrightarrow> look j (put k v (put k' v' s)) = look j (put k' v' (put k v s))"
  by (simp add: look_put)

end

end
