(* ===== verification/Jid.thy ===== *)
theory Jid
  imports Prelude
begin

text \<open>
  The identity helpers of \<open>src/util.ts\<close>: classification of WhatsApp ids (DM, group,
  LID), the E.164 canonical form of a phone number and the masks used in logs.
  Parameters the code declares \<open>string | null | undefined\<close> are \<open>string option\<close>.
\<close>

section \<open>Definitions\<close>

definition isGroupJid :: "string \<Rightarrow> bool" where
  "isGroupJid jid = ends_with ''@g.us'' jid"

definition isDmJid :: "string \<Rightarrow> bool" where
  "isDmJid jid = ends_with ''@s.whatsapp.net'' jid"

definition isLidJid :: "string \<Rightarrow> bool" where
  "isLidJid jid = ends_with ''@lid'' jid"

definition jidUser :: "string \<Rightarrow> string" where
  "jidUser jid = (let user = before_char (CHR ''@'') jid in before_char (CHR '':'') user)"

text \<open>The test \<open>/^\d{6,15}$/\<close>.\<close>

definition phone_digits :: "string \<Rightarrow> bool" where
  "phone_digits s \<longleftrightarrow> list_all is_digit s \<and> 6 \<le> length s \<and> length s \<le> 15"

definition phoneE164FromJid :: "string \<Rightarrow> string option" where
  "phoneE164FromJid jid =
     (if \<not> isDmJid jid then None
      else let user = jidUser jid in
        if \<not> phone_digits user then None else Some (CHR ''+'' # user))"

definition e164ToPairingNumber :: "string \<Rightarrow> string" where
  "e164ToPairingNumber e164 = filter is_digit e164"

definition canonicalizeE164 :: "string \<Rightarrow> string option" where
  "canonicalizeE164 input =
     (let digits = filter is_digit input in
      if \<not> phone_digits digits then None else Some (CHR ''+'' # digits))"

definition maskNumber :: "string option \<Rightarrow> string" where
  "maskNumber e164 =
     (case e164 of None \<Rightarrow> ''?''
      | Some e \<Rightarrow>
          if e = [] then ''?''
          else let digits = filter is_digit e in
            if length digits \<le> 4 then ''***'' else ''***'' @ last_n 4 digits)"

definition maskJid :: "string option \<Rightarrow> string" where
  "maskJid jid =
     (case jid of None \<Rightarrow> ''?''
      | Some j \<Rightarrow>
          if j = [] then ''?''
          else let user = before_char (CHR ''@'') j;
                   domain = from_char (CHR ''@'') j;
                   tail = (if length user \<le> 4 then ''***'' else ''***'' @ last_n 4 user)
               in tail @ domain)"

definition maskSecret :: "string option \<Rightarrow> string" where
  "maskSecret secret =
     (case secret of None \<Rightarrow> ''?''
      | Some s \<Rightarrow> if s = [] then ''?''
                 else if length s \<le> 6 then ''***'' else take 3 s @ ''***'')"

definition e164ToJid :: "string \<Rightarrow> string" where
  "e164ToJid e164 = e164ToPairingNumber e164 @ ''@s.whatsapp.net''"

section \<open>Lemmas\<close>

lemma digit_not_at: "is_digit c \<Longrightarrow> c \<noteq> CHR ''@'' \<and> c \<noteq> CHR '':'' \<and> c \<noteq> CHR ''+''"
  by (auto simp: is_digit_def)

lemma plus_not_digit [simp]: "\<not> is_digit (CHR ''+'')"
  by (simp add: is_digit_def)

lemma star_not_digit [simp]: "\<not> is_digit (CHR ''*'')"
  by (simp add: is_digit_def)

lemma before_char_digits:
  "list_all is_digit s \<Longrightarrow> c \<in> {CHR ''@'', CHR '':''} \<Longrightarrow> before_char c (s @ c # t) = s"
  by (induction s) (auto simp: before_char_def dest: digit_not_at)

lemma before_char_absent: "c \<notin> set s \<Longrightarrow> before_char c s = s"
  by (induction s) (auto simp: before_char_def)

lemma jidUser_digits: "list_all is_digit s \<Longrightarrow> jidUser (s @ CHR ''@'' # t) = s"
  by (auto simp: jidUser_def before_char_digits list_all_iff intro!: before_char_absent
      dest: digit_not_at)

lemma filter_digit_all: "list_all is_digit s \<Longrightarrow> filter is_digit s = s"
  by (simp add: list_all_iff)

lemma phone_digits_all: "phone_digits s \<Longrightarrow> list_all is_digit s"
  by (simp add: phone_digits_def)

lemma isDmJid_append [simp]: "isDmJid (s @ ''@s.whatsapp.net'')"
  by (simp add: isDmJid_def ends_with_suffix suffix_def)

lemma canonicalizeE164_Some:
  "canonicalizeE164 s = Some p \<longleftrightarrow> phone_digits (filter is_digit s) \<and> p = CHR ''+'' # filter is_digit s"
  by (auto simp: canonicalizeE164_def Let_def)

lemma phoneE164FromJid_Some:
  "phoneE164FromJid j = Some p \<longleftrightarrow> isDmJid j \<and> phone_digits (jidUser j) \<and> p = CHR ''+'' # jidUser j"
  by (auto simp: phoneE164FromJid_def Let_def)

lemma last_same_suffix:
  "suffix p s \<Longrightarrow> suffix q s \<Longrightarrow> p \<noteq> [] \<Longrightarrow> q \<noteq> [] \<Longrightarrow> last p = last q"
  by (auto simp: suffix_def) (metis last_appendR)

text \<open>The three kinds of id exclude each other.\<close>

lemma jid_kinds_disjoint:
  "\<not> (isGroupJid j \<and> isDmJid j)" "\<not> (isGroupJid j \<and> isLidJid j)" "\<not> (isDmJid j \<and> isLidJid j)"
  by (auto simp: isGroupJid_def isDmJid_def isLidJid_def ends_with_suffix
      dest: last_same_suffix)

lemma group_no_phone: "isGroupJid j \<Longrightarrow> phoneE164FromJid j = None"
  using jid_kinds_disjoint(1) [of j] by (simp add: phoneE164FromJid_def)

lemma lid_no_phone: "isLidJid j \<Longrightarrow> phoneE164FromJid j = None"
  using jid_kinds_disjoint(3) [of j] by (simp add: phoneE164FromJid_def)

lemma filter_digit_last_n: "list_all is_digit s \<Longrightarrow> filter is_digit (last_n n s) = last_n n s"
  by (simp add: last_n_def list_all_iff filter_id_conv) (meson in_set_dropD)

section \<open>Properties\<close>

text \<open>\<open>canonicalizeE164\<close> yields one representative per digit sequence: the result is
  a fixed point, it survives the trip through a DM id (\<open>e164ToJid\<close> then
  \<open>phoneE164FromJid\<close>), and any other spelling of the same digits yields the same value.\<close>

theorem canonicalizeE164_canonical:
  assumes "canonicalizeE164 input = Some p"
  shows "canonicalizeE164 p = Some p \<and> phoneE164FromJid (e164ToJid p) = Some p
    \<and> (\<forall>other. filter is_digit other = filter is_digit input \<longrightarrow> canonicalizeE164 other = Some p)"
proof -
  let ?d = "filter is_digit input"
  from assms have d: "phone_digits ?d" and p: "p = CHR ''+'' # ?d"
    by (simp_all add: canonicalizeE164_Some)
  have "jidUser (?d @ ''@s.whatsapp.net'') = ?d"
    using jidUser_digits [OF phone_digits_all [OF d]] by simp
  then show ?thesis
    using d by (simp add: p canonicalizeE164_Some phoneE164FromJid_Some e164ToJid_def
        e164ToPairingNumber_def)
qed

theorem canonicalizeE164_canonical_witness:
  "canonicalizeE164 ''+1 (415) 555-1212'' = Some ''+14155551212''
   \<and> canonicalizeE164 ''14155551212'' = Some ''+14155551212''
   \<and> phoneE164FromJid (e164ToJid ''+14155551212'') = Some ''+14155551212''"
proof -
  have h: "canonicalizeE164 ''+1 (415) 555-1212'' = Some ''+14155551212''" by code_simp
  have e: "filter is_digit ''14155551212'' = filter is_digit ''+1 (415) 555-1212''" by code_simp
  show ?thesis using h e canonicalizeE164_canonical [OF h] by blast
qed

text \<open>A masked number shows at most the last four digits, and never a whole phone number.\<close>

theorem maskNumber_hides:
  "length (filter is_digit (maskNumber e)) \<le> 4
   \<and> (e \<noteq> None \<and> phone_digits (filter is_digit (the e))
        \<longrightarrow> filter is_digit (maskNumber e) \<noteq> filter is_digit (the e))"
proof (cases e)
  case (Some s)
  have "list_all is_digit (filter is_digit s)" by (simp add: list_all_iff)
  then have f: "filter is_digit (last_n 4 (filter is_digit s)) = last_n 4 (filter is_digit s)"
    by (rule filter_digit_last_n)
  have "length (filter is_digit (maskNumber e)) \<le> 4"
    using f length_last_n [of 4 "filter is_digit s"] by (simp add: Some maskNumber_def Let_def)
  then show ?thesis
    using Some by (auto simp: phone_digits_def)
qed (simp add: maskNumber_def is_digit_def)

theorem maskNumber_hides_witness:
  "maskNumber (Some ''+14155551212'') = ''***1212''
   \<and> filter is_digit (maskNumber (Some ''+14155551212'')) \<noteq> ''14155551212''"
proof -
  have d: "filter is_digit ''+14155551212'' = ''14155551212''" by code_simp
  have p: "phone_digits ''14155551212''" by code_simp
  have m: "maskNumber (Some ''+14155551212'') = ''***1212''" by code_simp
  show ?thesis using maskNumber_hides [of "Some ''+14155551212''"] d p m by simp
qed

end
