(* ===== verification/Json.thy ===== *)
theory Json
  imports Prelude
begin

text \<open>
  The part of \<open>JSON.stringify\<close> and \<open>JSON.parse\<close> that the gateway relies on for what it stores
  and for its map keys, and that it reads from others. A number is read exactly, as a mantissa and
  a power of ten, where JavaScript rounds to a double; it is printed as one too, which is
  JavaScript's text for the integers, the only numbers the gateway prints. Code units above 255 are
  not represented (a \<open>\u\<close> escape of one is refused). The parser's fuel is the length of
  its input, which \<open>jparse_print\<close> shows to be enough.
\<close>

datatype json = JNull | JBool bool | JNum int int | JStr string | JArr "json list" | JObj "(string \<times> json) list"

section \<open>Printing\<close>

definition hex_digit :: "nat \<Rightarrow> char" where
  "hex_digit n = (if n < 10 then char_of (48 + n) else char_of (87 + n))"

definition json_char :: "char \<Rightarrow> string" where
  "json_char c =
     (let n = of_char c :: nat in
      if n = 34 then [CHR 92, CHR 34]
      else if n = 92 then [CHR 92, CHR 92]
      else if n = 8 then [CHR 92, CHR ''b'']
      else if n = 9 then [CHR 92, CHR ''t'']
      else if n = 10 then [CHR 92, CHR ''n'']
      else if n = 12 then [CHR 92, CHR ''f'']
      else if n = 13 then [CHR 92, CHR ''r'']
      else if n < 32 then CHR 92 # ''u00'' @ [hex_digit (n div 16), hex_digit (n mod 16)]
      else [c])"

definition json_string :: "string \<Rightarrow> string" where
  "json_string s = [CHR 34] @ concat (map json_char s) @ [CHR 34]"

fun jprint :: "json \<Rightarrow> string" where
  "jprint JNull = ''null''"
| "jprint (JBool b) = (if b then ''true'' else ''false'')"
| "jprint (JNum m e) = show_int m @ (if e = 0 then [] else ''e'' @ show_int e)"
| "jprint (JStr s) = json_string s"
| "jprint (JArr xs) = ''['' @ join_with '','' (map jprint xs) @ '']''"
| "jprint (JObj kvs) =
     ''{'' @ join_with '','' (map (\<lambda>(k, v). json_string k @ '':'' @ jprint v) kvs) @ ''}''"

section \<open>Parsing\<close>

definition jskip :: "string \<Rightarrow> string" where
  "jskip s = dropWhile (\<lambda>c. c \<in> {CHR 32, CHR 9, CHR 10, CHR 13}) s"

definition hex_val :: "char \<Rightarrow> nat option" where
  "hex_val c =
     (let n = of_char c :: nat in
      if 48 \<le> n \<and> n \<le> 57 then Some (n - 48)
      else if 97 \<le> n \<and> n \<le> 102 then Some (n - 87)
      else if 65 \<le> n \<and> n \<le> 70 then Some (n - 55) else None)"

definition unescape :: "char \<Rightarrow> char option" where
  "unescape c =
     (if c = CHR 34 \<or> c = CHR 92 \<or> c = CHR 47 then Some c
      else if c = CHR ''b'' then Some (CHR 8) else if c = CHR ''t'' then Some (CHR 9)
      else if c = CHR ''n'' then Some (CHR 10) else if c = CHR ''f'' then Some (CHR 12)
      else if c = CHR ''r'' then Some (CHR 13) else None)"

definition unicode :: "char \<Rightarrow> char \<Rightarrow> char \<Rightarrow> char \<Rightarrow> char option" where
  "unicode a b c d =
     (case (hex_val a, hex_val b, hex_val c, hex_val d) of
        (Some a, Some b, Some c, Some d) \<Rightarrow>
          if a = 0 \<and> b = 0 then Some (char_of (16 * c + d)) else None
      | _ \<Rightarrow> None)"

text \<open>The characters of a string literal up to its closing quote.\<close>

fun pchars :: "string \<Rightarrow> (string \<times> string) option" where
  "pchars [] = None"
| "pchars (c # r) =
     (if c = CHR 34 then Some ([], r)
      else if c = CHR 92 then
        (case r of
           [] \<Rightarrow> None
         | e # r1 \<Rightarrow>
             if e = CHR ''u'' then
               (case r1 of
                  h1 # h2 # h3 # h4 # r2 \<Rightarrow>
                    (case unicode h1 h2 h3 h4 of
                       None \<Rightarrow> None
                     | Some x \<Rightarrow> map_option (\<lambda>(s, t). (x # s, t)) (pchars r2))
                | _ \<Rightarrow> None)
             else (case unescape e of
                 None \<Rightarrow> None
               | Some x \<Rightarrow> map_option (\<lambda>(s, t). (x # s, t)) (pchars r1)))
      else if (of_char c :: nat) < 32 then None
      else map_option (\<lambda>(s, t). (c # s, t)) (pchars r))"

text \<open>A number: an optional sign, an integer without leading zeros, a fraction and an exponent.\<close>

definition json_fraction :: "string \<Rightarrow> (string \<times> string) option" where
  "json_fraction s =
     (if \<not> starts_with ''.'' s then Some ([], s)
      else if takeWhile is_digit (tl s) = [] then None
      else Some (takeWhile is_digit (tl s), dropWhile is_digit (tl s)))"

definition json_exponent :: "string \<Rightarrow> (int \<times> string) option" where
  "json_exponent s =
     (if \<not> starts_with ''e'' s \<and> \<not> starts_with ''E'' s then Some (0, s)
      else
        let s1 = tl s; s2 = (if starts_with ''-'' s1 \<or> starts_with ''+'' s1 then tl s1 else s1);
            n = int (read_nat (takeWhile is_digit s2))
        in if takeWhile is_digit s2 = [] then None
           else Some (if starts_with ''-'' s1 then - n else n, dropWhile is_digit s2))"

definition jnumber :: "string \<Rightarrow> (json \<times> string) option" where
  "jnumber s =
     (let s1 = (if starts_with ''-'' s then tl s else s); ds = takeWhile is_digit s1 in
      if ds = [] \<or> 1 < length ds \<and> hd ds = CHR ''0'' then None
      else
        (case json_fraction (dropWhile is_digit s1) of
           None \<Rightarrow> None
         | Some (fs, s2) \<Rightarrow>
             (case json_exponent s2 of
                None \<Rightarrow> None
              | Some (e, s3) \<Rightarrow>
                  let m = int (read_nat (ds @ fs)) in
                  Some (JNum (if starts_with ''-'' s then - m else m) (e - int (length fs)), s3))))"

fun jparse :: "nat \<Rightarrow> string \<Rightarrow> (json \<times> string) option"
  and jelems :: "nat \<Rightarrow> string \<Rightarrow> (json list \<times> string) option"
  and jmembers :: "nat \<Rightarrow> string \<Rightarrow> ((string \<times> json) list \<times> string) option" where
  "jparse 0 s = None"
| "jparse (Suc n) s =
     (case jskip s of
        [] \<Rightarrow> None
      | c # r \<Rightarrow>
          if c = CHR 34 then map_option (\<lambda>(t, r'). (JStr t, r')) (pchars r)
          else if c = CHR ''['' then
            (if starts_with '']'' (jskip r) then Some (JArr [], tl (jskip r))
             else map_option (\<lambda>(xs, r'). (JArr xs, r')) (jelems n r))
          else if c = CHR ''{'' then
            (if starts_with ''}'' (jskip r) then Some (JObj [], tl (jskip r))
             else map_option (\<lambda>(xs, r'). (JObj xs, r')) (jmembers n r))
          else if starts_with ''true'' (c # r) then Some (JBool True, drop 3 r)
          else if starts_with ''false'' (c # r) then Some (JBool False, drop 4 r)
          else if starts_with ''null'' (c # r) then Some (JNull, drop 3 r)
          else jnumber (c # r))"
| "jelems 0 s = None"
| "jelems (Suc n) s =
     (case jparse n s of
        None \<Rightarrow> None
      | Some (x, r) \<Rightarrow>
         (case jskip r of
            [] \<Rightarrow> None
          | c # r' \<Rightarrow>
              if c = CHR '','' then map_option (\<lambda>(xs, t). (x # xs, t)) (jelems n r')
              else if c = CHR '']'' then Some ([x], r') else None))"
| "jmembers 0 s = None"
| "jmembers (Suc n) s =
     (case jskip s of
        [] \<Rightarrow> None
      | q # r \<Rightarrow>
          if q \<noteq> CHR 34 then None
          else (case pchars r of
              None \<Rightarrow> None
            | Some (k, r1) \<Rightarrow>
                if \<not> starts_with '':'' (jskip r1) then None
                else (case jparse n (tl (jskip r1)) of
                    None \<Rightarrow> None
                  | Some (v, r2) \<Rightarrow>
                     (case jskip r2 of
                        [] \<Rightarrow> None
                      | c # r' \<Rightarrow>
                          if c = CHR '','' then map_option (\<lambda>(xs, t). ((k, v) # xs, t)) (jmembers n r')
                          else if c = CHR ''}'' then Some ([(k, v)], r') else None))))"

text \<open>\<open>JSON.parse\<close>: one value and nothing after it.\<close>

definition json_parse :: "string \<Rightarrow> json option" where
  "json_parse s =
     (case jparse (length s) s of
        None \<Rightarrow> None
      | Some (j, r) \<Rightarrow> if jskip r = [] then Some j else None)"

section \<open>Reading a parsed value\<close>

text \<open>An own property of an object: of two with the same name the last counts.\<close>

definition json_prop :: "string \<Rightarrow> (string \<times> json) list \<Rightarrow> json option" where
  "json_prop k kvs = map_of (rev kvs) k"

text \<open>What JavaScript takes for true.\<close>

fun truthy :: "json \<Rightarrow> bool" where
  "truthy JNull = False"
| "truthy (JBool b) = b"
| "truthy (JNum m e) = (m \<noteq> 0)"
| "truthy (JStr s) = (s \<noteq> [])"
| "truthy j = True"

text \<open>The text fields of a schema: \<open>None\<close> is a refusal, \<open>Some None\<close> a missing text.\<close>

definition optional_text :: "string \<Rightarrow> (string \<times> json) list \<Rightarrow> string option option" where
  "optional_text k kvs = (case json_prop k kvs of None \<Rightarrow> Some None | Some (JStr s) \<Rightarrow> Some (Some s) | _ \<Rightarrow> None)"

definition nullish_text :: "string \<Rightarrow> (string \<times> json) list \<Rightarrow> string option option" where
  "nullish_text k kvs =
     (case json_prop k kvs of
        None \<Rightarrow> Some None | Some JNull \<Rightarrow> Some None | Some (JStr s) \<Rightarrow> Some (Some s) | _ \<Rightarrow> None)"

definition required_text :: "string \<Rightarrow> (string \<times> json) list \<Rightarrow> string option" where
  "required_text k kvs = (case json_prop k kvs of Some (JStr s) \<Rightarrow> if s = [] then None else Some s | _ \<Rightarrow> None)"

text \<open>A text that may be missing but not empty.\<close>

definition optional_filled :: "string \<Rightarrow> (string \<times> json) list \<Rightarrow> string option option" where
  "optional_filled k kvs = (case optional_text k kvs of Some (Some s) \<Rightarrow> if s = [] then None else Some (Some s) | r \<Rightarrow> r)"

text \<open>A nonnegative integer.\<close>

fun json_nat :: "json \<Rightarrow> nat option" where
  "json_nat (JNum m e) =
     (if m < 0 then None
      else if 0 \<le> e then Some (nat m * 10 ^ nat e)
      else if nat m mod 10 ^ nat (- e) = 0 then Some (nat m div 10 ^ nat (- e))
      else None)"
| "json_nat j = None"

section \<open>The round trip\<close>

lemma hex_val_digit: "n < 16 \<Longrightarrow> hex_val (hex_digit n) = Some n"
  by (cases "n < 10") (simp_all add: hex_val_def hex_digit_def Let_def)

lemma unicode_control:
  "n < 32 \<Longrightarrow> unicode (CHR ''0'') (CHR ''0'') (hex_digit (n div 16)) (hex_digit (n mod 16)) = Some (char_of n)"
proof -
  assume "n < 32"
  then have "n div 16 < 16" "n mod 16 < 16" by auto
  moreover have "hex_val (CHR ''0'') = Some 0" by (simp add: hex_val_def)
  ultimately show ?thesis by (simp add: unicode_def hex_val_digit)
qed

lemma char_of_special:
  "char_of (34 :: nat) = CHR 34" "char_of (92 :: nat) = CHR 92" "char_of (8 :: nat) = CHR 8"
  "char_of (9 :: nat) = CHR 9" "char_of (10 :: nat) = CHR 10" "char_of (12 :: nat) = CHR 12"
  "char_of (13 :: nat) = CHR 13"
  by code_simp+

lemma json_char_parse:
  "pchars (json_char c @ s) = map_option (\<lambda>(t, r). (c # t, r)) (pchars s)"
proof -
  define n where "n = (of_char c :: nat)"
  have c: "c = char_of n" by (simp add: n_def)
  consider "n = 34" | "n = 92" | "n = 8" | "n = 9" | "n = 10" | "n = 12" | "n = 13"
    | (ctl) "n < 32" "n \<notin> {8, 9, 10, 12, 13}"
    | (plain) "32 \<le> n" "n \<noteq> 34" "n \<noteq> 92" by force
  then show ?thesis
  proof cases
    case ctl
    then have "json_char c = CHR 92 # ''u00'' @ [hex_digit (n div 16), hex_digit (n mod 16)]"
      by (simp add: json_char_def n_def Let_def)
    then show ?thesis using ctl(1) by (simp add: unicode_control c)
  next
    case plain
    then have "json_char c = [c]" "c \<noteq> CHR 34" "c \<noteq> CHR 92"
      by (auto simp: json_char_def n_def)
    then show ?thesis using plain by (simp add: n_def)
  qed (use c in \<open>simp_all add: json_char_def unescape_def char_of_special\<close>)
qed

lemma json_chars_parse: "pchars (concat (map json_char s) @ CHR 34 # r) = Some (s, r)"
  by (induction s) (simp_all add: json_char_parse)

lemma length_json_string: "2 \<le> length (json_string s)"
  by (simp add: json_string_def)

lemma json_string_shape: "json_string s @ r = CHR 34 # concat (map json_char s) @ CHR 34 # r"
  by (simp add: json_string_def)

lemma show_int_hd: "\<exists>c r. show_int m = c # r \<and> (c = CHR ''-'' \<or> is_digit c)"
proof (cases "m < 0")
  case False
  obtain c cs where c: "show_nat (nat m) = c # cs" using show_nat_nonempty [of "nat m"] by (cases "show_nat (nat m)") auto
  then have "is_digit c" using show_nat_digits [of c "nat m"] by simp
  then show ?thesis using False c by (simp add: show_int_def)
qed (simp add: show_int_def)

lemma jprint_hd: "\<exists>c r. jprint j = c # r \<and> c \<notin> {CHR 32, CHR 9, CHR 10, CHR 13, CHR '']'', CHR ''}''}"
proof (cases j)
  case (JNum m e)
  then show ?thesis using show_int_hd [of m] by (auto simp: is_digit_def)
qed (auto simp: json_string_def)

lemma jskip_fixed: "c \<notin> {CHR 32, CHR 9, CHR 10, CHR 13} \<Longrightarrow> jskip (c # r) = c # r"
  by (simp add: jskip_def)

lemma jskip_print: "jskip (jprint j @ r) = jprint j @ r"
  using jprint_hd [of j] by (auto simp: jskip_def)

lemma starts_char: "starts_with [x] s \<longleftrightarrow> (\<exists>r. s = x # r)"
  by (cases s) (auto simp: starts_with_def)

lemma length_join_Cons: "xs \<noteq> [] \<Longrightarrow> join_with s (x # xs) = x @ s @ join_with s xs"
  by (cases xs) auto

text \<open>What follows a value in a text: nothing, or a comma or a bracket.\<close>

definition ends_value :: "string \<Rightarrow> bool" where
  "ends_value s \<longleftrightarrow> (\<forall>c r. s = c # r \<longrightarrow> c \<in> {CHR '','', CHR '']'', CHR ''}''})"

lemma ends_value_simps [simp]: "ends_value []" "ends_value (CHR '','' # r)" "ends_value (CHR '']'' # r)" "ends_value (CHR ''}'' # r)"
  by (simp_all add: ends_value_def)

lemma digits_then:
  assumes "\<forall>c \<in> set ds. is_digit c" "\<And>c r. s = c # r \<Longrightarrow> \<not> is_digit c"
  shows "takeWhile is_digit (ds @ s) = ds" "dropWhile is_digit (ds @ s) = s"
  using assms by (induction ds; cases s; simp)+

lemma ends_value_no_digit: "ends_value (c # r) \<Longrightarrow> \<not> is_digit c"
  by (auto simp: ends_value_def is_digit_def)

lemma show_nat_takes:
  assumes "\<And>c r. s = c # r \<Longrightarrow> \<not> is_digit c"
  shows "takeWhile is_digit (show_nat n @ s) = show_nat n" "dropWhile is_digit (show_nat n @ s) = s"
  by (rule digits_then; use assms show_nat_digits in auto)+

lemma show_nat_not_sign: "\<not> starts_with ''-'' (show_nat n @ s)" "\<not> starts_with ''+'' (show_nat n @ s)"
proof -
  obtain c cs where c: "show_nat n = c # cs" using show_nat_nonempty [of n] by (cases "show_nat n") auto
  then have "is_digit c" using show_nat_digits [of c n] by simp
  then show "\<not> starts_with ''-'' (show_nat n @ s)" "\<not> starts_with ''+'' (show_nat n @ s)"
    by (auto simp: c starts_with_def is_digit_def)
qed

lemma json_exponent_print:
  assumes "ends_value rest"
  shows "json_exponent ((if e = 0 then [] else ''e'' @ show_int e) @ rest) = Some (e, rest)"
proof -
  have no: "\<not> is_digit c" if "rest = c # r" for c r using assms ends_value_no_digit that by auto
  have e0: "json_exponent rest = Some (0, rest)"
    using assms by (cases rest) (auto simp: json_exponent_def starts_with_def ends_value_def)
  have s: "json_exponent (CHR ''e'' # s) = (let s2 = (if starts_with ''-'' s \<or> starts_with ''+'' s then tl s else s);
        n = int (read_nat (takeWhile is_digit s2))
      in if takeWhile is_digit s2 = [] then None else Some (if starts_with ''-'' s then - n else n, dropWhile is_digit s2))" for s
    by (simp add: json_exponent_def starts_with_def)
  have neg: "starts_with ''-'' (CHR ''-'' # r)" for r by (simp add: starts_with_def)
  show ?thesis using e0
    by (auto simp: s show_int_def neg show_nat_takes [OF no] show_nat_not_sign show_nat_nonempty read_show_nat Let_def)
qed

lemma jnumber_print:
  assumes "ends_value rest"
  shows "jnumber (jprint (JNum m e) @ rest) = Some (JNum m e, rest)"
proof -
  define tail where "tail = (if e = 0 then [] else ''e'' @ show_int e) @ rest"
  have no: "\<not> is_digit c" if "tail = c # r" for c r
    using assms ends_value_no_digit that by (auto simp: tail_def is_digit_def split: if_splits)
  have "\<not> starts_with ''.'' tail"
    using assms by (cases rest) (auto simp: tail_def starts_with_def ends_value_def)
  then have fr: "json_fraction tail = Some ([], tail)" by (simp add: json_fraction_def)
  have z: "1 < length (show_nat n) \<Longrightarrow> hd (show_nat n) \<noteq> CHR ''0''" for n
    by (rule hd_show_nat) (cases n, simp_all add: show_nat.simps [of 0])
  have neg: "starts_with ''-'' (CHR ''-'' # r)" for r by (simp add: starts_with_def)
  have "jprint (JNum m e) @ rest = show_int m @ tail" by (simp add: tail_def)
  moreover have "jnumber (show_int m @ tail) = Some (JNum m e, rest)"
    using z json_exponent_print [OF assms, of e, folded tail_def]
    by (auto simp: jnumber_def show_int_def neg show_nat_takes [OF no] show_nat_not_sign fr show_nat_nonempty
        read_show_nat Let_def)
  ultimately show ?thesis by simp
qed

definition parses :: "json \<Rightarrow> bool" where
  "parses j \<longleftrightarrow> (\<forall>n rest. length (jprint j) \<le> n \<longrightarrow> ends_value rest \<longrightarrow> jparse n (jprint j @ rest) = Some (j, rest))"

lemma jelems_print:
  assumes "xs \<noteq> []" "\<forall>x \<in> set xs. parses x" "length (join_with '','' (map jprint xs)) + 1 \<le> n"
  shows "jelems n (join_with '','' (map jprint xs) @ CHR '']'' # rest) = Some (xs, rest)"
  using assms
proof (induction xs arbitrary: n)
  case (Cons x xs)
  obtain m where n: "n = Suc m" using Cons.prems(3) by (cases n) auto
  have px: "length (jprint x) \<le> m \<Longrightarrow> ends_value r \<Longrightarrow> jparse m (jprint x @ r) = Some (x, r)" for r
    using Cons.prems(2) by (simp add: parses_def)
  show ?case
  proof (cases "xs = []")
    case True
    then show ?thesis using px Cons.prems(3) by (simp add: n jskip_fixed)
  next
    case False
    then show ?thesis
      using px Cons.prems Cons.IH [of m] by (simp add: n jskip_fixed length_join_Cons)
  qed
qed simp

lemma jmembers_print:
  assumes "kvs \<noteq> []" "\<forall>kv \<in> set kvs. parses (snd kv)"
    "length (join_with '','' (map (\<lambda>(k, v). json_string k @ '':'' @ jprint v) kvs)) + 1 \<le> n"
  shows "jmembers n (join_with '','' (map (\<lambda>(k, v). json_string k @ '':'' @ jprint v) kvs) @ CHR ''}'' # rest)
    = Some (kvs, rest)"
  using assms
proof (induction kvs arbitrary: n)
  case (Cons kv kvs)
  obtain k v where kv: "kv = (k, v)" by (cases kv)
  obtain m where n: "n = Suc m" using Cons.prems(3) by (cases n) auto
  have pv: "length (jprint v) \<le> m \<Longrightarrow> ends_value r \<Longrightarrow> jparse m (jprint v @ r) = Some (v, r)" for r
    using Cons.prems(2) by (simp add: parses_def kv)
  note s = jskip_fixed starts_char json_string_shape json_chars_parse
  show ?case
  proof (cases "kvs = []")
    case True
    then show ?thesis using pv Cons.prems(3) by (simp add: n kv s)
  next
    case False
    then show ?thesis
      using pv Cons.prems Cons.IH [of m] by (simp add: n kv s length_join_Cons)
  qed
qed simp

lemma jparse_number:
  assumes "c = CHR ''-'' \<or> is_digit c"
  shows "jparse (Suc k) (c # s) = jnumber (c # s)"
proof -
  have "c \<notin> {CHR 32, CHR 9, CHR 10, CHR 13}" using assms by (auto simp: is_digit_def)
  then have "jskip (c # s) = c # s" by (rule jskip_fixed)
  moreover have "c \<noteq> CHR 34" "c \<noteq> CHR ''[''" "c \<noteq> CHR ''{''" "c \<noteq> CHR ''t''" "c \<noteq> CHR ''f''" "c \<noteq> CHR ''n''"
    using assms by (auto simp: is_digit_def)
  ultimately show ?thesis by (simp add: starts_with_def)
qed

text \<open>One step of fuel: every printed value has a first character.\<close>

lemma parsesI:
  "(\<And>m rest. ends_value rest \<Longrightarrow> jparse (Suc m) (jprint j @ rest) = Some (j, rest)) \<Longrightarrow> parses j"
  using jprint_hd [of j] unfolding parses_def by (metis Suc_le_D length_Cons)

lemma jparse_print: "parses j"
proof (induction j)
  case JNull
  show ?case by (rule parsesI) (simp add: jskip_fixed starts_with_def)
next
  case (JBool b)
  show ?case by (rule parsesI) (simp add: jskip_fixed starts_with_def)
next
  case (JNum m e)
  show ?case
  proof (rule parsesI)
    fix k and rest :: string
    assume r: "ends_value rest"
    obtain c cs where c: "show_int m = c # cs" "c = CHR ''-'' \<or> is_digit c" using show_int_hd by blast
    then have "\<exists>s. jprint (JNum m e) @ rest = c # s" by simp
    then have "jparse (Suc k) (jprint (JNum m e) @ rest) = jnumber (jprint (JNum m e) @ rest)"
      using jparse_number [OF c(2)] by auto
    then show "jparse (Suc k) (jprint (JNum m e) @ rest) = Some (JNum m e, rest)"
      using jnumber_print [OF r] by (simp only:)
  qed
next
  case (JStr s)
  show ?case by (rule parsesI) (simp add: jskip_fixed json_string_shape json_chars_parse)
next
  case (JArr xs)
  show ?case
  proof (cases "xs = []")
    case True
    then show ?thesis by (auto simp: parses_def jskip_fixed starts_char dest!: Suc_le_D)
  next
    case False
    define B where "B = join_with '','' (map jprint xs)"
    obtain y ys where y: "xs = y # ys" using False by (cases xs) auto
    obtain c r where h: "B = c # r" "c \<notin> {CHR 32, CHR 9, CHR 10, CHR 13, CHR '']''}"
      using jprint_hd [of y] by (cases ys) (auto simp: B_def y)
    have "jelems m (B @ CHR '']'' # rest) = Some (xs, rest)" if "length B + 1 \<le> m" for m rest
      using jelems_print [OF False _ that [unfolded B_def]] JArr by (simp add: B_def)
    then have st: "jparse (Suc m) (CHR ''['' # B @ CHR '']'' # rest) = Some (JArr xs, rest)"
      if "length B + 1 \<le> m" for m rest
      using that h by (auto simp: jskip_fixed starts_char)
    have e: "jprint (JArr xs) @ rest = CHR ''['' # B @ CHR '']'' # rest" for rest by (simp add: B_def)
    have l: "length (jprint (JArr xs)) = Suc (length B + 1)" by (simp add: B_def)
    show ?thesis unfolding parses_def e l using st by (metis Suc_le_D Suc_le_mono)
  qed
next
  case (JObj kvs)
  show ?case
  proof (cases "kvs = []")
    case True
    then show ?thesis by (auto simp: parses_def jskip_fixed starts_char dest!: Suc_le_D)
  next
    case False
    define B where "B = join_with '','' (map (\<lambda>(k, v). json_string k @ '':'' @ jprint v) kvs)"
    obtain y ys where y: "kvs = y # ys" using False by (cases kvs) auto
    have "\<exists>r. B = CHR 34 # r"
      unfolding B_def y by (cases ys) (simp_all add: json_string_def case_prod_unfold)
    then obtain r where h: "B = CHR 34 # r" by blast
    have p: "\<forall>kv \<in> set kvs. parses (snd kv)" using JObj by (auto simp: snds.simps)
    have "jmembers m (B @ CHR ''}'' # rest) = Some (kvs, rest)" if "length B + 1 \<le> m" for m rest
      using jmembers_print [OF False p that [unfolded B_def]] by (simp add: B_def)
    then have st: "jparse (Suc m) (CHR ''{'' # B @ CHR ''}'' # rest) = Some (JObj kvs, rest)"
      if "length B + 1 \<le> m" for m rest
      using that h by (simp add: jskip_fixed starts_char)
    have e: "jprint (JObj kvs) @ rest = CHR ''{'' # B @ CHR ''}'' # rest" for rest by (simp add: B_def)
    have l: "length (jprint (JObj kvs)) = Suc (length B + 1)" by (simp add: B_def)
    show ?thesis unfolding parses_def e l using st by (metis Suc_le_D Suc_le_mono)
  qed
qed

theorem json_roundtrip: "json_parse (jprint j) = Some j"
proof -
  have "jparse (length (jprint j)) (jprint j @ []) = Some (j, [])"
    using jparse_print [of j] unfolding parses_def by (metis ends_value_simps(1) order_refl)
  then show ?thesis by (simp add: json_parse_def jskip_def)
qed

lemma jprint_inj: "jprint a = jprint b \<Longrightarrow> a = b"
  using json_roundtrip by (metis option.inject)

end
