(* ===== verification/DealInvoice.thy ===== *)
theory DealInvoice
  imports Json
begin

text \<open>
  The deal and invoice ledger of \<open>src/modules/integrity/dealInvoiceIntegrity.ts\<close>: the
  \<open>DealAndInvoiceManager\<close> with its deals, invoices, unassigned messages and audit log.
  Prices are exact rationals (the code's doubles without their rounding). A thrown error
  is \<open>Inl\<close>; the two random or clock-given values of an operation (the unassigned id, the
  time) are arguments. The maps are JavaScript \<open>Map\<close>s.
\<close>

section \<open>Data\<close>

text \<open>A receiving account: its properties in insertion order, as \<open>JSON.stringify\<close> lists them.\<close>

type_synonym account = "(string \<times> string) list"

record operator_profile =
  operator_id :: string
  operator_name :: string
  receiving_accounts :: "string \<rightharpoonup> account"

record luxury_item =
  it_brand :: string
  it_model :: string
  it_size :: "string option"
  it_colour :: "string option"
  it_material :: "string option"
  it_hardware :: "string option"
  it_condition :: "string option"
  it_sourcer :: "string option"

datatype deal_state = Confirmed | PaymentPending | DealPaid | Dispatched | Delivered

record deal =
  d_deal_id :: string
  d_client_id :: string
  d_client_name :: string
  d_item :: luxury_item
  d_sell_price :: rat
  d_cost_price :: rat
  d_currency :: string
  d_state :: deal_state
  d_is_locked :: bool
  d_invoice_id :: "string option"
  d_locked_at :: "time option"

datatype invoice_status = LockedPaymentPending | InvoicePaid | Voided

record invoice =
  i_invoice_id :: string
  i_deal_id :: string
  i_client_id :: string
  i_client_name :: string
  i_item :: luxury_item
  i_amount :: rat
  i_currency :: string
  i_payment_details :: account
  i_status :: invoice_status
  i_created_at :: time
  i_is_locked :: bool
  i_payment_verified_at :: "time option"
  i_payment_reference :: "string option"

datatype unassigned_reason = DifferentItemWhileLocked string | NotClearlyAssigned

datatype unassigned_status = PendingOperatorConfirmation | ConfirmedAttached | Discarded

record unassigned =
  u_unassigned_id :: string
  u_sender :: string
  u_text :: string
  u_extracted_data :: "string option"
  u_reason :: unassigned_reason
  u_status :: unassigned_status
  u_received_at :: time

datatype audit_action =
    DealCreated string string
  | InvoiceLocked string string rat
  | MessageRoutedToUnassigned unassigned
  | PaymentVerified string string rat string

datatype integrity_error =
    DealNotFound string
  | LockedInvoiceOverwrite string "string option" bool
  | NoReceivingAccount string
  | ProhibitedAccount account
  | InvoiceNotFound string
  | DealForInvoiceNotFound string
  | CurrencyMismatch string string
  | AmountMismatch rat rat

record manager =
  m_profile :: operator_profile
  m_deals :: "string \<rightharpoonup> deal"
  m_invoices :: "string \<rightharpoonup> invoice"
  m_unassigned :: "unassigned list"
  m_audit :: "(time \<times> audit_action) list"

definition new_manager :: "operator_profile \<Rightarrow> manager" where
  "new_manager p = \<lparr>m_profile = p, m_deals = Map.empty, m_invoices = Map.empty,
     m_unassigned = [], m_audit = []\<rparr>"

definition logAudit :: "time \<Rightarrow> audit_action \<Rightarrow> manager \<Rightarrow> manager" where
  "logAudit now a m = m\<lparr>m_audit := m_audit m @ [(now, a)]\<rparr>"

section \<open>Operations\<close>

subsection \<open>The payment details of an invoice\<close>

text \<open>\<open>JSON.stringify\<close> of an account.\<close>

definition json_account :: "account \<Rightarrow> string" where
  "json_account a = jprint (JObj (map (\<lambda>(k, v). (k, JStr v)) a))"

definition prohibitedSources :: "string list" where
  "prohibitedSources = [''edp'', ''revolut / ldn corporations ltd'', ''barclays (unverified)'']"

definition prohibited_account :: "account \<Rightarrow> bool" where
  "prohibited_account a \<longleftrightarrow> list_ex (\<lambda>p. includes_str p (lowercase (json_account a))) prohibitedSources"

definition getOperatorPaymentDetails :: "manager \<Rightarrow> string \<Rightarrow> integrity_error + account" where
  "getOperatorPaymentDetails m currency =
     (case receiving_accounts (m_profile m) currency of
        None \<Rightarrow> Inl (NoReceivingAccount currency)
      | Some account \<Rightarrow>
          if prohibited_account account then Inl (ProhibitedAccount account) else Inr account)"

subsection \<open>Deals and invoices\<close>

definition createDeal ::
  "time \<Rightarrow> string \<Rightarrow> string \<Rightarrow> string \<Rightarrow> luxury_item \<Rightarrow> rat \<Rightarrow> rat \<Rightarrow> string \<Rightarrow> manager \<Rightarrow> manager" where
  "createDeal now dealId clientId clientName item sellPrice costPrice currency m =
     (let d = \<lparr>d_deal_id = dealId, d_client_id = clientId, d_client_name = clientName,
               d_item = item, d_sell_price = sellPrice, d_cost_price = costPrice,
               d_currency = currency, d_state = Confirmed, d_is_locked = False,
               d_invoice_id = None, d_locked_at = None\<rparr>
      in logAudit now (DealCreated dealId clientName) (m\<lparr>m_deals := (m_deals m)(dealId \<mapsto> d)\<rparr>))"

definition generateAndLockInvoice ::
  "time \<Rightarrow> string \<Rightarrow> string \<Rightarrow> manager \<Rightarrow> integrity_error + (manager \<times> invoice)" where
  "generateAndLockInvoice now dealId invoiceId m =
     (case m_deals m dealId of
        None \<Rightarrow> Inl (DealNotFound dealId)
      | Some d \<Rightarrow>
          if d_is_locked d then Inl (LockedInvoiceOverwrite dealId (d_invoice_id d) False)
          else (case getOperatorPaymentDetails m (d_currency d) of
              Inl e \<Rightarrow> Inl e
            | Inr details \<Rightarrow>
                let iv = \<lparr>i_invoice_id = invoiceId, i_deal_id = dealId,
                      i_client_id = d_client_id d, i_client_name = d_client_name d,
                      i_item = d_item d, i_amount = d_sell_price d, i_currency = d_currency d,
                      i_payment_details = details, i_status = LockedPaymentPending,
                      i_created_at = now, i_is_locked = True,
                      i_payment_verified_at = None, i_payment_reference = None\<rparr>;
                    d' = d\<lparr>d_invoice_id := Some invoiceId, d_is_locked := True,
                           d_state := PaymentPending, d_locked_at := Some now\<rparr>
                in Inr (logAudit now (InvoiceLocked dealId invoiceId (d_sell_price d))
                          (m\<lparr>m_invoices := (m_invoices m)(invoiceId \<mapsto> iv),
                             m_deals := (m_deals m)(dealId \<mapsto> d')\<rparr>), iv)))"

definition updateDealOrInvoice ::
  "string \<Rightarrow> luxury_item option \<Rightarrow> rat option \<Rightarrow> bool \<Rightarrow> manager \<Rightarrow> integrity_error + manager" where
  "updateDealOrInvoice dealId newItem newPrice isOperatorExplicit m =
     (case m_deals m dealId of
        None \<Rightarrow> Inl (DealNotFound dealId)
      | Some d \<Rightarrow>
          if d_is_locked d then
            (if \<not> isOperatorExplicit then Inl (LockedInvoiceOverwrite dealId (d_invoice_id d) False)
             else Inl (LockedInvoiceOverwrite dealId (d_invoice_id d) True))
          else
            let d1 = (case newItem of None \<Rightarrow> d | Some i \<Rightarrow> d\<lparr>d_item := i\<rparr>);
                d2 = (case newPrice of None \<Rightarrow> d1 | Some p \<Rightarrow> d1\<lparr>d_sell_price := p\<rparr>)
            in Inr (m\<lparr>m_deals := (m_deals m)(dealId \<mapsto> d2)\<rparr>))"

subsection \<open>Messages\<close>

record incoming =
  im_deal_id :: "string option"
  im_text :: string
  im_sender :: string
  im_extracted_data :: "string option"

datatype routed = Attached string | Unassigned unassigned

text \<open>The item words of the filter on messages for a locked deal.\<close>

definition different_item :: "string \<Rightarrow> bool" where
  "different_item text =
     (let t = lowercase text in
      (includes_str ''tote'' t \<or> includes_str ''chanel'' t \<or> includes_str ''flap'' t) \<and>
      \<not> (includes_str ''birkin'' t \<or> includes_str ''b25'' t \<or> includes_str ''b30'' t \<or> includes_str ''b35'' t))"

text \<open>An empty \<open>deal_id\<close> is falsy, as an absent one.\<close>

definition matched_deal :: "manager \<Rightarrow> incoming \<Rightarrow> deal option" where
  "matched_deal m msg =
     (case im_deal_id msg of None \<Rightarrow> None
      | Some k \<Rightarrow> if k = [] then None else m_deals m k)"

definition route_unassigned ::
  "time \<Rightarrow> string \<Rightarrow> incoming \<Rightarrow> unassigned_reason \<Rightarrow> manager \<Rightarrow> manager \<times> routed" where
  "route_unassigned now uid msg reason m =
     (let r = \<lparr>u_unassigned_id = uid, u_sender = im_sender msg, u_text = im_text msg,
               u_extracted_data = im_extracted_data msg, u_reason = reason,
               u_status = PendingOperatorConfirmation, u_received_at = now\<rparr>
      in (logAudit now (MessageRoutedToUnassigned r) (m\<lparr>m_unassigned := m_unassigned m @ [r]\<rparr>),
          Unassigned r))"

definition processIncomingMessage :: "time \<Rightarrow> string \<Rightarrow> incoming \<Rightarrow> manager \<Rightarrow> manager \<times> routed" where
  "processIncomingMessage now uid msg m =
     (case matched_deal m msg of
        None \<Rightarrow> route_unassigned now uid msg NotClearlyAssigned m
      | Some d \<Rightarrow>
          if d_is_locked d \<and> different_item (im_text msg)
          then route_unassigned now uid msg (DifferentItemWhileLocked (d_deal_id d)) m
          else (m, Attached (the (im_deal_id msg))))"

subsection \<open>Payments\<close>

record payment_doc =
  p_paid_amount :: rat
  p_currency :: string
  p_beneficiary_name :: "string option"
  p_reference :: "string option"

record verified_payment =
  v_invoice_id :: string
  v_deal_id :: string
  v_amount :: rat
  v_currency :: string
  v_item_secured :: luxury_item

definition verifyPayment ::
  "time \<Rightarrow> string \<Rightarrow> payment_doc \<Rightarrow> manager \<Rightarrow> integrity_error + (manager \<times> verified_payment)" where
  "verifyPayment now invoiceId doc m =
     (case m_invoices m invoiceId of
        None \<Rightarrow> Inl (InvoiceNotFound invoiceId)
      | Some iv \<Rightarrow>
         (case m_deals m (i_deal_id iv) of
            None \<Rightarrow> Inl (DealForInvoiceNotFound invoiceId)
          | Some d \<Rightarrow>
              if p_currency doc \<noteq> i_currency iv
              then Inl (CurrencyMismatch (i_currency iv) (p_currency doc))
              else if \<bar>p_paid_amount doc - i_amount iv\<bar> > 1 / 100
              then Inl (AmountMismatch (i_amount iv) (p_paid_amount doc))
              else
                let iv' = iv\<lparr>i_status := InvoicePaid, i_payment_verified_at := Some now,
                               i_payment_reference := p_reference doc\<rparr>
                in Inr (logAudit now
                          (PaymentVerified invoiceId (d_deal_id d) (p_paid_amount doc) (p_currency doc))
                          (m\<lparr>m_deals := (m_deals m)(i_deal_id iv \<mapsto> d\<lparr>d_state := DealPaid\<rparr>),
                             m_invoices := (m_invoices m)(invoiceId \<mapsto> iv')\<rparr>),
                        \<lparr>v_invoice_id = invoiceId, v_deal_id = d_deal_id d,
                         v_amount = p_paid_amount doc, v_currency = p_currency doc,
                         v_item_secured = i_item iv\<rparr>)))"

section \<open>The manager as a machine\<close>

text \<open>The public operations as events. An operation that throws leaves the manager as it was.\<close>

datatype op =
    CreateDeal time string string string luxury_item rat rat string
  | GenerateInvoice time string string
  | UpdateDeal string "luxury_item option" "rat option" bool
  | Incoming time string incoming
  | VerifyPayment time string payment_doc

fun step :: "manager \<Rightarrow> op \<Rightarrow> manager" where
  "step m (CreateDeal now k c n i s p cur) = createDeal now k c n i s p cur m"
| "step m (GenerateInvoice now k j) =
     (case generateAndLockInvoice now k j m of Inl _ \<Rightarrow> m | Inr r \<Rightarrow> fst r)"
| "step m (UpdateDeal k i p x) = (case updateDealOrInvoice k i p x m of Inl _ \<Rightarrow> m | Inr m' \<Rightarrow> m')"
| "step m (Incoming now u msg) = fst (processIncomingMessage now u msg m)"
| "step m (VerifyPayment now j doc) =
     (case verifyPayment now j doc m of Inl _ \<Rightarrow> m | Inr r \<Rightarrow> fst r)"

text \<open>
  What every reachable manager satisfies: entries are stored under their own ids; a deal
  is locked exactly when it has left \<open>confirmed\<close>, and then names an invoice that is in
  the ledger; every invoice is locked and carries the operator's own account for its
  currency, which passed the check of prohibited sources; a paid invoice has a matching
  verified payment in the audit log.
\<close>

definition own_account :: "operator_profile \<Rightarrow> invoice \<Rightarrow> bool" where
  "own_account p iv \<longleftrightarrow> receiving_accounts p (i_currency iv) = Some (i_payment_details iv)
     \<and> \<not> prohibited_account (i_payment_details iv)"

definition payment_evidence :: "manager \<Rightarrow> string \<Rightarrow> invoice \<Rightarrow> bool" where
  "payment_evidence m k iv \<longleftrightarrow>
     (\<exists>t amt. (t, PaymentVerified k (i_deal_id iv) amt (i_currency iv)) \<in> set (m_audit m)
        \<and> \<bar>amt - i_amount iv\<bar> \<le> 1 / 100)"

definition deal_ok :: "manager \<Rightarrow> string \<Rightarrow> deal \<Rightarrow> bool" where
  "deal_ok m k d \<longleftrightarrow> d_deal_id d = k \<and> (d_is_locked d \<longrightarrow> d_state d \<noteq> Confirmed
     \<and> (\<exists>j. d_invoice_id d = Some j \<and> j \<in> dom (m_invoices m)))"

definition invoice_ok :: "manager \<Rightarrow> string \<Rightarrow> invoice \<Rightarrow> bool" where
  "invoice_ok m k iv \<longleftrightarrow> i_invoice_id iv = k \<and> i_is_locked iv \<and> i_status iv \<noteq> Voided
     \<and> own_account (m_profile m) iv \<and> (i_status iv = InvoicePaid \<longrightarrow> payment_evidence m k iv)"

definition ledger_inv :: "manager \<Rightarrow> bool" where
  "ledger_inv m \<longleftrightarrow> (\<forall>k d. m_deals m k = Some d \<longrightarrow> deal_ok m k d)
     \<and> (\<forall>k iv. m_invoices m k = Some iv \<longrightarrow> invoice_ok m k iv)"

section \<open>Lemmas\<close>

lemmas ledger_defs = ledger_inv_def deal_ok_def invoice_ok_def own_account_def payment_evidence_def

lemma logAudit_simps [simp]:
  "m_profile (logAudit t a m) = m_profile m" "m_deals (logAudit t a m) = m_deals m"
  "m_invoices (logAudit t a m) = m_invoices m" "m_unassigned (logAudit t a m) = m_unassigned m"
  "m_audit (logAudit t a m) = m_audit m @ [(t, a)]"
  by (simp_all add: logAudit_def)

lemma getOperatorPaymentDetails_Inr:
  "getOperatorPaymentDetails m cur = Inr a \<longleftrightarrow>
     receiving_accounts (m_profile m) cur = Some a \<and> \<not> prohibited_account a"
  by (auto simp: getOperatorPaymentDetails_def split: option.splits if_splits)

lemma deal_ok_mono:
  "deal_ok m k d \<Longrightarrow> dom (m_invoices m) \<subseteq> dom (m_invoices m') \<Longrightarrow> deal_ok m' k d"
  unfolding deal_ok_def by (blast dest: subsetD)

lemma ledger_inv_new: "ledger_inv (new_manager p)"
  by (simp add: ledger_inv_def new_manager_def)

lemma ledger_inv_createDeal [inv_intros]:
  "ledger_inv m \<Longrightarrow> ledger_inv (createDeal now k c n i s p cur m)"
  by (auto simp: ledger_defs createDeal_def Let_def)

lemma generateAndLockInvoice_Inr:
  assumes "generateAndLockInvoice now k j m = Inr (m', iv)"
  obtains d where "m_deals m k = Some d" "\<not> d_is_locked d" "own_account (m_profile m) iv"
    "m_profile m' = m_profile m"
    "iv = \<lparr>i_invoice_id = j, i_deal_id = k, i_client_id = d_client_id d,
           i_client_name = d_client_name d, i_item = d_item d, i_amount = d_sell_price d,
           i_currency = d_currency d, i_payment_details = i_payment_details iv,
           i_status = LockedPaymentPending, i_created_at = now, i_is_locked = True,
           i_payment_verified_at = None, i_payment_reference = None\<rparr>"
    "m_invoices m' = (m_invoices m)(j \<mapsto> iv)"
    "m_deals m' = (m_deals m)(k \<mapsto> d\<lparr>d_invoice_id := Some j, d_is_locked := True,
        d_state := PaymentPending, d_locked_at := Some now\<rparr>)"
    "m_audit m' = m_audit m @ [(now, InvoiceLocked k j (d_sell_price d))]"
  using assms that
  by (auto simp: generateAndLockInvoice_def Let_def own_account_def getOperatorPaymentDetails_Inr
      split: option.splits if_splits sum.splits)

lemma ledger_inv_generate [inv_intros]:
  assumes inv: "ledger_inv m" and g: "generateAndLockInvoice now k j m = Inr (m', iv)"
  shows "ledger_inv m'"
proof -
  from g obtain d where d: "m_deals m k = Some d" "own_account (m_profile m) iv"
    and s: "m_profile m' = m_profile m" "m_invoices m' = (m_invoices m)(j \<mapsto> iv)"
      "m_deals m' = (m_deals m)(k \<mapsto> d\<lparr>d_invoice_id := Some j, d_is_locked := True,
        d_state := PaymentPending, d_locked_at := Some now\<rparr>)"
      "m_audit m' = m_audit m @ [(now, InvoiceLocked k j (d_sell_price d))]"
    and i: "i_invoice_id iv = j" "i_is_locked iv" "i_status iv = LockedPaymentPending"
    by (elim generateAndLockInvoice_Inr) (metis invoice.select_convs(1,9,11))
  have dom: "dom (m_invoices m) \<subseteq> dom (m_invoices m')" by (auto simp: s)
  have "deal_ok m k d" using inv d by (simp add: ledger_inv_def)
  then have "deal_ok m' k (d\<lparr>d_invoice_id := Some j, d_is_locked := True,
        d_state := PaymentPending, d_locked_at := Some now\<rparr>)"
    by (simp add: s deal_ok_def)
  then have "\<forall>k' d'. m_deals m' k' = Some d' \<longrightarrow> deal_ok m' k' d'"
    using inv deal_ok_mono [OF _ dom] by (simp add: s(3) ledger_inv_def)
  moreover have "\<forall>k' iv'. m_invoices m' k' = Some iv' \<longrightarrow> invoice_ok m' k' iv'"
    using inv d i by (auto simp: s ledger_inv_def invoice_ok_def payment_evidence_def)
  ultimately show ?thesis by (simp add: ledger_inv_def)
qed

lemma ledger_inv_update [inv_intros]:
  "ledger_inv m \<Longrightarrow> updateDealOrInvoice k i p x m = Inr m' \<Longrightarrow> ledger_inv m'"
  by (auto simp: updateDealOrInvoice_def Let_def ledger_defs split: option.splits if_splits)

lemma processIncomingMessage_frame:
  "m_deals (fst (processIncomingMessage now u msg m)) = m_deals m"
  "m_invoices (fst (processIncomingMessage now u msg m)) = m_invoices m"
  "m_profile (fst (processIncomingMessage now u msg m)) = m_profile m"
  "set (m_audit m) \<subseteq> set (m_audit (fst (processIncomingMessage now u msg m)))"
  by (auto simp: processIncomingMessage_def route_unassigned_def Let_def split: option.splits)

lemma ledger_inv_incoming [inv_intros]:
  "ledger_inv m \<Longrightarrow> ledger_inv (fst (processIncomingMessage now u msg m))"
  using processIncomingMessage_frame [where now = now and u = u and msg = msg and m = m]
  by (simp add: ledger_defs) blast

lemma verifyPayment_Inr:
  assumes "verifyPayment now j doc m = Inr (m', v)"
  obtains iv d where "m_invoices m j = Some iv" "m_deals m (i_deal_id iv) = Some d"
    "p_currency doc = i_currency iv" "\<bar>p_paid_amount doc - i_amount iv\<bar> \<le> 1 / 100"
    "m_profile m' = m_profile m"
    "m_deals m' = (m_deals m)(i_deal_id iv \<mapsto> d\<lparr>d_state := DealPaid\<rparr>)"
    "m_invoices m' = (m_invoices m)(j \<mapsto> iv\<lparr>i_status := InvoicePaid,
        i_payment_verified_at := Some now, i_payment_reference := p_reference doc\<rparr>)"
    "m_audit m' = m_audit m @ [(now, PaymentVerified j (d_deal_id d) (p_paid_amount doc) (p_currency doc))]"
    "v_item_secured v = i_item iv"
  using assms that
  by (auto simp: verifyPayment_def Let_def split: option.splits if_splits)

lemma ledger_inv_verify [inv_intros]:
  assumes inv: "ledger_inv m" and v: "verifyPayment now j doc m = Inr (m', v)"
  shows "ledger_inv m'"
proof -
  from v obtain iv d where h: "m_invoices m j = Some iv" "m_deals m (i_deal_id iv) = Some d"
    "p_currency doc = i_currency iv" "\<bar>p_paid_amount doc - i_amount iv\<bar> \<le> 1 / 100"
    and s: "m_profile m' = m_profile m"
    "m_deals m' = (m_deals m)(i_deal_id iv \<mapsto> d\<lparr>d_state := DealPaid\<rparr>)"
    "m_invoices m' = (m_invoices m)(j \<mapsto> iv\<lparr>i_status := InvoicePaid,
        i_payment_verified_at := Some now, i_payment_reference := p_reference doc\<rparr>)"
    "m_audit m' = m_audit m @ [(now, PaymentVerified j (d_deal_id d) (p_paid_amount doc) (p_currency doc))]"
    by (elim verifyPayment_Inr) blast
  have d: "deal_ok m (i_deal_id iv) d" and iv: "invoice_ok m j iv"
    using inv h by (simp_all add: ledger_inv_def)
  have dom: "dom (m_invoices m) \<subseteq> dom (m_invoices m')" by (auto simp: s)
  have "deal_ok m' (i_deal_id iv) (d\<lparr>d_state := DealPaid\<rparr>)"
    using deal_ok_mono [OF d dom] by (auto simp: deal_ok_def)
  then have "\<forall>k' d'. m_deals m' k' = Some d' \<longrightarrow> deal_ok m' k' d'"
    using inv deal_ok_mono [OF _ dom] by (simp add: s(2) ledger_inv_def)
  moreover have "payment_evidence m' j (iv\<lparr>i_status := InvoicePaid,
      i_payment_verified_at := Some now, i_payment_reference := p_reference doc\<rparr>)"
    using d h by (auto simp: payment_evidence_def s deal_ok_def)
  then have "\<forall>k' iv'. m_invoices m' k' = Some iv' \<longrightarrow> invoice_ok m' k' iv'"
    using inv iv by (auto simp: s ledger_inv_def invoice_ok_def own_account_def payment_evidence_def)
  ultimately show ?thesis by (simp add: ledger_inv_def)
qed

lemma ledger_inv_step: "ledger_inv m \<Longrightarrow> ledger_inv (step m e)"
  by (cases e) (auto intro: inv_intros split: sum.splits)

interpretation ledger: machine step ledger_inv
  by unfold_locales (rule ledger_inv_step)

lemma m_profile_step [simp]: "m_profile (step m e) = m_profile m"
  by (cases e)
    (auto simp: createDeal_def Let_def processIncomingMessage_frame updateDealOrInvoice_def
      split: sum.splits option.splits if_splits elim: generateAndLockInvoice_Inr verifyPayment_Inr)

lemma m_profile_run [simp]: "m_profile (foldl step m es) = m_profile m"
  by (induction es arbitrary: m) simp_all

text \<open>The terms of a sale that a locked invoice fixes.\<close>

definition invoice_terms :: "invoice \<Rightarrow> string \<times> string \<times> string \<times> luxury_item \<times> rat \<times> string \<times> account" where
  "invoice_terms iv = (i_deal_id iv, i_client_id iv, i_client_name iv, i_item iv, i_amount iv,
     i_currency iv, i_payment_details iv)"

fun issues_invoice :: "string \<Rightarrow> op \<Rightarrow> bool" where
  "issues_invoice j (GenerateInvoice now k j') = (j' = j)"
| "issues_invoice j e = False"

fun creates_deal :: "string \<Rightarrow> op \<Rightarrow> bool" where
  "creates_deal k (CreateDeal now k' c n i s p cur) = (k' = k)"
| "creates_deal k e = False"

lemma step_invoice_terms:
  assumes "m_invoices m j = Some iv" "\<not> issues_invoice j e"
  shows "\<exists>iv'. m_invoices (step m e) j = Some iv' \<and> invoice_terms iv' = invoice_terms iv"
proof (cases e)
  case (GenerateInvoice now k j')
  with assms show ?thesis by (auto split: sum.splits elim: generateAndLockInvoice_Inr)
next
  case (VerifyPayment now j' doc)
  with assms show ?thesis
    by (auto simp: invoice_terms_def split: sum.splits elim!: verifyPayment_Inr)
qed (use assms in \<open>auto simp: createDeal_def Let_def processIncomingMessage_frame
    updateDealOrInvoice_def split: sum.splits option.splits if_splits\<close>)

lemma step_locked_deal:
  assumes "m_deals m k = Some d" "d_is_locked d" "\<not> creates_deal k e"
  shows "\<exists>d'. m_deals (step m e) k = Some d' \<and> d_is_locked d'
    \<and> d_item d' = d_item d \<and> d_sell_price d' = d_sell_price d \<and> d_invoice_id d' = d_invoice_id d"
proof (cases e)
  case (GenerateInvoice now k' j')
  with assms show ?thesis by (auto split: sum.splits elim!: generateAndLockInvoice_Inr)
next
  case (VerifyPayment now j' doc)
  with assms show ?thesis by (auto split: sum.splits elim!: verifyPayment_Inr)
qed (use assms in \<open>auto simp: createDeal_def Let_def processIncomingMessage_frame
    updateDealOrInvoice_def split: sum.splits option.splits if_splits\<close>)

section \<open>A sample ledger\<close>

text \<open>One operator, one deal, its invoice and its payment: the input of the witnesses.\<close>

definition sample_account :: account where
  "sample_account = [(''bank_name'', ''Bank''), (''account_name'', ''Operator Ltd'')]"

definition sample_profile :: operator_profile where
  "sample_profile = \<lparr>operator_id = ''op'', operator_name = ''Operator'',
     receiving_accounts = [''GBP'' \<mapsto> sample_account]\<rparr>"

definition sample_item :: luxury_item where
  "sample_item = \<lparr>it_brand = ''Hermes'', it_model = ''Birkin'', it_size = None, it_colour = None,
     it_material = None, it_hardware = None, it_condition = None, it_sourcer = None\<rparr>"

definition sample_invoice :: invoice where
  "sample_invoice = \<lparr>i_invoice_id = ''I1'', i_deal_id = ''D1'', i_client_id = ''c'',
     i_client_name = ''Client'', i_item = sample_item, i_amount = 100, i_currency = ''GBP'',
     i_payment_details = sample_account, i_status = LockedPaymentPending, i_created_at = 2,
     i_is_locked = True, i_payment_verified_at = None, i_payment_reference = None\<rparr>"

definition sample_doc :: payment_doc where
  "sample_doc = \<lparr>p_paid_amount = 100, p_currency = ''GBP'', p_beneficiary_name = None,
     p_reference = Some ''ref''\<rparr>"

definition sample_ops :: "op list" where
  "sample_ops = [CreateDeal 1 ''D1'' ''c'' ''Client'' sample_item 100 80 ''GBP'',
     GenerateInvoice 2 ''D1'' ''I1'']"

definition sample_manager :: manager where
  "sample_manager = foldl step (new_manager sample_profile) sample_ops"

lemmas sample_defs = sample_account_def sample_profile_def sample_item_def sample_invoice_def
  sample_doc_def sample_ops_def sample_manager_def

lemma sample_account_allowed: "\<not> prohibited_account sample_account"
  by code_simp

lemma sample_run:
  "m_deals sample_manager ''D1'' = Some \<lparr>d_deal_id = ''D1'', d_client_id = ''c'',
     d_client_name = ''Client'', d_item = sample_item, d_sell_price = 100, d_cost_price = 80,
     d_currency = ''GBP'', d_state = PaymentPending, d_is_locked = True,
     d_invoice_id = Some ''I1'', d_locked_at = Some 2\<rparr>"
  "m_invoices sample_manager ''I1'' = Some sample_invoice"
  "m_profile sample_manager = sample_profile"
  using sample_account_allowed
  by (simp_all add: sample_manager_def sample_ops_def sample_profile_def sample_invoice_def
      new_manager_def createDeal_def generateAndLockInvoice_def getOperatorPaymentDetails_def
      Let_def)

section \<open>Properties\<close>



text \<open>C39: Once a deal is locked, no sequence of updates, invoice requests, chat messages or
  payments changes its item, price or invoice, and the terms of an invoice stay as issued,
  as long as nobody creates a deal or issues an invoice under the same id.\<close>

theorem locked_terms_are_stable:
  assumes "m_deals m k = Some d" "d_is_locked d" "m_invoices m j = Some iv"
    and "\<forall>e \<in> set es. \<not> creates_deal k e \<and> \<not> issues_invoice j e"
  shows "\<exists>d' iv'. m_deals (foldl step m es) k = Some d' \<and> d_is_locked d'
    \<and> d_item d' = d_item d \<and> d_sell_price d' = d_sell_price d \<and> d_invoice_id d' = d_invoice_id d
    \<and> m_invoices (foldl step m es) j = Some iv' \<and> invoice_terms iv' = invoice_terms iv"
  using assms
proof (induction es arbitrary: m d iv)
  case (Cons e es)
  obtain d1 where d1: "m_deals (step m e) k = Some d1" "d_is_locked d1" "d_item d1 = d_item d"
    "d_sell_price d1 = d_sell_price d" "d_invoice_id d1 = d_invoice_id d"
    using step_locked_deal [of m k d e] Cons.prems by auto
  obtain iv1 where iv1: "m_invoices (step m e) j = Some iv1" "invoice_terms iv1 = invoice_terms iv"
    using step_invoice_terms [of m j iv e] Cons.prems by auto
  show ?case using Cons.IH [OF d1(1,2) iv1(1)] Cons.prems(4) d1 iv1 by simp
qed simp

theorem locked_terms_are_stable_witness:
  "\<exists>d' iv'. m_deals (foldl step sample_manager [UpdateDeal ''D1'' None (Some 1) True]) ''D1'' = Some d'
    \<and> d_is_locked d' \<and> d_item d' = sample_item \<and> d_sell_price d' = 100 \<and> d_invoice_id d' = Some ''I1''
    \<and> m_invoices (foldl step sample_manager [UpdateDeal ''D1'' None (Some 1) True]) ''I1'' = Some iv'
    \<and> invoice_terms iv' = invoice_terms sample_invoice"
  using locked_terms_are_stable
    [OF sample_run(1) _ sample_run(2), where es = "[UpdateDeal ''D1'' None (Some 1) True]"] by simp

text \<open>A payment is verified exactly when the invoice and its deal are in the ledger and the
  payment is in the invoice's currency within a cent of its amount; every other attempt is an
  error. The result names the item and the deal of the stored invoice, whatever the document says.\<close>

theorem verifyPayment_iff:
  "verifyPayment now j doc m = Inr (m', v) \<longleftrightarrow>
    (\<exists>iv d. m_invoices m j = Some iv \<and> m_deals m (i_deal_id iv) = Some d
      \<and> p_currency doc = i_currency iv \<and> \<bar>p_paid_amount doc - i_amount iv\<bar> \<le> 1 / 100
      \<and> m_invoices m' = (m_invoices m)(j \<mapsto> iv\<lparr>i_status := InvoicePaid,
           i_payment_verified_at := Some now, i_payment_reference := p_reference doc\<rparr>)
      \<and> m_deals m' = (m_deals m)(i_deal_id iv \<mapsto> d\<lparr>d_state := DealPaid\<rparr>)
      \<and> m_profile m' = m_profile m \<and> m_unassigned m' = m_unassigned m
      \<and> m_audit m' = m_audit m @
           [(now, PaymentVerified j (d_deal_id d) (p_paid_amount doc) (p_currency doc))]
      \<and> v = \<lparr>v_invoice_id = j, v_deal_id = d_deal_id d, v_amount = p_paid_amount doc,
             v_currency = p_currency doc, v_item_secured = i_item iv\<rparr>)"
  by (auto simp: verifyPayment_def Let_def logAudit_def split: option.splits)

text \<open>The lock does not survive a deal id that is used twice: creating a deal under the id of a
  locked deal and issuing an invoice under the id of its invoice succeeds, and replaces the
  locked price in both records.\<close>

theorem reused_ids_overwrite_locked_records:
  "\<exists>es d iv. m_deals sample_manager ''D1'' \<noteq> None \<and> m_invoices sample_manager ''I1'' = Some sample_invoice
    \<and> es = [CreateDeal 3 ''D1'' ''c'' ''Client'' sample_item 1 80 ''GBP'', GenerateInvoice 4 ''D1'' ''I1'']
    \<and> m_deals (foldl step sample_manager es) ''D1'' = Some d \<and> d_sell_price d = 1
    \<and> m_invoices (foldl step sample_manager es) ''I1'' = Some iv
    \<and> i_amount sample_invoice = 100 \<and> i_amount iv = 1"
  using sample_account_allowed sample_run
  by (simp add: createDeal_def generateAndLockInvoice_def getOperatorPaymentDetails_def
      sample_profile_def sample_invoice_def Let_def)

end
