(* ===== verification/Crypto.thy ===== *)
theory Crypto
  imports Prelude "HOL-Library.Word"
begin

text \<open>
  \<open>src/crypto.ts\<close> and \<open>src/security/adminAuth.ts\<close>: the AES-256-GCM envelope of the secrets at
  rest, and the admin credential of the management API. The cipher and the hash are node's
  and are parameters: \<open>seal key iv data\<close> gives the ciphertext and the tag, \<open>unseal\<close> the data or
  \<open>None\<close> where \<open>final()\<close> throws, \<open>sha\<close> the SHA-256 digest. The random nonce is an argument.
\<close>

type_synonym byte = "8 word"
type_synonym bytes = "byte list"
type_synonym seal_fn = "bytes \<Rightarrow> bytes \<Rightarrow> bytes \<Rightarrow> bytes \<times> bytes"
type_synonym unseal_fn = "bytes \<Rightarrow> bytes \<Rightarrow> bytes \<Rightarrow> bytes \<Rightarrow> bytes option"

section \<open>UTF-8\<close>

text \<open>Code units up to 127 take one byte, those from 128 to 255 two.\<close>

definition utf8_char :: "char \<Rightarrow> bytes" where
  "utf8_char c =
     (let n = of_char c :: nat in
      if n < 128 then [of_nat n] else [of_nat (192 + n div 64), of_nat (128 + n mod 64)])"

definition utf8_encode :: "string \<Rightarrow> bytes" where
  "utf8_encode s = concat (map utf8_char s)"

text \<open>Decoding; \<open>None\<close> is a text outside the modelled code units (or a malformed one).\<close>

fun utf8_decode :: "bytes \<Rightarrow> string option" where
  "utf8_decode [] = Some []"
| "utf8_decode [b] = (if unat b < 128 then Some [char_of (unat b)] else None)"
| "utf8_decode (b # c # bs) =
     (if unat b < 128 then map_option ((#) (char_of (unat b))) (utf8_decode (c # bs))
      else if (unat b = 194 \<or> unat b = 195) \<and> 128 \<le> unat c \<and> unat c < 192
      then map_option ((#) (char_of ((unat b - 192) * 64 + (unat c - 128)))) (utf8_decode bs)
      else None)"

section \<open>The envelope\<close>

definition IV_LEN :: nat where "IV_LEN = 12"
definition TAG_LEN :: nat where "TAG_LEN = 16"

datatype crypto_error = EnvelopeTooShort | AuthenticationFailed

definition encrypt :: "seal_fn \<Rightarrow> bytes \<Rightarrow> bytes \<Rightarrow> bytes \<Rightarrow> bytes" where
  "encrypt seal iv plaintext key =
     (let (ct, tag) = seal key iv plaintext in iv @ tag @ ct)"

definition encrypt_string :: "seal_fn \<Rightarrow> bytes \<Rightarrow> string \<Rightarrow> bytes \<Rightarrow> bytes" where
  "encrypt_string seal iv plaintext key = encrypt seal iv (utf8_encode plaintext) key"

definition decrypt :: "unseal_fn \<Rightarrow> bytes \<Rightarrow> bytes \<Rightarrow> crypto_error + bytes" where
  "decrypt unseal envelope key =
     (if length envelope < IV_LEN + TAG_LEN then Inl EnvelopeTooShort
      else
        let iv = take IV_LEN envelope;
            tag = take TAG_LEN (drop IV_LEN envelope);
            ct = drop (IV_LEN + TAG_LEN) envelope
        in (case unseal key iv tag ct of None \<Rightarrow> Inl AuthenticationFailed | Some d \<Rightarrow> Inr d))"

text \<open>The text of a decrypted envelope; \<open>None\<close> as for \<open>utf8_decode\<close>.\<close>

definition decryptToString :: "unseal_fn \<Rightarrow> bytes \<Rightarrow> bytes \<Rightarrow> crypto_error + string option" where
  "decryptToString unseal envelope key =
     (case decrypt unseal envelope key of Inl e \<Rightarrow> Inl e | Inr d \<Rightarrow> Inr (utf8_decode d))"

section \<open>Hashes\<close>

definition constantTimeEqual :: "(bytes \<Rightarrow> bytes) \<Rightarrow> string \<Rightarrow> string \<Rightarrow> bool" where
  "constantTimeEqual sha a b \<longleftrightarrow> sha (utf8_encode a) = sha (utf8_encode b)"

definition hex_nibble :: "nat \<Rightarrow> char" where
  "hex_nibble n = (if n < 10 then char_of (48 + n) else char_of (87 + n))"

definition hex :: "bytes \<Rightarrow> string" where
  "hex bs = concat (map (\<lambda>b. [hex_nibble (unat b div 16), hex_nibble (unat b mod 16)]) bs)"

definition sha256Hex :: "(bytes \<Rightarrow> bytes) \<Rightarrow> string \<Rightarrow> string" where
  "sha256Hex sha s = hex (sha (utf8_encode s))"

section \<open>The admin credential\<close>

text \<open>The two headers of a request that the check reads.\<close>

record auth_headers =
  authorization :: "string option"
  gateway_admin_token :: "string option"

text \<open>\<open>/^Bearer\s+(.+)$/i\<close> on a trimmed text: the group, or \<open>None\<close>. The dot refuses line ends.\<close>

definition bearer_match :: "string \<Rightarrow> string option" where
  "bearer_match s =
     (let rest = drop 6 s; tok = dropWhile is_ws rest in
      if lowercase (take 6 s) = ''bearer'' \<and> rest \<noteq> [] \<and> is_ws (hd rest) \<and> tok \<noteq> []
         \<and> CHR 10 \<notin> set tok \<and> CHR 13 \<notin> set tok
      then Some tok else None)"

definition presentedToken :: "auth_headers \<Rightarrow> string option" where
  "presentedToken req =
     (let h = (case gateway_admin_token req of Some h \<Rightarrow> if h \<noteq> [] then Some h else None
               | None \<Rightarrow> None)
      in case authorization req of
           None \<Rightarrow> h
         | Some a \<Rightarrow> if a = [] then h
                     else (case bearer_match (trim a) of Some t \<Rightarrow> Some t | None \<Rightarrow> h))"

definition isAuthorized :: "(bytes \<Rightarrow> bytes) \<Rightarrow> auth_headers \<Rightarrow> string \<Rightarrow> bool" where
  "isAuthorized sha req adminToken =
     (case presentedToken req of None \<Rightarrow> False
      | Some presented \<Rightarrow> constantTimeEqual sha presented adminToken)"

section \<open>Lemmas\<close>

text \<open>What node documents of AES-256-GCM: a 16 byte tag, and decryption inverts encryption.\<close>

definition aead :: "seal_fn \<Rightarrow> unseal_fn \<Rightarrow> bool" where
  "aead seal unseal \<longleftrightarrow> (\<forall>key iv d. length (snd (seal key iv d)) = TAG_LEN
     \<and> unseal key iv (snd (seal key iv d)) (fst (seal key iv d)) = Some d)"

lemma unat_byte: "n < 256 \<Longrightarrow> unat (of_nat n :: byte) = n"
  by (simp add: unat_of_nat)

lemma char_of_of_char: "(char_of (of_char c :: nat) :: char) = c"
  by simp

lemma of_char_less: "(of_char c :: nat) < 256"
  using of_char_mod_256 [of c] by (metis mod_less_divisor zero_less_numeral)

lemma utf8_decode_char: "utf8_decode (utf8_char c @ bs) = map_option ((#) c) (utf8_decode bs)"
proof (cases "(of_char c :: nat) < 128")
  case True
  then have "unat (of_nat (of_char c) :: byte) = of_char c" "utf8_char c = [of_nat (of_char c)]"
    by (simp_all add: utf8_char_def unat_byte)
  with True show ?thesis by (cases bs) simp_all
next
  case False
  define n where "n = (of_char c :: nat)"
  have n: "128 \<le> n" "n < 256" using False of_char_less [of c] by (simp_all add: n_def)
  have b: "unat (of_nat (192 + n div 64) :: byte) = 192 + n div 64" using n by (intro unat_byte) auto
  have c: "unat (of_nat (128 + n mod 64) :: byte) = 128 + n mod 64" using n by (intro unat_byte) auto
  have "2 \<le> n div 64" using div_le_mono [OF n(1), of 64] by simp
  moreover have "n div 64 < 4" using n(2) by (simp add: div_less_iff_less_mult)
  ultimately have d: "n div 64 = 2 \<or> n div 64 = 3" by linarith
  have e: "(192 + n div 64 - 192) * 64 + (128 + n mod 64 - 128) = n" by simp
  have m: "128 + n mod 64 < 192" by simp
  define x y where "x = (of_nat (192 + n div 64) :: byte)" and "y = (of_nat (128 + n mod 64) :: byte)"
  have u: "utf8_char c = [x, y]"
    using n by (simp add: utf8_char_def n_def [symmetric] x_def y_def)
  have x: "unat x = 194 \<or> unat x = 195" "\<not> unat x < 128" using b d by (auto simp: x_def)
  have y: "128 \<le> unat y" "unat y < 192" using c m by (auto simp: y_def)
  have "(unat x - 192) * 64 + (unat y - 128) = n" using b c e by (simp add: x_def y_def)
  moreover have "char_of n = c" by (simp add: n_def)
  ultimately show ?thesis using x y by (simp add: u)
qed

lemma utf8_roundtrip [simp]: "utf8_decode (utf8_encode s) = Some s"
  by (induction s) (simp_all add: utf8_encode_def utf8_decode_char)

lemma utf8_encode_inj: "utf8_encode a = utf8_encode b \<Longrightarrow> a = b"
  using utf8_roundtrip by (metis option.inject)

lemma encrypt_length:
  "aead seal unseal \<Longrightarrow> length iv = IV_LEN \<Longrightarrow> IV_LEN + TAG_LEN \<le> length (encrypt seal iv d key)"
  by (auto simp: encrypt_def aead_def split: prod.splits) (metis le_add1 snd_conv)

lemma decrypt_encrypt:
  assumes "aead seal unseal" "length iv = IV_LEN"
  shows "decrypt unseal (encrypt seal iv d key) key = Inr d"
proof -
  obtain ct tag where s: "seal key iv d = (ct, tag)" by (cases "seal key iv d")
  then have "length tag = TAG_LEN" "unseal key iv tag ct = Some d"
    using assms(1) by (auto simp: aead_def) (metis snd_conv, metis fst_conv snd_conv)
  then show ?thesis using assms(2) by (simp add: decrypt_def encrypt_def s)
qed

lemma decryptToString_encrypt:
  "aead seal unseal \<Longrightarrow> length iv = IV_LEN \<Longrightarrow>
     decryptToString unseal (encrypt_string seal iv s key) key = Inr (Some s)"
  by (simp add: decryptToString_def encrypt_string_def decrypt_encrypt)

text \<open>A cipher of that kind, for the witnesses: the identity with a constant tag.\<close>

definition plain_seal :: seal_fn where
  "plain_seal key iv d = (d, replicate TAG_LEN 0)"

definition plain_unseal :: unseal_fn where
  "plain_unseal key iv tag ct = (if tag = replicate TAG_LEN 0 then Some ct else None)"

lemma plain_aead: "aead plain_seal plain_unseal"
  by (simp add: aead_def plain_seal_def plain_unseal_def)

section \<open>Properties\<close>

text \<open>A text encrypted under a key comes back from its envelope under that key, the envelope
  is never taken for a corrupt one, and an envelope of fewer than 28 bytes is refused without
  calling the cipher.\<close>

theorem envelope_roundtrip:
  assumes "aead seal unseal" "length iv = IV_LEN"
  shows "decryptToString unseal (encrypt_string seal iv s key) key = Inr (Some s)
    \<and> (length e < 28 \<longrightarrow> decrypt unseal e key = Inl EnvelopeTooShort)"
  using assms by (simp add: decryptToString_encrypt decrypt_def IV_LEN_def TAG_LEN_def)

theorem envelope_roundtrip_witness:
  "decryptToString plain_unseal (encrypt_string plain_seal (replicate 12 7) ''tok'' [1]) [1] = Inr (Some ''tok'')
    \<and> decrypt plain_unseal [1, 2] [1] = Inl EnvelopeTooShort"
  using envelope_roundtrip [OF plain_aead, of "replicate 12 7" "''tok''" "[1]" "[1, 2]"]
  by (simp add: IV_LEN_def)

text \<open>A request is authorized exactly when it presents the admin token, either as the
  bearer token of its Authorization header or, without one, in the gateway header, provided
  the hash does not collide on the presented token and the admin token.\<close>

theorem isAuthorized_iff_token:
  assumes "inj_on sha (utf8_encode ` (set_option (presentedToken req) \<union> {adminToken}))"
  shows "isAuthorized sha req adminToken \<longleftrightarrow> presentedToken req = Some adminToken"
  using assms by (auto simp: isAuthorized_def constantTimeEqual_def inj_on_def
      split: option.splits dest: utf8_encode_inj)

theorem isAuthorized_iff_token_witness:
  "isAuthorized id \<lparr>authorization = Some '' bearer  s3cret'', gateway_admin_token = None\<rparr> ''s3cret''
    \<and> \<not> isAuthorized id \<lparr>authorization = Some ''Basic x'', gateway_admin_token = Some ''other''\<rparr> ''s3cret''"
proof
  have "presentedToken \<lparr>authorization = Some '' bearer  s3cret'', gateway_admin_token = None\<rparr> = Some ''s3cret''"
    by code_simp
  then show "isAuthorized id \<lparr>authorization = Some '' bearer  s3cret'', gateway_admin_token = None\<rparr> ''s3cret''"
    by (subst isAuthorized_iff_token) simp_all
  have "presentedToken \<lparr>authorization = Some ''Basic x'', gateway_admin_token = Some ''other''\<rparr> = Some ''other''"
    by code_simp
  then show "\<not> isAuthorized id \<lparr>authorization = Some ''Basic x'', gateway_admin_token = Some ''other''\<rparr> ''s3cret''"
    by (subst isAuthorized_iff_token) simp_all
qed

end
