(* ===== verification/Shoppers.thy ===== *)
theory Shoppers
  imports Prelude
begin

text \<open>
  The shopper registry of \<open>src/storage/shopperRepo.ts\<close>, with its row of
  \<open>src/storage/schema.ts\<close> and its type of \<open>src/domain/types.ts\<close>. The table is the list of its
  rows; the clock and the fresh uuid of a registration are arguments.
\<close>

section \<open>Data\<close>

datatype enabled_status = Enabled | Disabled

record shopper =
  sh_id :: string
  sh_name :: string
  sh_phone :: string
  sh_room :: string
  sh_status :: enabled_status
  sh_created :: time
  sh_updated :: time

section \<open>Operations\<close>

definition getById :: "string \<Rightarrow> shopper list \<Rightarrow> shopper option" where
  "getById i rows = sql_get (\<lambda>r. sh_id r = i) rows"

definition getByPhone :: "string \<Rightarrow> shopper list \<Rightarrow> shopper option" where
  "getByPhone p rows = sql_get (\<lambda>r. sh_phone r = p) rows"

text \<open>The \<open>INSERT\<close>, under the primary key and the unique index on the phone.\<close>

definition insert_shopper :: "shopper \<Rightarrow> shopper list \<Rightarrow> db_error + shopper list" where
  "insert_shopper s rows =
     (if sql_any (\<lambda>r. sh_phone r = sh_phone s) rows then Inl UniqueFailed
      else sql_insert sh_id s rows)"

definition register ::
  "time \<Rightarrow> string \<Rightarrow> string \<Rightarrow> string \<Rightarrow> string \<Rightarrow> shopper list
    \<Rightarrow> db_error + (shopper list \<times> shopper \<times> bool)" where
  "register now uid name phone room rows =
     (case getByPhone phone rows of
        Some s \<Rightarrow>
          if sh_name s \<noteq> name \<or> sh_room s \<noteq> room then
            Inr (sql_update (\<lambda>r. sh_id r = sh_id s)
                   (\<lambda>r. r\<lparr>sh_name := name, sh_room := room, sh_updated := now\<rparr>) rows,
                 s\<lparr>sh_name := name, sh_room := room, sh_updated := now\<rparr>, False)
          else Inr (rows, s, False)
      | None \<Rightarrow>
          let s = \<lparr>sh_id = uid, sh_name = name, sh_phone = phone, sh_room = room,
                   sh_status = Enabled, sh_created = now, sh_updated = now\<rparr>
          in (case insert_shopper s rows of Inl e \<Rightarrow> Inl e | Inr rows' \<Rightarrow> Inr (rows', s, True)))"

text \<open>\<open>ORDER BY created_at ASC, rowid ASC\<close>: a stable sort.\<close>

definition list_shoppers :: "shopper list \<Rightarrow> shopper list" where
  "list_shoppers rows = sort_key sh_created rows"

definition setStatus :: "time \<Rightarrow> string \<Rightarrow> enabled_status \<Rightarrow> shopper list \<Rightarrow> shopper list \<times> shopper option" where
  "setStatus now i st rows =
     (case getById i rows of
        None \<Rightarrow> (rows, None)
      | Some _ \<Rightarrow>
          let rows' = sql_update (\<lambda>r. sh_id r = i) (\<lambda>r. r\<lparr>sh_status := st, sh_updated := now\<rparr>) rows
          in (rows', getById i rows'))"

section \<open>Lemmas\<close>

definition shoppers_inv :: "shopper list \<Rightarrow> bool" where
  "shoppers_inv rows \<longleftrightarrow> unique_key sh_id rows \<and> unique_key sh_phone rows"

lemma shoppers_inv_update:
  "shoppers_inv rows \<Longrightarrow> (\<And>r. sh_id (f r) = sh_id r \<and> sh_phone (f r) = sh_phone r) \<Longrightarrow>
     shoppers_inv (sql_update p f rows)"
  unfolding shoppers_inv_def by (auto intro: unique_key_update)

lemma shoppers_inv_insert:
  "shoppers_inv rows \<Longrightarrow> insert_shopper s rows = Inr rows' \<Longrightarrow> shoppers_inv rows'"
  by (auto simp: shoppers_inv_def insert_shopper_def sql_insert_Inr unique_key_append sql_any_def
      list_ex_iff split: if_splits)

lemma shoppers_inv_register [inv_intros]:
  "shoppers_inv rows \<Longrightarrow> register now u n p r rows = Inr (rows', s, c) \<Longrightarrow> shoppers_inv rows'"
  by (auto simp: register_def Let_def split: option.splits if_splits sum.splits
      intro: shoppers_inv_update shoppers_inv_insert)

lemma shoppers_inv_setStatus [inv_intros]:
  "shoppers_inv rows \<Longrightarrow> shoppers_inv (fst (setStatus now i st rows))"
  by (auto simp: setStatus_def Let_def split: option.splits intro: shoppers_inv_update)

lemma getById_unique: "shoppers_inv rows \<Longrightarrow> r \<in> set rows \<Longrightarrow> getById (sh_id r) rows = Some r"
  by (simp add: getById_def shoppers_inv_def sql_get_unique)

lemma getByPhone_Some: "getByPhone p rows = Some s \<Longrightarrow> s \<in> set rows \<and> sh_phone s = p"
  unfolding getByPhone_def by (rule sql_get_Some)

text \<open>The update of one shopper, read by phone.\<close>

lemma getByPhone_update:
  assumes "shoppers_inv rows" "s \<in> set rows" "\<And>r. sh_phone (f r) = sh_phone r"
  shows "getByPhone p (sql_update (\<lambda>r. sh_id r = sh_id s) f rows)
    = (if p = sh_phone s then Some (f s) else getByPhone p rows)"
proof -
  have "getByPhone p (sql_update (\<lambda>r. sh_id r = sh_id s) f rows)
      = map_option (\<lambda>r. if sh_id r = sh_id s then f r else r) (getByPhone p rows)"
    unfolding getByPhone_def by (rule sql_get_update_key) (simp add: assms(3))
  moreover have "getByPhone (sh_phone s) rows = Some s"
    using assms by (simp add: getByPhone_def shoppers_inv_def sql_get_unique)
  moreover have "r = s" if "getByPhone p rows = Some r" "sh_id r = sh_id s" for r
    using that assms(1,2) getById_unique [of rows r] getById_unique [of rows s]
    by (auto dest!: getByPhone_Some)
  ultimately show ?thesis
    by (cases "getByPhone p rows") (auto dest: getByPhone_Some)
qed

section \<open>Properties\<close>

text \<open>Registration is idempotent on the phone: it creates a shopper exactly when none has the
  phone, an existing shopper keeps its id, its status and its registration time (a disabled one
  stays disabled), the returned shopper is the stored one, no other phone changes, and the
  table keeps one row per id and per phone.\<close>

theorem register_idempotent:
  assumes "shoppers_inv rows" "register now uid name phone room rows = Inr (rows', s, created)"
  shows "(created \<longleftrightarrow> getByPhone phone rows = None)
    \<and> getByPhone phone rows' = Some s \<and> sh_name s = name \<and> sh_room s = room \<and> sh_phone s = phone
    \<and> (case getByPhone phone rows of
         Some old \<Rightarrow> sh_id s = sh_id old \<and> sh_status s = sh_status old \<and> sh_created s = sh_created old
           \<and> map sh_id rows' = map sh_id rows
       | None \<Rightarrow> sh_id s = uid \<and> sh_status s = Enabled)
    \<and> (\<forall>p. p \<noteq> phone \<longrightarrow> getByPhone p rows' = getByPhone p rows)
    \<and> shoppers_inv rows'"
proof (cases "getByPhone phone rows")
  case None
  then obtain i: "insert_shopper s rows = Inr rows'"
    and s: "s = \<lparr>sh_id = uid, sh_name = name, sh_phone = phone, sh_room = room,
      sh_status = Enabled, sh_created = now, sh_updated = now\<rparr>" "created"
    using assms(2) by (auto simp: register_def Let_def split: sum.splits)
  then have "rows' = rows @ [s]"
    by (auto simp: insert_shopper_def sql_insert_Inr split: if_splits)
  then have "getByPhone p rows' = (if p = phone then Some s else getByPhone p rows)" for p
    using None s by (auto simp: getByPhone_def sql_get_append sql_get_Cons split: option.splits)
  then show ?thesis
    using None s shoppers_inv_register [OF assms] by simp
next
  case (Some old)
  then have old: "old \<in> set rows" "sh_phone old = phone" by (auto dest: getByPhone_Some)
  have "map sh_id (sql_update (\<lambda>r. sh_id r = sh_id old)
      (\<lambda>r. r\<lparr>sh_name := name, sh_room := room, sh_updated := now\<rparr>) rows) = map sh_id rows"
    by (rule map_key_sql_update) simp
  then show ?thesis
    using assms(2) Some old shoppers_inv_register [OF assms]
      getByPhone_update [OF assms(1) old(1),
        where f = "\<lambda>r. r\<lparr>sh_name := name, sh_room := room, sh_updated := now\<rparr>"]
    by (auto simp: register_def split: if_splits)
qed

definition sample_shopper :: shopper where
  "sample_shopper = \<lparr>sh_id = ''s1'', sh_name = ''Ann'', sh_phone = ''+44700000'', sh_room = ''ann'',
     sh_status = Disabled, sh_created = 1, sh_updated = 2\<rparr>"

theorem register_idempotent_witness:
  "\<exists>rows' s. register 9 ''u'' ''Anna'' ''+44700000'' ''ann'' [sample_shopper] = Inr (rows', s, False)
    \<and> sh_id s = ''s1'' \<and> sh_status s = Disabled \<and> shoppers_inv rows'"
proof -
  let ?s = "sample_shopper\<lparr>sh_name := ''Anna'', sh_room := ''ann'', sh_updated := 9\<rparr>"
  have g: "getByPhone ''+44700000'' [sample_shopper] = Some sample_shopper"
    by (simp add: getByPhone_def sql_get_Cons sample_shopper_def)
  have r: "register 9 ''u'' ''Anna'' ''+44700000'' ''ann'' [sample_shopper] = Inr ([?s], ?s, False)"
    by (simp add: register_def g sql_update_Cons) (simp add: sample_shopper_def)
  have i: "shoppers_inv [sample_shopper]" by (simp add: shoppers_inv_def unique_key_def)
  from register_idempotent [OF i r] g r show ?thesis by (simp add: sample_shopper_def)
qed

end
