(* ===== verification/Credentials.thy ===== *)
theory Credentials
  imports Shoppers Crypto
begin

text \<open>
  The credential store of \<open>src/storage/credentialStore.ts\<close>. A row holds the envelope of the
  token; the store's operations get the cipher, the hash, the key, the nonce, the clock and
  the fresh uuid as arguments. Setting a credential runs in one transaction: an error leaves
  the table as it was.
\<close>

section \<open>Data\<close>

datatype role = ShopperRole | PaRole
datatype credential_status = Active | Revoked

record credential =
  cr_id :: string
  cr_shopper :: string
  cr_label :: role
  cr_service_account :: "string option"
  cr_token :: bytes
  cr_fingerprint :: string
  cr_status :: credential_status
  cr_created :: time
  cr_updated :: time

text \<open>The non-secret view.\<close>

record credential_info =
  ci_id :: string
  ci_shopper :: string
  ci_label :: role
  ci_service_account :: "string option"
  ci_fingerprint :: string
  ci_status :: credential_status
  ci_created :: time
  ci_updated :: time

definition toInfo :: "credential \<Rightarrow> credential_info" where
  "toInfo r = \<lparr>ci_id = cr_id r, ci_shopper = cr_shopper r, ci_label = cr_label r,
     ci_service_account = cr_service_account r, ci_fingerprint = cr_fingerprint r,
     ci_status = cr_status r, ci_created = cr_created r, ci_updated = cr_updated r\<rparr>"

text \<open>What the store gets from its environment.\<close>

record vault =
  v_seal :: seal_fn
  v_unseal :: unseal_fn
  v_sha :: "bytes \<Rightarrow> bytes"
  v_key :: bytes

section \<open>Operations\<close>

definition is_active :: "string \<Rightarrow> role \<Rightarrow> credential \<Rightarrow> bool" where
  "is_active shopperId label r \<longleftrightarrow>
     cr_shopper r = shopperId \<and> cr_label r = label \<and> cr_status r = Active"

definition getInfoById :: "string \<Rightarrow> credential list \<Rightarrow> credential_info option" where
  "getInfoById i rows = map_option toInfo (sql_get (\<lambda>r. cr_id r = i) rows)"

definition getActiveInfo :: "string \<Rightarrow> role \<Rightarrow> credential list \<Rightarrow> credential_info option" where
  "getActiveInfo shopperId label rows = map_option toInfo (sql_get (is_active shopperId label) rows)"

text \<open>The \<open>INSERT\<close>: primary key, partial unique index on active rows, then the foreign key.\<close>

definition insert_credential ::
  "shopper list \<Rightarrow> credential \<Rightarrow> credential list \<Rightarrow> db_error + credential list" where
  "insert_credential shoppers c rows =
     (if cr_status c = Active \<and> sql_any (is_active (cr_shopper c) (cr_label c)) rows
      then Inl UniqueFailed
      else case sql_insert cr_id c rows of
          Inl e \<Rightarrow> Inl e
        | Inr rows' \<Rightarrow> if getById (cr_shopper c) shoppers = None then Inl ForeignKeyFailed else Inr rows')"

definition revoke :: "time \<Rightarrow> credential \<Rightarrow> credential" where
  "revoke now r = r\<lparr>cr_status := Revoked, cr_updated := now\<rparr>"

definition setActive ::
  "vault \<Rightarrow> shopper list \<Rightarrow> time \<Rightarrow> string \<Rightarrow> bytes \<Rightarrow> string \<Rightarrow> string \<Rightarrow> role option \<Rightarrow> string option
    \<Rightarrow> credential list \<Rightarrow> db_error + (credential list \<times> credential_info)" where
  "setActive v shoppers now uid iv shopperId token label serviceAccountId rows =
     (let role = (case label of None \<Rightarrow> ShopperRole | Some l \<Rightarrow> l);
          c = \<lparr>cr_id = uid, cr_shopper = shopperId, cr_label = role,
               cr_service_account = serviceAccountId,
               cr_token = encrypt_string (v_seal v) iv token (v_key v),
               cr_fingerprint = sha256Hex (v_sha v) token,
               cr_status = Active, cr_created = now, cr_updated = now\<rparr>;
          revoked = sql_update (is_active shopperId role) (revoke now) rows
      in case insert_credential shoppers c revoked of
           Inl e \<Rightarrow> Inl e
         | Inr rows' \<Rightarrow> Inr (rows', the (getInfoById uid rows')))"

definition revokeActive :: "time \<Rightarrow> string \<Rightarrow> role \<Rightarrow> credential list \<Rightarrow> credential list \<times> bool" where
  "revokeActive now shopperId label rows =
     (case getActiveInfo shopperId label rows of
        None \<Rightarrow> (rows, False)
      | Some i \<Rightarrow> (sql_update (\<lambda>r. cr_id r = ci_id i) (revoke now) rows, True))"

definition listInfo :: "string \<Rightarrow> credential list \<Rightarrow> credential_info list" where
  "listInfo shopperId rows =
     map toInfo (sort_key cr_created (filter (\<lambda>r. cr_shopper r = shopperId) rows))"

definition getActiveToken ::
  "vault \<Rightarrow> string \<Rightarrow> role \<Rightarrow> credential list \<Rightarrow> (crypto_error + string option) option" where
  "getActiveToken v shopperId label rows =
     (case sql_get (is_active shopperId label) rows of
        None \<Rightarrow> None
      | Some r \<Rightarrow> Some (decryptToString (v_unseal v) (cr_token r) (v_key v)))"

section \<open>The store as a machine\<close>

datatype cred_op =
    SetActive time string bytes string string "role option" "string option"
  | RevokeActive time string role

fun cred_step :: "vault \<Rightarrow> shopper list \<Rightarrow> credential list \<Rightarrow> cred_op \<Rightarrow> credential list" where
  "cred_step v shoppers rows (SetActive now u iv s t l sa) =
     (case setActive v shoppers now u iv s t l sa rows of Inl _ \<Rightarrow> rows | Inr r \<Rightarrow> fst r)"
| "cred_step v shoppers rows (RevokeActive now s l) = fst (revokeActive now s l rows)"

text \<open>One row per id and one active row per shopper and label, every row of a registered shopper.\<close>

definition active_rows :: "string \<Rightarrow> role \<Rightarrow> credential list \<Rightarrow> credential list" where
  "active_rows shopperId label rows = filter (is_active shopperId label) rows"

definition cred_inv :: "shopper list \<Rightarrow> credential list \<Rightarrow> bool" where
  "cred_inv shoppers rows \<longleftrightarrow> unique_key cr_id rows
     \<and> (\<forall>s l. length (active_rows s l rows) \<le> 1)
     \<and> (\<forall>r \<in> set rows. getById (cr_shopper r) shoppers \<noteq> None)"

section \<open>Lemmas\<close>

lemma revoke_simps [simp]:
  "cr_id (revoke now r) = cr_id r" "cr_shopper (revoke now r) = cr_shopper r"
  "cr_label (revoke now r) = cr_label r" "cr_status (revoke now r) = Revoked"
  "\<not> is_active s l (revoke now r)"
  by (simp_all add: revoke_def is_active_def)

lemma active_rows_revoke:
  "active_rows s l (sql_update p (revoke now) rows) = filter (\<lambda>r. \<not> p r) (active_rows s l rows)"
  by (induction rows) (auto simp: active_rows_def sql_update_Cons)

lemma sql_get_active: "sql_get (is_active s l) rows = None \<longleftrightarrow> active_rows s l rows = []"
  by (auto simp: sql_get_None active_rows_def filter_empty_conv)

lemma sql_get_active_hd: "sql_get (is_active s l) rows = (case active_rows s l rows of [] \<Rightarrow> None | r # _ \<Rightarrow> Some r)"
  by (induction rows) (auto simp: active_rows_def sql_get_Cons)

lemma is_active_unique: "is_active s l r \<Longrightarrow> is_active s' l' r \<longleftrightarrow> s' = s \<and> l' = l"
  by (auto simp: is_active_def)

lemma active_rows_revoke_own:
  "active_rows s l (sql_update (is_active s l) (revoke now) rows) = []"
  by (simp add: active_rows_revoke) (simp add: active_rows_def)

lemma active_rows_revoke_other:
  "(s', l') \<noteq> (s, l) \<Longrightarrow>
     active_rows s' l' (sql_update (is_active s l) (revoke now) rows) = active_rows s' l' rows"
  unfolding active_rows_revoke unfolding active_rows_def filter_filter
  by (rule filter_cong) (auto simp: is_active_def)

text \<open>The partial index never refuses a rotation: an error is a reused id or an unknown shopper.\<close>

lemma setActive_cases:
  assumes "setActive v shoppers now uid iv s token label sa rows = res"
  obtains (ok) c rows' where
      "res = Inr (rows', toInfo c)"
      "rows' = sql_update (is_active s (case label of None \<Rightarrow> ShopperRole | Some l \<Rightarrow> l)) (revoke now) rows @ [c]"
      "\<forall>r \<in> set rows. cr_id r \<noteq> uid" "getById s shoppers \<noteq> None"
      "cr_id c = uid" "is_active s (case label of None \<Rightarrow> ShopperRole | Some l \<Rightarrow> l) c"
      "cr_token c = encrypt_string (v_seal v) iv token (v_key v)"
    | (dup) "res = Inl UniqueFailed" "\<exists>r \<in> set rows. cr_id r = uid"
    | (fk) "res = Inl ForeignKeyFailed" "getById s shoppers = None"
proof -
  define l where "l = (case label of None \<Rightarrow> ShopperRole | Some l \<Rightarrow> l)"
  define c where "c = \<lparr>cr_id = uid, cr_shopper = s, cr_label = l, cr_service_account = sa,
      cr_token = encrypt_string (v_seal v) iv token (v_key v),
      cr_fingerprint = sha256Hex (v_sha v) token, cr_status = Active, cr_created = now, cr_updated = now\<rparr>"
  define rv where "rv = sql_update (is_active s l) (revoke now) rows"
  have r: "res = (case insert_credential shoppers c rv of Inl e \<Rightarrow> Inl e
      | Inr rows' \<Rightarrow> Inr (rows', the (getInfoById uid rows')))"
    using assms by (simp add: setActive_def Let_def l_def c_def rv_def)
  have na: "\<not> sql_any (is_active s l) rv"
    by (simp add: sql_any_get sql_get_active rv_def active_rows_revoke_own)
  have ids: "(\<exists>x \<in> set rv. cr_id x = uid) \<longleftrightarrow> (\<exists>x \<in> set rows. cr_id x = uid)"
    using map_key_sql_update [of "is_active s l" cr_id "revoke now" rows]
    by (metis (no_types, lifting) image_iff list.set_map revoke_simps(1) rv_def)
  show thesis
  proof (cases "\<exists>x \<in> set rows. cr_id x = uid")
    case True
    then have "insert_credential shoppers c rv = Inl UniqueFailed"
      using na ids by (simp add: insert_credential_def sql_insert_def list_ex_iff c_def)
    with r True show thesis by (intro dup) auto
  next
    case False
    then have i: "insert_credential shoppers c rv
        = (if getById s shoppers = None then Inl ForeignKeyFailed else Inr (rv @ [c]))"
      using na ids by (simp add: insert_credential_def sql_insert_def list_ex_iff c_def)
    have g: "getInfoById uid (rv @ [c]) = Some (toInfo c)"
      using False ids by (auto simp: getInfoById_def sql_get_append sql_get_Cons c_def
          split: option.splits dest: sql_get_Some)
    show thesis
    proof (cases "getById s shoppers = None")
      case True
      with r i show thesis by (intro fk) auto
    next
      case fk': False
      show thesis
      proof (rule ok)
        show "res = Inr (rv @ [c], toInfo c)" using r i g fk' by simp
        show "rv @ [c] = sql_update (is_active s (case label of None \<Rightarrow> ShopperRole | Some l \<Rightarrow> l))
            (revoke now) rows @ [c]"
          by (simp add: rv_def l_def)
      qed (use False fk' in \<open>auto simp: c_def is_active_def l_def\<close>)
    qed
  qed
qed

lemma cred_inv_revoke:
  assumes "cred_inv shoppers rows"
  shows "cred_inv shoppers (sql_update p (revoke now) rows)"
proof -
  have "length (active_rows s l (sql_update p (revoke now) rows)) \<le> 1" for s l
    using assms le_trans [OF length_filter_le [of "\<lambda>r. \<not> p r" "active_rows s l rows"]]
    by (auto simp: active_rows_revoke cred_inv_def)
  then show ?thesis
    using assms by (auto simp: cred_inv_def set_sql_update intro: unique_key_update)
qed

lemma cred_inv_setActive:
  assumes "cred_inv shoppers rows"
    and "setActive v shoppers now uid iv s token label sa rows = Inr (rows', i)"
  shows "cred_inv shoppers rows'"
  using assms(2)
proof (cases rule: setActive_cases)
  case (ok c rows'')
  let ?l = "case label of None \<Rightarrow> ShopperRole | Some l \<Rightarrow> l"
  let ?rv = "sql_update (is_active s ?l) (revoke now) rows"
  have rv: "cred_inv shoppers ?rv" by (rule cred_inv_revoke [OF assms(1)])
  have "length (active_rows s' l' (?rv @ [c])) \<le> 1" for s' l'
    using rv ok(6) active_rows_revoke_own [of s ?l now rows]
    by (cases "(s', l') = (s, ?l)") (auto simp: active_rows_def cred_inv_def is_active_unique)
  moreover have "unique_key cr_id (?rv @ [c])"
    using rv ok(3,5) by (auto simp: cred_inv_def unique_key_append set_sql_update)
  moreover have "cr_shopper c = s" using ok(6) by (simp add: is_active_def)
  ultimately show ?thesis
    using rv ok by (auto simp: cred_inv_def)
qed simp_all

lemma cred_inv_step: "cred_inv shoppers rows \<Longrightarrow> cred_inv shoppers (cred_step v shoppers rows e)"
  by (cases e) (auto simp: revokeActive_def intro: cred_inv_revoke cred_inv_setActive
      split: sum.splits option.splits)

interpretation creds: machine "cred_step v shoppers" "cred_inv shoppers" for v shoppers
  by unfold_locales (rule cred_inv_step)

section \<open>Properties\<close>

text \<open>After any creations, rotations and revocations, each shopper and label has at most one
  active credential, ids are unique, and every credential belongs to a registered shopper.\<close>

theorem at_most_one_active_credential:
  "length (filter (is_active s l) (foldl (cred_step v shoppers) [] es)) \<le> 1
    \<and> unique_key cr_id (foldl (cred_step v shoppers) [] es)
    \<and> list_all (\<lambda>r. getById (cr_shopper r) shoppers \<noteq> None) (foldl (cred_step v shoppers) [] es)"
proof -
  have "cred_inv shoppers []" by (simp add: cred_inv_def unique_key_def active_rows_def)
  then have "cred_inv shoppers (foldl (cred_step v shoppers) [] es)" by (rule creds.run_inv)
  then show ?thesis by (simp add: cred_inv_def active_rows_def list_all_iff)
qed

text \<open>Setting a credential makes its token the one that is read back for that shopper and
  label, under any authenticated cipher with 16 byte tags and a 12 byte nonce; the active
  credentials of every other shopper and label stay; the old ones of the pair are all revoked;
  a failed call is a reused id or an unregistered shopper.\<close>

theorem setActive_rotates:
  assumes "aead (v_seal v) (v_unseal v)" "length iv = IV_LEN"
  shows "case setActive v shoppers now uid iv s token label sa rows of
      Inl e \<Rightarrow> e = UniqueFailed \<and> (\<exists>r \<in> set rows. cr_id r = uid)
             \<or> e = ForeignKeyFailed \<and> getById s shoppers = None
    | Inr (rows', i) \<Rightarrow>
        (let l = (case label of None \<Rightarrow> ShopperRole | Some l \<Rightarrow> l) in
           getActiveToken v s l rows' = Some (Inr (Some token))
         \<and> getActiveInfo s l rows' = Some i \<and> ci_id i = uid
         \<and> map cr_id (active_rows s l rows') = [uid]
         \<and> (\<forall>s' l'. (s', l') \<noteq> (s, l) \<longrightarrow>
              getActiveToken v s' l' rows' = getActiveToken v s' l' rows))"
  using refl [of "setActive v shoppers now uid iv s token label sa rows"]
proof (cases rule: setActive_cases)
  case (ok c rows')
  let ?l = "case label of None \<Rightarrow> ShopperRole | Some l \<Rightarrow> l"
  have a: "active_rows s ?l rows' = [c]"
    using active_rows_revoke_own [of s ?l now rows] ok(2,6) by (simp add: active_rows_def)
  have b: "active_rows s' l' rows' = active_rows s' l' rows" if "(s', l') \<noteq> (s, ?l)" for s' l'
    using active_rows_revoke_other [OF that, of now rows] ok(2,6) that
    by (auto simp: active_rows_def is_active_unique)
  have "getActiveToken v s ?l rows' = Some (Inr (Some token))"
    using assms ok(7) by (simp add: getActiveToken_def sql_get_active_hd a decryptToString_encrypt)
  moreover have "getActiveInfo s ?l rows' = Some (toInfo c)"
    by (simp add: getActiveInfo_def sql_get_active_hd a)
  moreover have "getActiveToken v s' l' rows' = getActiveToken v s' l' rows"
    if "(s', l') \<noteq> (s, ?l)" for s' l'
    by (simp add: getActiveToken_def sql_get_active_hd b [OF that])
  ultimately show ?thesis
    using ok(1,5) a by (simp add: toInfo_def Let_def)
qed simp_all

definition sample_vault :: vault where
  "sample_vault = \<lparr>v_seal = plain_seal, v_unseal = plain_unseal, v_sha = id, v_key = [1]\<rparr>"

theorem setActive_rotates_witness:
  "\<exists>rows' i. setActive sample_vault [sample_shopper] 5 ''c1'' (replicate 12 0) ''s1'' ''tok'' None None []
      = Inr (rows', i) \<and> getActiveToken sample_vault ''s1'' ShopperRole rows' = Some (Inr (Some ''tok''))"
proof -
  let ?r = "setActive sample_vault [sample_shopper] 5 ''c1'' (replicate 12 0) ''s1'' ''tok'' None None []"
  have h: "aead (v_seal sample_vault) (v_unseal sample_vault)"
    by (simp add: sample_vault_def plain_aead)
  have g: "getById ''s1'' [sample_shopper] \<noteq> None"
    by (simp add: getById_def sql_get_Cons sample_shopper_def)
  have "?r \<noteq> Inl e" for e
    using setActive_rotates [OF h, where iv = "replicate 12 0" and shoppers = "[sample_shopper]" and now = 5
      and uid = "''c1''" and s = "''s1''" and token = "''tok''" and label = None and sa = None and rows = "[]"] g
    by (auto simp: IV_LEN_def)
  then obtain rows' i where "?r = Inr (rows', i)" by (cases ?r) auto
  with setActive_rotates [OF h, where iv = "replicate 12 0" and shoppers = "[sample_shopper]" and now = 5
      and uid = "''c1''" and s = "''s1''" and token = "''tok''" and label = None and sa = None and rows = "[]"]
  show ?thesis by (auto simp: IV_LEN_def)
qed

end
