(* ===== verification/Resolver.thy ===== *)
theory Resolver
  imports Credentials Jid
begin

text \<open>
  The chat mappings of \<open>src/storage/mappingRepo.ts\<close> and the identity resolution of
  \<open>src/routing/resolver.ts\<close> over the shopper, mapping and credential tables.
\<close>

section \<open>Chat mappings\<close>

record mapping_row =
  mp_connection :: string
  mp_chat :: string
  mp_shopper :: string
  mp_status :: enabled_status
  mp_created :: time
  mp_updated :: time

definition mp_key :: "mapping_row \<Rightarrow> string \<times> string" where
  "mp_key r = (mp_connection r, mp_chat r)"

definition getMapping :: "string \<Rightarrow> string \<Rightarrow> mapping_row list \<Rightarrow> mapping_row option" where
  "getMapping conn chat rows = sql_get (\<lambda>r. mp_key r = (conn, chat)) rows"

text \<open>The upsert statement, and the call with its foreign key to the shopper.\<close>

definition mapping_put ::
  "string \<times> string \<Rightarrow> string \<times> enabled_status \<times> time \<Rightarrow> mapping_row list \<Rightarrow> mapping_row list" where
  "mapping_put k v rows =
     (case k of (conn, chat) \<Rightarrow> case v of (shopperId, st, now) \<Rightarrow>
        sql_upsert mp_key
          \<lparr>mp_connection = conn, mp_chat = chat, mp_shopper = shopperId, mp_status = st,
           mp_created = now, mp_updated = now\<rparr>
          (\<lambda>r. r\<lparr>mp_shopper := shopperId, mp_status := st, mp_updated := now\<rparr>) rows)"

definition upsertMapping ::
  "shopper list \<Rightarrow> time \<Rightarrow> string \<Rightarrow> string \<Rightarrow> string \<Rightarrow> enabled_status option \<Rightarrow> mapping_row list
    \<Rightarrow> db_error + (mapping_row list \<times> mapping_row)" where
  "upsertMapping shoppers now conn chat shopperId st rows =
     (if getById shopperId shoppers = None then Inl ForeignKeyFailed
      else let rows' = mapping_put (conn, chat)
                 (shopperId, (case st of None \<Rightarrow> Enabled | Some s \<Rightarrow> s), now) rows
           in Inr (rows', the (getMapping conn chat rows')))"

definition listMappings :: "string option \<Rightarrow> mapping_row list \<Rightarrow> mapping_row list" where
  "listMappings conn rows =
     sort_key mp_created
       (case conn of None \<Rightarrow> rows
        | Some c \<Rightarrow> if c = [] then rows else filter (\<lambda>r. mp_connection r = c) rows)"

definition setMappingStatus ::
  "time \<Rightarrow> string \<Rightarrow> string \<Rightarrow> enabled_status \<Rightarrow> mapping_row list \<Rightarrow> mapping_row list \<times> mapping_row option" where
  "setMappingStatus now conn chat st rows =
     (case getMapping conn chat rows of
        None \<Rightarrow> (rows, None)
      | Some _ \<Rightarrow>
          let rows' = sql_update (\<lambda>r. mp_key r = (conn, chat))
                        (\<lambda>r. r\<lparr>mp_status := st, mp_updated := now\<rparr>) rows
          in (rows', getMapping conn chat rows'))"

text \<open>A chat reads what was last mapped to it.\<close>

definition mapping_look :: "string \<times> string \<Rightarrow> mapping_row list \<Rightarrow> (string \<times> enabled_status \<times> time) option" where
  "mapping_look k rows =
     map_option (\<lambda>r. (mp_shopper r, mp_status r, mp_updated r)) (sql_get (\<lambda>r. mp_key r = k) rows)"

lemma mapping_look_put:
  "mapping_look k' (mapping_put k v rows) = (if k' = k then Some v else mapping_look k' rows)"
proof -
  obtain conn chat shopperId st now where kv: "k = (conn, chat)" "v = (shopperId, st, now)"
    by (cases k, cases v) auto
  show ?thesis
    unfolding mapping_look_def mapping_put_def kv prod.case
    by (subst sql_get_upsert) (auto simp: mp_key_def split: option.splits)
qed

interpretation mappings: keyed_store mapping_put mapping_look
  by unfold_locales (rule mapping_look_put)

section \<open>The resolver\<close>

datatype via = ViaMapping | ViaSender
datatype refusal =
  Unmapped | UnregisteredSender | MappingDisabled | ShopperDisabled | NoActiveCredential

type_synonym resolved = "refusal + (shopper \<times> via)"

text \<open>The three tables.\<close>

record identity_db =
  id_shoppers :: "shopper list"
  id_mappings :: "mapping_row list"
  id_credentials :: "credential list"

definition finalize :: "identity_db \<Rightarrow> shopper option \<Rightarrow> via \<Rightarrow> resolved" where
  "finalize db s via =
     (case s of
        None \<Rightarrow> Inl ShopperDisabled
      | Some sh \<Rightarrow>
          if sh_status sh \<noteq> Enabled then Inl ShopperDisabled
          else if getActiveInfo (sh_id sh) ShopperRole (id_credentials db) = None
          then Inl NoActiveCredential else Inr (sh, via))"

definition resolve :: "identity_db \<Rightarrow> string \<Rightarrow> string \<Rightarrow> string option \<Rightarrow> resolved" where
  "resolve db conn chat senderPhone =
     (case (if isGroupJid chat then None else getMapping conn chat (id_mappings db)) of
        Some m \<Rightarrow>
          if mp_status m \<noteq> Enabled then Inl MappingDisabled
          else finalize db (getById (mp_shopper m) (id_shoppers db)) ViaMapping
      | None \<Rightarrow>
         (case senderPhone of
            None \<Rightarrow> Inl Unmapped
          | Some p \<Rightarrow>
              if p = [] then Inl Unmapped
              else (case getByPhone p (id_shoppers db) of
                  Some s \<Rightarrow> finalize db (Some s) ViaSender
                | None \<Rightarrow> Inl UnregisteredSender)))"

definition resolveShopper :: "identity_db \<Rightarrow> string \<Rightarrow> resolved" where
  "resolveShopper db shopperId = finalize db (getById shopperId (id_shoppers db)) ViaSender"

definition registered :: "identity_db \<Rightarrow> string option \<Rightarrow> shopper option" where
  "registered db phone =
     (case phone of
        None \<Rightarrow> None
      | Some p \<Rightarrow>
          if p = [] then None
          else (case getByPhone p (id_shoppers db) of
              None \<Rightarrow> None
            | Some s \<Rightarrow> if sh_status s = Enabled then Some s else None))"

definition byId :: "identity_db \<Rightarrow> string option \<Rightarrow> shopper option" where
  "byId db i = (case i of None \<Rightarrow> None | Some i \<Rightarrow> if i = [] then None else getById i (id_shoppers db))"

definition groupMembers :: "identity_db \<Rightarrow> string list \<Rightarrow> shopper list" where
  "groupMembers db phones =
     filter (\<lambda>s. sh_status s = Enabled \<and> sh_phone s \<in> set phones) (list_shoppers (id_shoppers db))"

definition groupOwner :: "identity_db \<Rightarrow> string list \<Rightarrow> string option \<Rightarrow> shopper option" where
  "groupOwner db phones addedBy =
     (case sql_get (\<lambda>s. Some (sh_phone s) = addedBy) (groupMembers db phones) of
        Some s \<Rightarrow> Some s
      | None \<Rightarrow> (case groupMembers db phones of [] \<Rightarrow> None | s # _ \<Rightarrow> Some s))"

section \<open>Lemmas\<close>

lemma finalize_Inr:
  "finalize db s via = Inr (sh, v) \<longleftrightarrow> s = Some sh \<and> v = via \<and> sh_status sh = Enabled
     \<and> getActiveInfo (sh_id sh) ShopperRole (id_credentials db) \<noteq> None"
  by (auto simp: finalize_def split: option.splits if_splits)

text \<open>Who may own a group: an enabled shopper among its members.\<close>

definition owner_candidate :: "identity_db \<Rightarrow> string list \<Rightarrow> shopper \<Rightarrow> bool" where
  "owner_candidate db phones s \<longleftrightarrow>
     s \<in> set (id_shoppers db) \<and> sh_status s = Enabled \<and> sh_phone s \<in> set phones"

lemma set_groupMembers: "s \<in> set (groupMembers db phones) \<longleftrightarrow> owner_candidate db phones s"
  by (auto simp: groupMembers_def list_shoppers_def owner_candidate_def)

lemma groupOwner_Some: "groupOwner db phones addedBy = Some s \<Longrightarrow> owner_candidate db phones s"
  by (auto simp: groupOwner_def set_groupMembers [symmetric] split: option.splits list.splits
      dest: sql_get_Some)

lemma groupOwner_None: "groupOwner db phones addedBy = None \<Longrightarrow> \<not> owner_candidate db phones s"
  by (auto simp: groupOwner_def set_groupMembers [symmetric] split: option.splits list.splits)

text \<open>The head of a filtered stable sort has the smallest key.\<close>

lemma sorted_filter_hd:
  assumes "filter P (sort_key f xs) = s # rest" "x \<in> set xs" "P x"
  shows "f s \<le> f x"
proof -
  have "sorted (map f (filter P (sort_key f xs)))" by (simp add: sorted_filter)
  moreover have "x \<in> set (filter P (sort_key f xs))" using assms(2,3) by simp
  ultimately show ?thesis unfolding assms(1) by auto
qed

section \<open>Properties\<close>


text \<open>The owner chosen for a group is an enabled shopper who is a member: the one who added the
  gateway if they qualify, otherwise one registered no later than any other that qualifies; a
  group has no owner exactly when no enabled shopper is a member.\<close>

theorem groupOwner_correct:
  assumes "unique_key sh_phone (id_shoppers db)"
  shows "case groupOwner db phones addedBy of
      None \<Rightarrow> \<forall>s. \<not> owner_candidate db phones s
    | Some s \<Rightarrow> owner_candidate db phones s
        \<and> (\<forall>x. owner_candidate db phones x \<and> Some (sh_phone x) = addedBy \<longrightarrow> s = x)
        \<and> (Some (sh_phone s) \<noteq> addedBy \<longrightarrow> (\<forall>x. owner_candidate db phones x \<longrightarrow> sh_created s \<le> sh_created x))"
proof (cases "groupOwner db phones addedBy")
  case None
  then show ?thesis by (simp add: groupOwner_None)
next
  case (Some s)
  note own = this
  let ?m = "groupMembers db phones"
  let ?ok = "owner_candidate db phones"
  have ok: "?ok s" using groupOwner_Some [OF Some] .
  have same: "x = y" if "?ok x" "?ok y" "sh_phone x = sh_phone y" for x y
    using that sql_get_unique [OF assms, of x] sql_get_unique [OF assms, of y]
    unfolding owner_candidate_def by (metis option.inject)
  show ?thesis
  proof (cases "sql_get (\<lambda>s. Some (sh_phone s) = addedBy) ?m")
    case None
    then have n: "\<forall>x. ?ok x \<longrightarrow> Some (sh_phone x) \<noteq> addedBy"
      by (auto simp: sql_get_None set_groupMembers)
    obtain rest where r: "?m = s # rest"
      using own None by (cases ?m) (simp_all add: groupOwner_def)
    have f: "filter (\<lambda>s. sh_status s = Enabled \<and> sh_phone s \<in> set phones)
        (sort_key sh_created (id_shoppers db)) = s # rest"
      using r by (simp add: groupMembers_def list_shoppers_def)
    have "sh_created s \<le> sh_created x" if "?ok x" for x
      using sorted_filter_hd [OF f, of x] that by (simp add: owner_candidate_def)
    then show ?thesis using own ok n by auto
  next
    case (Some s')
    then have "s' = s" using own by (simp add: groupOwner_def)
    then have "Some (sh_phone s) = addedBy" using sql_get_Some [OF Some] by simp
    then have "s = x" if "?ok x" "Some (sh_phone x) = addedBy" for x
      using same [OF ok that(1)] that(2) \<open>Some (sh_phone s) = addedBy\<close> by (metis option.inject)
    then show ?thesis
      using ok \<open>Some (sh_phone s) = addedBy\<close> unfolding own option.case by blast
  qed
qed

theorem groupOwner_correct_witness:
  "case groupOwner \<lparr>id_shoppers = [sample_shopper\<lparr>sh_status := Enabled\<rparr>], id_mappings = [], id_credentials = []\<rparr>
      [''+44700000''] None of
      None \<Rightarrow> False | Some s \<Rightarrow> sh_id s = ''s1''"
proof -
  let ?s = "sample_shopper\<lparr>sh_status := Enabled\<rparr>"
  let ?db = "\<lparr>id_shoppers = [?s], id_mappings = [], id_credentials = []\<rparr>"
  have "unique_key sh_phone (id_shoppers ?db)" by (simp add: unique_key_def)
  note g = groupOwner_correct [OF this, where phones = "[''+44700000'']" and addedBy = None]
  have c: "owner_candidate ?db [''+44700000''] ?s"
    by (simp add: owner_candidate_def sample_shopper_def)
  show ?thesis
  proof (cases "groupOwner ?db [''+44700000''] None")
    case None
    then show ?thesis using g c by simp
  next
    case (Some x)
    then have "x = ?s" using g by (simp add: owner_candidate_def)
    then show ?thesis using Some by (simp add: sample_shopper_def)
  qed
qed

end
