(* ===== verification/OutboundLog.thy ===== *)
theory OutboundLog
  imports Prelude
begin

text \<open>
  The send log of \<open>src/storage/outboundLog.ts\<close>, with its table of \<open>src/storage/schema.ts\<close>: a claim
  reserves an idempotency key, the terminal writes are fenced by the claim token. Fresh uuids
  and the clock are arguments; the row's \<open>updated_at\<close> is read back as a time.
\<close>

section \<open>Data\<close>

definition STALE_PENDING_MS :: nat where "STALE_PENDING_MS = 120000"

datatype out_status = Pending | Sent | Failed

record out_row =
  ol_connection :: string
  ol_key :: string
  ol_chat :: "string option"
  ol_ref :: "string option"
  ol_status :: out_status
  ol_token :: "string option"
  ol_created :: time
  ol_updated :: time

datatype claim_result = Claimed string | AlreadySent "string option" | InFlight

definition row_key :: "out_row \<Rightarrow> string \<times> string" where
  "row_key r = (ol_connection r, ol_key r)"

definition out_get :: "string \<times> string \<Rightarrow> out_row list \<Rightarrow> out_row option" where
  "out_get k rows = sql_get (\<lambda>r. row_key r = k) rows"

section \<open>Operations\<close>

definition claim :: "time \<Rightarrow> string \<Rightarrow> string \<times> string \<Rightarrow> out_row list \<Rightarrow> out_row list \<times> claim_result" where
  "claim now token k rows =
     (case out_get k rows of
        None \<Rightarrow>
          (rows @ [\<lparr>ol_connection = fst k, ol_key = snd k, ol_chat = None, ol_ref = None,
             ol_status = Pending, ol_token = Some token, ol_created = now, ol_updated = now\<rparr>],
           Claimed token)
      | Some r \<Rightarrow>
          if ol_status r = Sent then (rows, AlreadySent (ol_ref r))
          else if ol_status r = Failed \<or> now - ol_updated r > STALE_PENDING_MS
          then (sql_update (\<lambda>r. row_key r = k)
                  (\<lambda>r. r\<lparr>ol_status := Pending, ol_token := Some token, ol_updated := now\<rparr>) rows,
                Claimed token)
          else (rows, InFlight))"

text \<open>\<open>WHERE connection_id = ? AND idempotency_key = ? AND claim_token = ?\<close>.\<close>

definition holds_claim :: "string \<times> string \<Rightarrow> string \<Rightarrow> out_row \<Rightarrow> bool" where
  "holds_claim k token r \<longleftrightarrow> row_key r = k \<and> ol_token r = Some token"

definition markSent ::
  "time \<Rightarrow> string \<times> string \<Rightarrow> string \<Rightarrow> string \<Rightarrow> string \<Rightarrow> out_row list \<Rightarrow> out_row list \<times> bool" where
  "markSent now k token chat ref rows =
     (sql_update (holds_claim k token)
        (\<lambda>r. r\<lparr>ol_status := Sent, ol_chat := Some chat, ol_ref := Some ref, ol_updated := now\<rparr>) rows,
      sql_any (holds_claim k token) rows)"

definition markRelayed ::
  "time \<Rightarrow> string \<times> string \<Rightarrow> string \<Rightarrow> string \<Rightarrow> out_row list \<Rightarrow> db_error + (out_row list \<times> bool)" where
  "markRelayed now k token chat rows =
     (if fst k = [] \<or> snd k = [] \<or> token = [] \<or> chat = [] then Inl InvalidInput
      else Inr (sql_update (holds_claim k token)
          (\<lambda>r. r\<lparr>ol_status := Sent, ol_chat := Some chat, ol_ref := None, ol_updated := now\<rparr>) rows,
        sql_any (holds_claim k token) rows))"

definition markFailed :: "time \<Rightarrow> string \<times> string \<Rightarrow> string \<Rightarrow> out_row list \<Rightarrow> out_row list \<times> bool" where
  "markFailed now k token rows =
     (sql_update (holds_claim k token) (\<lambda>r. r\<lparr>ol_status := Failed, ol_updated := now\<rparr>) rows,
      sql_any (holds_claim k token) rows)"

definition gateway_key :: "string \<Rightarrow> string" where
  "gateway_key messageId = ''gateway:'' @ messageId"

definition recordGatewayMessage ::
  "time \<Rightarrow> string \<Rightarrow> string \<Rightarrow> string \<Rightarrow> out_row list \<Rightarrow> db_error + out_row list" where
  "recordGatewayMessage now conn chat messageId rows =
     (if conn = [] \<or> chat = [] \<or> messageId = [] then Inl InvalidInput
      else if out_get (conn, gateway_key messageId) rows \<noteq> None then Inr rows
      else Inr (rows @ [\<lparr>ol_connection = conn, ol_key = gateway_key messageId, ol_chat = Some chat,
             ol_ref = Some messageId, ol_status = Sent, ol_token = None,
             ol_created = now, ol_updated = now\<rparr>]))"

text \<open>A stored row without a message ref fails the schema of the result.\<close>

definition isGatewayMessage :: "string \<Rightarrow> string \<Rightarrow> string \<Rightarrow> out_row list \<Rightarrow> db_error + bool" where
  "isGatewayMessage conn chat messageId rows =
     (if conn = [] \<or> chat = [] \<or> messageId = [] then Inl InvalidInput
      else case sql_get (\<lambda>r. row_key r = (conn, gateway_key messageId) \<and> ol_chat r = Some chat) rows of
          None \<Rightarrow> Inr False
        | Some r \<Rightarrow> (case ol_ref r of None \<Rightarrow> Inl InvalidInput | Some m \<Rightarrow> Inr (m = messageId)))"

section \<open>The log as a machine\<close>

datatype out_op =
    Claim time string "string \<times> string"
  | MarkSent time "string \<times> string" string string string
  | MarkRelayed time "string \<times> string" string string
  | MarkFailed time "string \<times> string" string
  | RecordGateway time string string string

fun out_step :: "out_row list \<Rightarrow> out_op \<Rightarrow> out_row list" where
  "out_step rows (Claim now token k) = fst (claim now token k rows)"
| "out_step rows (MarkSent now k token chat ref) = fst (markSent now k token chat ref rows)"
| "out_step rows (MarkRelayed now k token chat) =
     (case markRelayed now k token chat rows of Inl _ \<Rightarrow> rows | Inr r \<Rightarrow> fst r)"
| "out_step rows (MarkFailed now k token) = fst (markFailed now k token rows)"
| "out_step rows (RecordGateway now conn chat m) =
     (case recordGatewayMessage now conn chat m rows of Inl _ \<Rightarrow> rows | Inr rows' \<Rightarrow> rows')"

definition log_inv :: "out_row list \<Rightarrow> bool" where
  "log_inv rows \<longleftrightarrow> unique_key row_key rows"

text \<open>The keys that have been delivered, and what fences one against a failure.\<close>

definition delivered :: "out_row list \<Rightarrow> string \<times> string \<Rightarrow> bool" where
  "delivered rows k \<longleftrightarrow> (case out_get k rows of None \<Rightarrow> False | Some r \<Rightarrow> ol_status r = Sent)"

fun fails_with :: "string \<times> string \<Rightarrow> string \<Rightarrow> out_op \<Rightarrow> bool" where
  "fails_with k token (MarkFailed now k' token') = (k' = k \<and> token' = token)"
| "fails_with k token e = False"

section \<open>Lemmas\<close>

lemma row_key_update [simp]:
  "row_key (r\<lparr>ol_status := a\<rparr>) = row_key r" "row_key (r\<lparr>ol_token := b\<rparr>) = row_key r"
  "row_key (r\<lparr>ol_updated := c\<rparr>) = row_key r" "row_key (r\<lparr>ol_chat := d\<rparr>) = row_key r"
  "row_key (r\<lparr>ol_ref := d\<rparr>) = row_key r"
  by (simp_all add: row_key_def)

lemma out_get_update:
  "(\<And>r. row_key (f r) = row_key r) \<Longrightarrow>
     out_get k (sql_update p f rows) = map_option (\<lambda>r. if p r then f r else r) (out_get k rows)"
  unfolding out_get_def by (rule sql_get_update_key)

lemma out_get_append:
  "out_get k (rows @ [r]) = (case out_get k rows of None \<Rightarrow> if row_key r = k then Some r else None | Some x \<Rightarrow> Some x)"
  by (auto simp: out_get_def sql_get_append sql_get_Cons split: option.splits)

lemma out_get_key: "out_get k rows = Some r \<Longrightarrow> row_key r = k"
  unfolding out_get_def by (auto dest: sql_get_Some)

text \<open>Each operation, read through \<open>out_get\<close>.\<close>

lemma out_get_claim:
  "out_get j (fst (claim now token k rows)) =
     (if j = k then
        (case out_get k rows of
           None \<Rightarrow> Some \<lparr>ol_connection = fst k, ol_key = snd k, ol_chat = None, ol_ref = None,
             ol_status = Pending, ol_token = Some token, ol_created = now, ol_updated = now\<rparr>
         | Some r \<Rightarrow> Some (if ol_status r \<noteq> Sent \<and> (ol_status r = Failed \<or> now - ol_updated r > STALE_PENDING_MS)
             then r\<lparr>ol_status := Pending, ol_token := Some token, ol_updated := now\<rparr> else r))
      else out_get j rows)"
  by (auto simp: claim_def out_get_append out_get_update row_key_def split: option.splits
      dest!: out_get_key)

text \<open>Every other operation, read through \<open>out_get\<close>.\<close>

lemma out_get_step:
  "out_get j (out_step rows (Claim now token k)) = out_get j (fst (claim now token k rows))"
  "out_get j (out_step rows (MarkSent now k token chat ref)) =
     map_option (\<lambda>r. if holds_claim k token r
       then r\<lparr>ol_status := Sent, ol_chat := Some chat, ol_ref := Some ref, ol_updated := now\<rparr> else r)
       (out_get j rows)"
  "out_get j (out_step rows (MarkRelayed now k token chat)) =
     (if fst k = [] \<or> snd k = [] \<or> token = [] \<or> chat = [] then out_get j rows
      else map_option (\<lambda>r. if holds_claim k token r
        then r\<lparr>ol_status := Sent, ol_chat := Some chat, ol_ref := None, ol_updated := now\<rparr> else r)
        (out_get j rows))"
  "out_get j (out_step rows (MarkFailed now k token)) =
     map_option (\<lambda>r. if holds_claim k token r then r\<lparr>ol_status := Failed, ol_updated := now\<rparr> else r)
       (out_get j rows)"
  "out_get j (out_step rows (RecordGateway now conn chat m)) =
     (if conn \<noteq> [] \<and> chat \<noteq> [] \<and> m \<noteq> [] \<and> j = (conn, gateway_key m) \<and> out_get j rows = None
      then Some \<lparr>ol_connection = conn, ol_key = gateway_key m, ol_chat = Some chat,
             ol_ref = Some m, ol_status = Sent, ol_token = None, ol_created = now, ol_updated = now\<rparr>
      else out_get j rows)"
  by (auto simp: markSent_def markRelayed_def markFailed_def recordGatewayMessage_def
      out_get_update out_get_append row_key_def split: option.splits)

lemma log_inv_step: "log_inv rows \<Longrightarrow> log_inv (out_step rows e)"
  unfolding log_inv_def
  by (cases e)
    (auto simp: claim_def markSent_def markRelayed_def markFailed_def recordGatewayMessage_def
      unique_key_append out_get_def sql_get_None row_key_def
      split: option.splits sum.splits if_splits intro!: unique_key_update)

interpretation outlog: machine out_step log_inv
  by unfold_locales (rule log_inv_step)

text \<open>A delivered row: its status and its claim token.\<close>

definition delivered_with :: "string \<times> string \<Rightarrow> string option \<Rightarrow> out_row list \<Rightarrow> bool" where
  "delivered_with k token rows \<longleftrightarrow>
     (case out_get k rows of None \<Rightarrow> False | Some r \<Rightarrow> ol_status r = Sent \<and> ol_token r = token)"

lemma delivered_with_step:
  assumes "delivered_with k t rows" "\<forall>token. t = Some token \<longrightarrow> \<not> fails_with k token e"
  shows "delivered_with k t (out_step rows e)"
  using assms
  by (cases e)
    (auto simp: delivered_with_def out_get_step out_get_claim holds_claim_def
      simp del: out_step.simps dest: out_get_key split: option.splits)

text \<open>A delivered row without a claim token never changes again.\<close>

lemma tokenless_row_step:
  assumes "out_get k rows = Some r" "ol_status r = Sent" "ol_token r = None"
  shows "out_get k (out_step rows e) = Some r"
  using assms
  by (cases e) (auto simp: out_get_step out_get_claim holds_claim_def simp del: out_step.simps)

lemma tokenless_row_run:
  assumes "out_get k rows = Some r" "ol_status r = Sent" "ol_token r = None"
  shows "out_get k (foldl out_step rows es) = Some r"
  using assms by (induction es arbitrary: rows) (simp_all add: tokenless_row_step del: out_step.simps)

text \<open>Fenced operations: whoever holds the claim of a delivered key does not report a failure.\<close>

fun fenced_step :: "(string \<times> string) \<times> string option \<Rightarrow> out_row list \<Rightarrow> out_op \<Rightarrow> out_row list" where
  "fenced_step (k, t) rows e =
     (if \<exists>token \<in> set_option t. fails_with k token e then rows else out_step rows e)"

interpretation delivery: monotone_machine "fenced_step kt" log_inv
    "\<lambda>rows rows'. delivered_with (fst kt) (snd kt) rows \<longrightarrow> delivered_with (fst kt) (snd kt) rows'"
  for kt
  by unfold_locales
    (cases kt, auto intro: log_inv_step delivered_with_step)+

lemma run_fenced:
  "\<forall>e \<in> set es. \<forall>token. t = Some token \<longrightarrow> \<not> fails_with k token e \<Longrightarrow>
     foldl (fenced_step (k, t)) rows es = foldl out_step rows es"
  by (induction es arbitrary: rows) auto

lemma claim_delivered: "delivered_with k t rows \<Longrightarrow> \<exists>ref. claim now token k rows = (rows, AlreadySent ref)"
  by (auto simp: delivered_with_def claim_def split: option.splits)

section \<open>Properties\<close>

text \<open>C32: Exactly-once delivery per key: once the holder of a claim has marked its key sent, no
  later claim of that key is granted, whatever the other senders do in between, as long as the
  holder itself does not then report a failure with the same token.\<close>

theorem delivered_key_never_reclaimed:
  assumes "log_inv rows" "markSent now k token chat ref rows = (rows', True)"
    and "\<forall>e \<in> set es. \<not> fails_with k token e"
  shows "\<exists>ref'. claim now' token' k (foldl out_step rows' es) = (foldl out_step rows' es, AlreadySent ref')"
proof -
  obtain r where r: "r \<in> set rows" "holds_claim k token r"
    using assms(2) by (auto simp: markSent_def sql_any_def list_ex_iff)
  then have "out_get k rows = Some r"
    using sql_get_unique [of row_key rows r] assms(1)
    by (simp add: out_get_def log_inv_def holds_claim_def)
  then have d: "delivered_with k (Some token) rows'"
    using r out_get_step(2) [of k rows now k token chat ref] assms(2)
    by (simp add: delivered_with_def holds_claim_def)
  have "log_inv rows'"
    using log_inv_step [OF assms(1), of "MarkSent now k token chat ref"] assms(2) by simp
  then have "delivered_with k (Some token) (foldl out_step rows' es)"
    using delivery.run_rel [of rows' "(k, Some token)" es] d assms(3) run_fenced [of es "Some token" k rows']
    by simp
  then show ?thesis by (rule claim_delivered)
qed

definition sample_log :: "out_row list" where
  "sample_log = fst (claim 10 ''t1'' (''c'', ''m1'') [])"

theorem delivered_key_never_reclaimed_witness:
  "\<exists>ref rows. claim 999999 ''t3'' (''c'', ''m1'')
     (foldl out_step (fst (markSent 20 (''c'', ''m1'') ''t1'' ''g'' ''r'' sample_log))
       [Claim 500000 ''t2'' (''c'', ''m1''), MarkFailed 600000 (''c'', ''m1'') ''t2'']) = (rows, AlreadySent ref)"
proof -
  have "log_inv sample_log"
    by (simp add: sample_log_def claim_def out_get_def log_inv_def unique_key_def)
  moreover have "markSent 20 (''c'', ''m1'') ''t1'' ''g'' ''r'' sample_log
      = (fst (markSent 20 (''c'', ''m1'') ''t1'' ''g'' ''r'' sample_log), True)"
    by (simp add: markSent_def sample_log_def claim_def out_get_def sql_any_def holds_claim_def row_key_def)
  ultimately show ?thesis
    using delivered_key_never_reclaimed
      [where es = "[Claim 500000 ''t2'' (''c'', ''m1''), MarkFailed 600000 (''c'', ''m1'') ''t2'']"
        and now' = 999999 and token' = "''t3''"]
    by fastforce
qed

text \<open>At most one sender completes a key: after a claim is granted, the terminal writes of
  every other token on that key do nothing, and a second claim is refused while the first is
  fresh, granted when it is more than two minutes old or has failed.\<close>

theorem claim_is_exclusive:
  assumes "log_inv rows" "claim now token k rows = (rows', Claimed t)"
  shows "t = token
    \<and> (\<forall>other. other \<noteq> token \<longrightarrow> snd (markSent n k other c r rows') = False
         \<and> snd (markFailed n k other rows') = False \<and> fst (markSent n k other c r rows') = rows')
    \<and> snd (markSent n k token c r rows') = True
    \<and> (snd (claim later token' k rows') = Claimed token' \<longleftrightarrow> later - now > STALE_PENDING_MS)"
proof -
  have t: "t = token" using assms(2) by (auto simp: claim_def split: option.splits if_splits)
  have inv': "log_inv rows'"
    using log_inv_step [OF assms(1), of "Claim now token k"] assms(2) by simp
  have st: "\<exists>r. out_get k rows' = Some r \<and> ol_status r = Pending \<and> ol_token r = Some token \<and> ol_updated r = now"
    using out_get_claim [of k now token k rows] assms(2)
    by (auto simp: claim_def split: option.splits if_splits)
  then obtain r where r: "out_get k rows' = Some r" "ol_status r = Pending" "ol_token r = Some token"
    "ol_updated r = now" by blast
  have only: "x = r" if "x \<in> set rows'" "row_key x = k" for x
    using that r(1) inv' sql_get_unique [of row_key rows' x] by (simp add: out_get_def log_inv_def)
  have rin: "r \<in> set rows'" "row_key r = k"
    using r(1) sql_get_Some [of "\<lambda>r. row_key r = k" rows' r] by (auto simp: out_get_def)
  have other: "\<not> holds_claim k other x" if "other \<noteq> token" "x \<in> set rows'" for other x
    using only [OF that(2)] that(1) r(3) by (auto simp: holds_claim_def)
  have "sql_update (holds_claim k other) f rows' = rows'" if "other \<noteq> token" for other f
    using other [OF that] by (simp add: sql_update_def map_idI)
  moreover have "sql_any (holds_claim k other) rows' = False" if "other \<noteq> token" for other
    using other [OF that] by (auto simp: sql_any_def list_ex_iff)
  moreover have "sql_any (holds_claim k token) rows'"
    using rin r(3) by (auto simp: sql_any_def list_ex_iff holds_claim_def)
  ultimately show ?thesis
    using t r by (simp add: markSent_def markFailed_def claim_def)
qed

theorem claim_is_exclusive_witness:
  "snd (markSent 5 (''c'', ''m1'') ''t1'' ''g'' ''r'' sample_log) = True
    \<and> snd (claim 120010 ''t2'' (''c'', ''m1'') sample_log) \<noteq> Claimed ''t2''
    \<and> snd (claim 120011 ''t2'' (''c'', ''m1'') sample_log) = Claimed ''t2''"
proof -
  have c: "claim 10 ''t1'' (''c'', ''m1'') [] = (sample_log, Claimed ''t1'')"
    by (simp add: sample_log_def claim_def out_get_def)
  have i: "log_inv []" by (simp add: log_inv_def unique_key_def)
  show ?thesis
    using claim_is_exclusive [OF i c, where later = 120010 and token' = "''t2''"]
      claim_is_exclusive [OF i c, where later = 120011 and token' = "''t2''"]
    by (simp add: STALE_PENDING_MS_def)
qed

text \<open>A message id the gateway reserved before sending is recognised as its own echo in that
  chat by every later check, whatever operations on other keys happen in between.\<close>

theorem gateway_echo_recognised:
  assumes "recordGatewayMessage now conn chat m rows = Inr rows'"
    and "out_get (conn, gateway_key m) rows = None"
  shows "isGatewayMessage conn chat m (foldl out_step rows' es) = Inr True"
proof -
  define r where "r = \<lparr>ol_connection = conn, ol_key = gateway_key m, ol_chat = Some chat,
    ol_ref = Some m, ol_status = Sent, ol_token = None, ol_created = now, ol_updated = now\<rparr>"
  have ne: "conn \<noteq> [] \<and> chat \<noteq> [] \<and> m \<noteq> []"
    using assms(1) by (auto simp: recordGatewayMessage_def split: if_splits)
  have "out_get (conn, gateway_key m) rows' = Some r"
    using out_get_step(5) [of "(conn, gateway_key m)" rows now conn chat m] assms ne by (simp add: r_def)
  then have "out_get (conn, gateway_key m) (foldl out_step rows' es) = Some r"
    by (rule tokenless_row_run) (simp_all add: r_def)
  then have g: "sql_get (\<lambda>x. row_key x = (conn, gateway_key m) \<and> ol_chat x = Some chat)
      (foldl out_step rows' es) = Some r"
    unfolding out_get_def by (rule sql_get_stronger) (simp add: r_def)
  show ?thesis unfolding isGatewayMessage_def g using ne by (simp add: r_def)
qed

theorem gateway_echo_recognised_witness:
  "isGatewayMessage ''c'' ''g'' ''M'' (foldl out_step
      (case recordGatewayMessage 1 ''c'' ''g'' ''M'' [] of Inr rows \<Rightarrow> rows)
      [Claim 2 ''t'' (''c'', gateway_key ''M''), MarkFailed 3 (''c'', gateway_key ''M'') ''t'']) = Inr True"
proof -
  have "recordGatewayMessage 1 ''c'' ''g'' ''M'' []
      = Inr (case recordGatewayMessage 1 ''c'' ''g'' ''M'' [] of Inr rows \<Rightarrow> rows)"
    by (simp add: recordGatewayMessage_def out_get_def)
  then show ?thesis by (rule gateway_echo_recognised) (simp add: out_get_def)
qed

text \<open>The two minute limit is not a lock: a sender that is still working after two minutes
  loses its claim to a second one, so the same key can be sent twice, the first sender's
  terminal write then being refused.\<close>

theorem slow_sender_loses_claim:
  "\<exists>rows1 rows2. claim 10 ''t1'' (''c'', ''m1'') [] = (rows1, Claimed ''t1'')
    \<and> claim 120011 ''t2'' (''c'', ''m1'') rows1 = (rows2, Claimed ''t2'')
    \<and> snd (markSent 120012 (''c'', ''m1'') ''t1'' ''g'' ''r1'' rows2) = False
    \<and> snd (markSent 120013 (''c'', ''m1'') ''t2'' ''g'' ''r2'' rows2) = True"
  by (simp add: claim_def markSent_def out_get_def sql_any_def holds_claim_def row_key_def
      sql_get_Cons sql_update_Cons STALE_PENDING_MS_def)

end
