(* ===== verification/ChatBots.thy ===== *)
theory ChatBots
  imports Credentials Json
begin

text \<open>
  The bot handles and group memberships of \<open>src/storage/chatBotRepo.ts\<close>, with the posting
  identity of \<open>src/promptql/promptqlAdapter.ts\<close> and the tables \<open>chat_bot\<close> and
  \<open>chat_group_membership\<close> of \<open>src/storage/schema.ts\<close>. A key is the pair of connection and chat;
  the schema of every call refuses an empty part of it.
\<close>

section \<open>Data\<close>

datatype posting_identity = ClientIdentity | ShopperIdentity role string

record pending_post =
  pp_identity :: posting_identity
  pp_query :: string
  pp_message_id :: "string option"

record chat_bot =
  cb_key :: "string \<times> string"
  cb_shopper :: "string option"
  cb_thread :: string
  cb_room :: "string option"
  cb_created :: time
  cb_updated :: time
  cb_paused :: "time option"
  cb_pending :: "bytes option"

record membership =
  mb_key :: "string \<times> string"
  mb_present :: bool
  mb_added_by :: "string option"

record chat_db =
  cd_bots :: "chat_bot list"
  cd_members :: "membership list"

definition key_ok :: "string \<times> string \<Rightarrow> bool" where
  "key_ok k \<longleftrightarrow> fst k \<noteq> [] \<and> snd k \<noteq> []"

section \<open>The pending post as JSON\<close>

fun role_name :: "role \<Rightarrow> string" where
  "role_name ShopperRole = ''shopper''"
| "role_name PaRole = ''pa''"

fun identity_json :: "posting_identity \<Rightarrow> json" where
  "identity_json ClientIdentity = JObj [(''role'', JStr ''client'')]"
| "identity_json (ShopperIdentity r s) = JObj [(''role'', JStr (role_name r)), (''shopperId'', JStr s)]"

definition pending_json :: "pending_post \<Rightarrow> json" where
  "pending_json p = JObj ([(''identity'', identity_json (pp_identity p)), (''query'', JStr (pp_query p))]
     @ (case pp_message_id p of None \<Rightarrow> [] | Some m \<Rightarrow> [(''messageId'', JStr m)]))"

text \<open>The strict union \<open>PostingIdentitySchema\<close>.\<close>

definition parse_identity :: "json \<Rightarrow> posting_identity option" where
  "parse_identity j =
     (case j of
        JObj kvs \<Rightarrow>
          (let m = map_of (rev kvs) in
           if set (map fst kvs) = {''role''} \<and> m ''role'' = Some (JStr ''client'')
           then Some ClientIdentity
           else if set (map fst kvs) = {''role'', ''shopperId''} then
             (case (m ''role'', m ''shopperId'') of
                (Some (JStr r), Some (JStr s)) \<Rightarrow>
                  if s = [] then None
                  else if r = ''shopper'' then Some (ShopperIdentity ShopperRole s)
                  else if r = ''pa'' then Some (ShopperIdentity PaRole s) else None
              | _ \<Rightarrow> None)
           else None)
      | _ \<Rightarrow> None)"

text \<open>\<open>PendingPostSchema\<close>: texts that are present are not empty, other fields are dropped.\<close>

definition identity_ok :: "posting_identity \<Rightarrow> bool" where
  "identity_ok i \<longleftrightarrow> (case i of ClientIdentity \<Rightarrow> True | ShopperIdentity r s \<Rightarrow> s \<noteq> [])"

definition pending_ok :: "pending_post \<Rightarrow> bool" where
  "pending_ok p \<longleftrightarrow> identity_ok (pp_identity p) \<and> pp_query p \<noteq> [] \<and> pp_message_id p \<noteq> Some []"

definition parse_pending :: "json \<Rightarrow> pending_post option" where
  "parse_pending j =
     (case j of
        JObj kvs \<Rightarrow>
          (let m = map_of (rev kvs) in
           case (m ''identity'', m ''query'') of
             (Some i, Some (JStr q)) \<Rightarrow>
               (case parse_identity i of
                  None \<Rightarrow> None
                | Some ident \<Rightarrow>
                    if q = [] then None
                    else (case m ''messageId'' of
                        None \<Rightarrow> Some \<lparr>pp_identity = ident, pp_query = q, pp_message_id = None\<rparr>
                      | Some (JStr mid) \<Rightarrow>
                          if mid = [] then None
                          else Some \<lparr>pp_identity = ident, pp_query = q, pp_message_id = Some mid\<rparr>
                      | Some _ \<Rightarrow> None))
           | _ \<Rightarrow> None)
      | _ \<Rightarrow> None)"

section \<open>Operations\<close>

definition bot_row :: "string \<times> string \<Rightarrow> chat_db \<Rightarrow> chat_bot option" where
  "bot_row k db = sql_get (\<lambda>r. cb_key r = k) (cd_bots db)"

definition member_row :: "string \<times> string \<Rightarrow> chat_db \<Rightarrow> membership option" where
  "member_row k db = sql_get (\<lambda>r. mb_key r = k) (cd_members db)"

definition membership_of :: "string \<times> string \<Rightarrow> chat_db \<Rightarrow> db_error + membership option" where
  "membership_of k db = (if key_ok k then Inr (member_row k db) else Inl InvalidInput)"

definition getBot :: "string \<times> string \<Rightarrow> chat_db \<Rightarrow> db_error + chat_bot option" where
  "getBot k db = (if key_ok k then Inr (bot_row k db) else Inl InvalidInput)"

definition merge_member :: "bool \<Rightarrow> string option \<Rightarrow> membership \<Rightarrow> membership" where
  "merge_member present addedBy r =
     r\<lparr>mb_present := present,
       mb_added_by := (if \<not> mb_present r then addedBy
         else case mb_added_by r of Some a \<Rightarrow> Some a | None \<Rightarrow> addedBy)\<rparr>"

definition setMembership ::
  "time \<Rightarrow> string \<times> string \<Rightarrow> bool \<Rightarrow> string option \<Rightarrow> chat_db \<Rightarrow> db_error + chat_db" where
  "setMembership now k present addedBy db =
     (if \<not> key_ok k then Inl InvalidInput
      else Inr (db\<lparr>cd_members := sql_upsert mb_key
                     \<lparr>mb_key = k, mb_present = present, mb_added_by = addedBy\<rparr>
                     (merge_member present addedBy) (cd_members db),
                   cd_bots := sql_update (\<lambda>r. cb_key r = k)
                     (\<lambda>r. r\<lparr>cb_paused := (if present then None else Some now), cb_updated := now\<rparr>)
                     (cd_bots db)\<rparr>))"

text \<open>What a read of the pending post can throw besides a refused key.\<close>

datatype pending_error = DbError db_error | CipherError crypto_error | PostSchemaError

definition pendingPost ::
  "vault option \<Rightarrow> string \<times> string \<Rightarrow> chat_db \<Rightarrow> pending_error + pending_post option" where
  "pendingPost key k db =
     (if \<not> key_ok k then Inl (DbError InvalidInput)
      else case Option.bind (bot_row k db) cb_pending of
          None \<Rightarrow> Inr None
        | Some blob \<Rightarrow>
           (case key of
              None \<Rightarrow> Inl (DbError KeyMissing)
            | Some v \<Rightarrow>
               (case decryptToString (v_unseal v) blob (v_key v) of
                  Inl e \<Rightarrow> Inl (CipherError e)
                | Inr text \<Rightarrow>
                   (case Option.bind (Option.bind text json_parse) parse_pending of
                      None \<Rightarrow> Inl PostSchemaError
                    | Some p \<Rightarrow> Inr (Some p)))))"

definition setPendingPost ::
  "vault option \<Rightarrow> bytes \<Rightarrow> string \<times> string \<Rightarrow> pending_post option \<Rightarrow> chat_db \<Rightarrow> db_error + chat_db" where
  "setPendingPost key iv k post db =
     (if \<not> key_ok k then Inl InvalidInput
      else
        let put = (\<lambda>blob. Inr (db\<lparr>cd_bots := sql_update (\<lambda>r. cb_key r = k)
                     (\<lambda>r. r\<lparr>cb_pending := blob\<rparr>) (cd_bots db)\<rparr>))
        in case post of
             None \<Rightarrow> put None
           | Some p \<Rightarrow>
              (case key of
                 None \<Rightarrow> Inl KeyMissing
               | Some v \<Rightarrow>
                   if \<not> pending_ok p then Inl InvalidInput
                   else put (Some (encrypt_string (v_seal v) iv (jprint (pending_json p)) (v_key v)))))"

definition pauseRelay :: "time \<Rightarrow> string \<times> string \<Rightarrow> chat_db \<Rightarrow> db_error + chat_db" where
  "pauseRelay now k db =
     (if \<not> key_ok k then Inl InvalidInput
      else Inr (db\<lparr>cd_bots := sql_update (\<lambda>r. cb_key r = k)
             (\<lambda>r. r\<lparr>cb_paused := Some now, cb_updated := now\<rparr>) (cd_bots db)\<rparr>))"

text \<open>Only a new shopper bot may replace an ownerless one.\<close>

definition replaces :: "string option \<Rightarrow> string \<Rightarrow> chat_bot \<Rightarrow> bool" where
  "replaces shopper thread r \<longleftrightarrow> cb_shopper r = None \<and> shopper \<noteq> None \<and> cb_thread r \<noteq> thread"

definition merge_bot ::
  "time \<Rightarrow> string option \<Rightarrow> string \<Rightarrow> string option \<Rightarrow> time option \<Rightarrow> chat_bot \<Rightarrow> chat_bot" where
  "merge_bot now shopper thread room paused r =
     r\<lparr>cb_shopper := (if replaces shopper thread r then shopper else cb_shopper r),
       cb_room := (if replaces shopper thread r then room else cb_room r),
       cb_thread := thread, cb_updated := now, cb_paused := paused\<rparr>"

definition upsertBot ::
  "time \<Rightarrow> string \<times> string \<Rightarrow> string option \<Rightarrow> string \<Rightarrow> string option \<Rightarrow> time option \<Rightarrow> chat_db
    \<Rightarrow> db_error + (chat_db \<times> chat_bot)" where
  "upsertBot now k shopper thread room paused db =
     (if \<not> key_ok k \<or> shopper = Some [] \<or> thread = [] then Inl InvalidInput
      else
        let db' = db\<lparr>cd_bots := sql_upsert cb_key
              \<lparr>cb_key = k, cb_shopper = shopper, cb_thread = thread, cb_room = room,
               cb_created = now, cb_updated = now, cb_paused = paused, cb_pending = None\<rparr>
              (merge_bot now shopper thread room paused) (cd_bots db)\<rparr>
        in Inr (db', the (bot_row k db')))"

section \<open>The tables as a machine\<close>

datatype chat_op =
    SetMembership time "string \<times> string" bool "string option"
  | SetPendingPost "vault option" bytes "string \<times> string" "pending_post option"
  | PauseRelay time "string \<times> string"
  | UpsertBot time "string \<times> string" "string option" string "string option" "time option"

definition keep :: "'s \<Rightarrow> 'e + 's \<Rightarrow> 's" where
  "keep s r = (case r of Inl _ \<Rightarrow> s | Inr s' \<Rightarrow> s')"

fun chat_step :: "chat_db \<Rightarrow> chat_op \<Rightarrow> chat_db" where
  "chat_step db (SetMembership now k p a) = keep db (setMembership now k p a db)"
| "chat_step db (SetPendingPost key iv k post) = keep db (setPendingPost key iv k post db)"
| "chat_step db (PauseRelay now k) = keep db (pauseRelay now k db)"
| "chat_step db (UpsertBot now k s t r p) = keep db (map_sum id fst (upsertBot now k s t r p db))"

definition chat_inv :: "chat_db \<Rightarrow> bool" where
  "chat_inv db \<longleftrightarrow> unique_key cb_key (cd_bots db) \<and> unique_key mb_key (cd_members db)"

section \<open>Lemmas\<close>

lemma keep_simps [simp]: "keep s (Inl e) = s" "keep s (Inr t) = t"
  by (simp_all add: keep_def)

lemma merge_key [simp]:
  "cb_key (merge_bot n s t r p b) = cb_key b" "mb_key (merge_member pr a m) = mb_key m"
  by (simp_all add: merge_bot_def merge_member_def)

lemma chat_inv_step: "chat_inv db \<Longrightarrow> chat_inv (chat_step db e)"
  unfolding chat_inv_def
  by (cases e)
    (auto simp: setMembership_def setPendingPost_def pauseRelay_def upsertBot_def Let_def
      split: option.splits intro!: unique_key_update unique_key_upsert)

lemma bot_row_update:
  "(\<And>r. cb_key (f r) = cb_key r) \<Longrightarrow>
     bot_row k (db\<lparr>cd_bots := sql_update (\<lambda>r. cb_key r = j) f (cd_bots db)\<rparr>)
       = (if k = j then map_option f (bot_row k db) else bot_row k db)"
  by (simp add: bot_row_def sql_get_update_at)

lemma bot_row_members [simp]: "bot_row k (db\<lparr>cd_members := m\<rparr>) = bot_row k db"
  by (simp add: bot_row_def)

lemma member_row_bots [simp]: "member_row k (db\<lparr>cd_bots := m\<rparr>) = member_row k db"
  by (simp add: member_row_def)

lemma bot_row_step:
  "bot_row k (chat_step db (SetMembership now j p a)) =
     (if k = j \<and> key_ok j
      then map_option (\<lambda>r. r\<lparr>cb_paused := (if p then None else Some now), cb_updated := now\<rparr>) (bot_row k db)
      else bot_row k db)"
  "bot_row k (chat_step db (PauseRelay now j)) =
     (if k = j \<and> key_ok j then map_option (\<lambda>r. r\<lparr>cb_paused := Some now, cb_updated := now\<rparr>) (bot_row k db)
      else bot_row k db)"
  "bot_row k (chat_step db (UpsertBot now j s t r pa)) =
     (if k = j \<and> key_ok j \<and> s \<noteq> Some [] \<and> t \<noteq> []
      then Some (case bot_row k db of
          None \<Rightarrow> \<lparr>cb_key = j, cb_shopper = s, cb_thread = t, cb_room = r, cb_created = now,
            cb_updated = now, cb_paused = pa, cb_pending = None\<rparr>
        | Some b \<Rightarrow> merge_bot now s t r pa b)
      else bot_row k db)"
  by (auto simp: setMembership_def pauseRelay_def upsertBot_def Let_def bot_row_def
      sql_get_update_at sql_get_upsert)

lemma bot_row_setPending:
  "bot_row k (chat_step db (SetPendingPost key iv j post)) = bot_row k db
    \<or> (\<exists>blob. bot_row k (chat_step db (SetPendingPost key iv j post))
          = map_option (\<lambda>r. r\<lparr>cb_pending := blob\<rparr>) (bot_row k db))"
  by (auto simp: setPendingPost_def Let_def bot_row_update split: option.splits)

lemma member_row_step:
  "member_row k (chat_step db e) =
     (case e of
        SetMembership now j p a \<Rightarrow>
          if k = j \<and> key_ok j
          then Some (case member_row k db of None \<Rightarrow> \<lparr>mb_key = j, mb_present = p, mb_added_by = a\<rparr>
                     | Some m \<Rightarrow> merge_member p a m)
          else member_row k db
      | _ \<Rightarrow> member_row k db)"
  by (cases e)
    (auto simp: setMembership_def setPendingPost_def pauseRelay_def upsertBot_def Let_def
      member_row_def sql_get_upsert
      split: option.splits)

text \<open>The owner and room of a shopper bot.\<close>

definition owned :: "string \<times> string \<Rightarrow> string \<Rightarrow> string option \<Rightarrow> chat_db \<Rightarrow> bool" where
  "owned k s room db \<longleftrightarrow>
     (case bot_row k db of None \<Rightarrow> False | Some b \<Rightarrow> cb_shopper b = Some s \<and> cb_room b = room)"

lemma owned_step:
  assumes "owned k s room db"
  shows "owned k s room (chat_step db e)"
proof (cases e)
  case (SetPendingPost key iv j post)
  then show ?thesis
    using assms bot_row_setPending [of k db key iv j post]
    by (auto simp: owned_def split: option.splits simp del: chat_step.simps)
qed (use assms in \<open>auto simp: owned_def bot_row_step merge_bot_def replaces_def
      simp del: chat_step.simps split: option.splits\<close>)

interpretation ownership: monotone_machine chat_step chat_inv
    "\<lambda>db db'. owned k s room db \<longrightarrow> owned k s room db'" for k s room
  by unfold_locales (auto intro: chat_inv_step owned_step)

text \<open>Who added the gateway to a group it has not left since.\<close>

definition added_by :: "string \<times> string \<Rightarrow> string \<Rightarrow> chat_db \<Rightarrow> bool" where
  "added_by k a db \<longleftrightarrow> (case member_row k db of None \<Rightarrow> False
     | Some m \<Rightarrow> mb_present m \<and> mb_added_by m = Some a)"

fun leaves :: "string \<times> string \<Rightarrow> chat_op \<Rightarrow> bool" where
  "leaves k (SetMembership now j present a) = (j = k \<and> \<not> present)"
| "leaves k e = False"

lemma added_by_step: "added_by k a db \<Longrightarrow> \<not> leaves k e \<Longrightarrow> added_by k a (chat_step db e)"
  by (cases e)
    (auto simp: added_by_def member_row_step merge_member_def simp del: chat_step.simps
      split: option.splits)

lemma parse_identity_json: "identity_ok i \<Longrightarrow> parse_identity (identity_json i) = Some i"
  by (cases i; cases "case i of ShopperIdentity r s \<Rightarrow> r | _ \<Rightarrow> PaRole")
    (auto simp: parse_identity_def identity_ok_def)

lemma parse_pending_json: "pending_ok p \<Longrightarrow> parse_pending (pending_json p) = Some p"
  by (auto simp: parse_pending_def pending_json_def pending_ok_def parse_identity_json
      split: option.splits)

section \<open>Properties\<close>

text \<open>A chat that a shopper owns keeps its owner and its room under every sequence of
  membership events, pauses, pending posts and bot upserts.\<close>

theorem bot_owner_never_transfers:
  assumes "chat_inv db" "bot_row k db = Some b" "cb_shopper b = Some s"
  shows "\<exists>b'. bot_row k (foldl chat_step db es) = Some b' \<and> cb_shopper b' = Some s \<and> cb_room b' = cb_room b"
proof -
  have "owned k s (cb_room b) db" using assms(2,3) by (simp add: owned_def)
  then have "owned k s (cb_room b) (foldl chat_step db es)"
    using ownership.run_rel [OF assms(1)] by blast
  then show ?thesis by (auto simp: owned_def split: option.splits)
qed

definition sample_bots :: chat_db where
  "sample_bots = foldl chat_step \<lparr>cd_bots = [], cd_members = []\<rparr>
     [UpsertBot 1 (''c'', ''g'') None ''t1'' (Some ''common'') None,
      UpsertBot 2 (''c'', ''g'') (Some ''s1'') ''t2'' (Some ''ann'') None]"

lemma sample_bots_row:
  "bot_row (''c'', ''g'') sample_bots = Some \<lparr>cb_key = (''c'', ''g''), cb_shopper = Some ''s1'',
     cb_thread = ''t2'', cb_room = Some ''ann'', cb_created = 1, cb_updated = 2, cb_paused = None,
     cb_pending = None\<rparr>"
  by (simp add: sample_bots_def bot_row_step key_ok_def merge_bot_def replaces_def
      bot_row_def [of _ "\<lparr>cd_bots = [], cd_members = []\<rparr>"] del: chat_step.simps)

lemma sample_bots_inv: "chat_inv sample_bots"
  unfolding sample_bots_def by (rule ownership.run_inv) (simp add: chat_inv_def unique_key_def)

theorem bot_owner_never_transfers_witness:
  "\<exists>b'. bot_row (''c'', ''g'') (foldl chat_step sample_bots
        [UpsertBot 3 (''c'', ''g'') (Some ''s2'') ''t3'' (Some ''bob'') None]) = Some b'
      \<and> cb_shopper b' = Some ''s1'' \<and> cb_room b' = Some ''ann''"
  using bot_owner_never_transfers [OF sample_bots_inv sample_bots_row,
      where s = "''s1''" and es = "[UpsertBot 3 (''c'', ''g'') (Some ''s2'') ''t3'' (Some ''bob'') None]"]
  by simp

text \<open>The adder recorded for a group stays the one of the first add that named one, under
  every sequence of events in which the gateway does not leave the group.\<close>

theorem first_adder_is_kept:
  assumes "member_row k db = Some m" "mb_present m" "mb_added_by m = Some a"
    and "\<forall>e \<in> set es. \<not> leaves k e"
  shows "\<exists>m'. member_row k (foldl chat_step db es) = Some m' \<and> mb_present m' \<and> mb_added_by m' = Some a"
proof -
  have "added_by k a db" using assms(1-3) by (simp add: added_by_def)
  then have "added_by k a (foldl chat_step db es)"
    using assms(4) by (induction es arbitrary: db) (auto intro: added_by_step simp del: chat_step.simps)
  then show ?thesis by (auto simp: added_by_def split: option.splits)
qed

theorem first_adder_is_kept_witness:
  "\<exists>m'. member_row (''c'', ''g'') (foldl chat_step
        \<lparr>cd_bots = [], cd_members = [\<lparr>mb_key = (''c'', ''g''), mb_present = True, mb_added_by = Some ''a''\<rparr>]\<rparr>
        [SetMembership 5 (''c'', ''g'') True (Some ''b'')]) = Some m' \<and> mb_present m' \<and> mb_added_by m' = Some ''a''"
  by (rule first_adder_is_kept
      [where m = "\<lparr>mb_key = (''c'', ''g''), mb_present = True, mb_added_by = Some ''a''\<rparr>"])
    (simp_all add: member_row_def sql_get_Cons)

text \<open>A pending post that is stored for a chat with a bot is read back as it was, under any
  authenticated cipher; one without a bot, or cleared, reads as none; every other chat is as before.\<close>

theorem pending_post_roundtrip:
  assumes "aead (v_seal v) (v_unseal v)" "length iv = IV_LEN"
    and "setPendingPost (Some v) iv k post db = Inr db'"
  shows "pendingPost (Some v) k db' = Inr (if bot_row k db = None then None else post)
    \<and> (\<forall>j key. j \<noteq> k \<longrightarrow> pendingPost key j db' = pendingPost key j db)"
proof -
  define blob where "blob = map_option (\<lambda>p. encrypt_string (v_seal v) iv (jprint (pending_json p)) (v_key v)) post"
  have k: "key_ok k" and ok: "\<forall>p. post = Some p \<longrightarrow> pending_ok p"
    and db': "db' = db\<lparr>cd_bots := sql_update (\<lambda>r. cb_key r = k) (\<lambda>r. r\<lparr>cb_pending := blob\<rparr>) (cd_bots db)\<rparr>"
    using assms(3) by (auto simp: setPendingPost_def Let_def blob_def split: if_splits option.splits)
  have row: "bot_row j db' = (if j = k then map_option (\<lambda>r. r\<lparr>cb_pending := blob\<rparr>) (bot_row j db) else bot_row j db)" for j
    unfolding db' by (rule bot_row_update) simp
  have dec: "Option.bind (Option.bind (Some (jprint (pending_json p))) json_parse) parse_pending = Some p"
    if "post = Some p" for p
    using ok that by (simp add: json_roundtrip parse_pending_json)
  have "pendingPost (Some v) k db' = Inr (if bot_row k db = None then None else post)"
    using k dec decryptToString_encrypt [OF assms(1,2)]
    by (auto simp: pendingPost_def row blob_def split: option.splits)
  moreover have "pendingPost key j db' = pendingPost key j db" if "j \<noteq> k" for j key
    using that by (simp add: pendingPost_def row)
  ultimately show ?thesis by blast
qed

definition sample_post :: pending_post where
  "sample_post = \<lparr>pp_identity = ShopperIdentity PaRole ''s1'', pp_query = ''say \"hi\"'', pp_message_id = None\<rparr>"

theorem pending_post_roundtrip_witness:
  "\<exists>db'. setPendingPost (Some sample_vault) (replicate 12 3) (''c'', ''g'') (Some sample_post) sample_bots = Inr db'
    \<and> pendingPost (Some sample_vault) (''c'', ''g'') db' = Inr (Some sample_post)"
proof -
  have h: "aead (v_seal sample_vault) (v_unseal sample_vault)"
    by (simp add: sample_vault_def plain_aead)
  obtain db' where s: "setPendingPost (Some sample_vault) (replicate 12 3) (''c'', ''g'') (Some sample_post) sample_bots = Inr db'"
    by (simp add: setPendingPost_def key_ok_def pending_ok_def identity_ok_def sample_post_def Let_def)
  from pending_post_roundtrip [OF h _ s] show ?thesis
    using s sample_bots_row by (simp add: IV_LEN_def)
qed

end
