(* ===== verification/MessageStore.thy ===== *)
theory MessageStore
  imports Crypto
begin

text \<open>
  The capture table of \<open>src/storage/messageStore.ts\<close> (\<open>whatsapp_message_store\<close> of
  \<open>src/storage/schema.ts\<close>): every message is stored once, history rows keep an encrypted
  transport envelope until they have been relayed.
\<close>

section \<open>Data\<close>

datatype media_status = MsNone | MsPending | MsReady | MsFailed | MsExpired | MsTooLarge

record captured =
  cm_connection :: string
  cm_chat :: string
  cm_sender :: string
  cm_phone :: "string option"
  cm_message :: string
  cm_ts :: nat
  cm_type :: string
  cm_text :: string
  cm_from_me :: bool

record stored = captured +
  st_history :: bool
  st_envelope :: "bytes option"
  st_media :: media_status
  st_relayed :: "time option"

type_synonym message_key = "string \<times> string \<times> string"

definition st_key :: "('a) stored_scheme \<Rightarrow> message_key" where
  "st_key r = (cm_connection r, cm_chat r, cm_message r)"

text \<open>The schemas: non-empty identifiers, a safe integer time.\<close>

definition captured_ok :: "captured \<Rightarrow> bool" where
  "captured_ok m \<longleftrightarrow> cm_connection m \<noteq> [] \<and> cm_chat m \<noteq> [] \<and> cm_sender m \<noteq> []
     \<and> cm_message m \<noteq> [] \<and> cm_ts m \<le> 9007199254740991"

definition message_key_ok :: "message_key \<Rightarrow> bool" where
  "message_key_ok k \<longleftrightarrow> (case k of (a, b, c) \<Rightarrow> a \<noteq> [] \<and> b \<noteq> [] \<and> c \<noteq> [])"

text \<open>\<open>/^[^@\s]+@g\.us$/\<close>.\<close>

definition group_jid_re :: "string \<Rightarrow> bool" where
  "group_jid_re s \<longleftrightarrow> before_char (CHR ''@'') s \<noteq> [] \<and> list_all (\<lambda>c. \<not> is_ws c) (before_char (CHR ''@'') s)
     \<and> from_char (CHR ''@'') s = ''@g.us''"

section \<open>Operations\<close>

definition insert_message ::
  "captured \<Rightarrow> bytes option \<Rightarrow> media_status \<Rightarrow> stored list \<Rightarrow> db_error + (stored list \<times> bool)" where
  "insert_message m envelope media rows =
     (if \<not> captured_ok m then Inl InvalidInput
      else
        let r = captured.extend m
              \<lparr>st_history = (envelope \<noteq> None), st_envelope = envelope, st_media = media, st_relayed = None\<rparr>
        in if sql_any (\<lambda>x. st_key x = st_key r) rows then Inr (rows, False)
           else Inr (rows @ [r], True))"

definition capture :: "captured \<Rightarrow> stored list \<Rightarrow> db_error + (stored list \<times> bool)" where
  "capture m rows = insert_message m None MsNone rows"

definition captureHistory ::
  "captured \<Rightarrow> bytes \<Rightarrow> media_status \<Rightarrow> stored list \<Rightarrow> db_error + (stored list \<times> bool)" where
  "captureHistory m envelope media rows =
     (if length envelope > 28 then insert_message m (Some envelope) media rows else Inl InvalidInput)"

definition relay :: "time \<Rightarrow> stored \<Rightarrow> stored" where
  "relay now r = r\<lparr>st_relayed := (case st_relayed r of None \<Rightarrow> Some now | Some t \<Rightarrow> Some t)\<rparr>"

definition markMessageRelayed ::
  "time \<Rightarrow> message_key \<Rightarrow> stored list \<Rightarrow> db_error + (stored list \<times> bool)" where
  "markMessageRelayed now k rows =
     (if \<not> message_key_ok k then Inl InvalidInput
      else Inr (sql_update (\<lambda>r. st_key r = k) (relay now) rows, sql_any (\<lambda>r. st_key r = k) rows))"

definition setHistoryMediaStatus ::
  "message_key \<Rightarrow> media_status \<Rightarrow> stored list \<Rightarrow> db_error + stored list" where
  "setHistoryMediaStatus k media rows =
     (if \<not> message_key_ok k then Inl InvalidInput
      else Inr (sql_update (\<lambda>r. st_key r = k \<and> st_history r) (\<lambda>r. r\<lparr>st_media := media\<rparr>) rows))"

definition listUnrelayedHistory :: "string \<Rightarrow> string \<Rightarrow> stored list \<Rightarrow> db_error + stored list" where
  "listUnrelayedHistory conn grp rows =
     (if conn = [] \<or> \<not> group_jid_re grp then Inl InvalidInput
      else Inr (sort_key cm_ts
        (filter (\<lambda>r. cm_connection r = conn \<and> cm_chat r = grp \<and> st_history r \<and> st_relayed r = None) rows)))"

section \<open>The table as a machine\<close>

datatype store_op =
    Capture captured
  | CaptureHistory captured bytes media_status
  | MarkRelayed time message_key
  | SetMedia message_key media_status

fun store_step :: "stored list \<Rightarrow> store_op \<Rightarrow> stored list" where
  "store_step rows (Capture m) = (case capture m rows of Inl _ \<Rightarrow> rows | Inr r \<Rightarrow> fst r)"
| "store_step rows (CaptureHistory m e s) = (case captureHistory m e s rows of Inl _ \<Rightarrow> rows | Inr r \<Rightarrow> fst r)"
| "store_step rows (MarkRelayed now k) = (case markMessageRelayed now k rows of Inl _ \<Rightarrow> rows | Inr r \<Rightarrow> fst r)"
| "store_step rows (SetMedia k s) = (case setHistoryMediaStatus k s rows of Inl _ \<Rightarrow> rows | Inr r \<Rightarrow> r)"

text \<open>One row per message; a history row has its envelope, of more than 28 bytes, a live row none.\<close>

definition stored_ok :: "stored \<Rightarrow> bool" where
  "stored_ok r \<longleftrightarrow> (case st_envelope r of None \<Rightarrow> \<not> st_history r | Some e \<Rightarrow> st_history r \<and> 28 < length e)"

definition store_inv :: "stored list \<Rightarrow> bool" where
  "store_inv rows \<longleftrightarrow> unique_key st_key rows \<and> list_all stored_ok rows"

section \<open>Lemmas\<close>

lemma st_key_update [simp]:
  "st_key (relay now r) = st_key r" "st_key (r\<lparr>st_media := s\<rparr>) = st_key r"
  by (simp_all add: relay_def st_key_def)

lemma stored_ok_update [simp]:
  "stored_ok (relay now r) = stored_ok r" "stored_ok (r\<lparr>st_media := s\<rparr>) = stored_ok r"
  by (simp_all add: relay_def stored_ok_def split: option.splits)

lemma relay_simps [simp]:
  "st_history (relay now r) = st_history r" "\<exists>y. st_relayed (relay now r) = Some y"
  by (simp_all add: relay_def split: option.splits)

lemma insert_message_Inr:
  assumes "insert_message m e s rows = Inr (rows', b)"
  shows "(b \<and> (\<exists>r. rows' = rows @ [r] \<and> captured.truncate r = m \<and> st_envelope r = e \<and> st_history r = (e \<noteq> None)
           \<and> st_relayed r = None \<and> (\<forall>x \<in> set rows. st_key x \<noteq> st_key r)))
       \<or> \<not> b \<and> rows' = rows"
  using assms
  by (auto simp: insert_message_def Let_def sql_any_def list_ex_iff captured.defs split: if_splits)

lemma store_inv_insert:
  assumes "store_inv rows" "insert_message m e s rows = Inr (rows', b)" "\<forall>x. e = Some x \<longrightarrow> 28 < length x"
  shows "store_inv rows'"
  using insert_message_Inr [OF assms(2)] assms(1,3)
  by (auto simp: store_inv_def unique_key_append stored_ok_def split: option.splits)

lemma store_inv_step: "store_inv rows \<Longrightarrow> store_inv (store_step rows e)"
proof (cases e)
  case (Capture m)
  assume "store_inv rows"
  then show ?thesis
    using Capture store_inv_insert [of rows m None MsNone]
    by (auto simp: capture_def split: sum.splits)
next
  case (CaptureHistory m x s)
  assume "store_inv rows"
  then show ?thesis
    using CaptureHistory store_inv_insert [of rows m "Some x" s]
    by (auto simp: captureHistory_def split: sum.splits if_splits)
next
  case (MarkRelayed now k)
  assume "store_inv rows"
  then show ?thesis
    using MarkRelayed
    by (auto simp: markMessageRelayed_def store_inv_def list_all_iff set_sql_update
        intro: unique_key_update split: sum.splits)
next
  case (SetMedia k s)
  assume "store_inv rows"
  then show ?thesis
    using SetMedia
    by (auto simp: setHistoryMediaStatus_def store_inv_def list_all_iff set_sql_update
        intro: unique_key_update split: sum.splits)
qed

text \<open>A row that will never be replayed: live, or relayed already.\<close>

definition settled :: "message_key \<Rightarrow> stored list \<Rightarrow> bool" where
  "settled k rows \<longleftrightarrow> k \<in> st_key ` set rows
     \<and> (\<forall>r \<in> set rows. st_key r = k \<longrightarrow> \<not> st_history r \<or> st_relayed r \<noteq> None)"

lemma settled_insert:
  "settled k rows \<Longrightarrow> insert_message m e s rows = Inr (rows', b) \<Longrightarrow> settled k rows'"
  using insert_message_Inr [of m e s rows rows' b] by (fastforce simp: settled_def)

lemma settled_update:
  assumes "settled k rows" "\<And>r. st_key (f r) = st_key r \<and> st_history (f r) = st_history r"
    "\<And>r. st_relayed r \<noteq> None \<Longrightarrow> st_relayed (f r) \<noteq> None"
  shows "settled k (sql_update p f rows)"
  using assms by (simp add: settled_def key_image_update ball_update)

lemma settled_step: "settled k rows \<Longrightarrow> settled k (store_step rows e)"
  by (cases e)
    (auto simp: capture_def captureHistory_def markMessageRelayed_def setHistoryMediaStatus_def
      intro: settled_insert intro!: settled_update split: sum.splits if_splits)

interpretation history: monotone_machine store_step store_inv
    "\<lambda>rows rows'. settled k rows \<longrightarrow> settled k rows'" for k
  by unfold_locales (auto intro: store_inv_step settled_step)

lemma settled_not_listed:
  "settled k rows \<Longrightarrow> listUnrelayedHistory conn g rows = Inr rs \<Longrightarrow> r \<in> set rs \<Longrightarrow> st_key r \<noteq> k"
  by (auto simp: listUnrelayedHistory_def settled_def split: if_splits)

section \<open>Properties\<close>

text \<open>A message that was first captured live is never replayed as history, and one that has been
  marked relayed is never replayed again, whatever is captured or updated afterwards.\<close>

theorem settled_message_never_replayed:
  assumes "store_inv rows"
    and "capture m rows = Inr (rows', True) \<and> k = (cm_connection m, cm_chat m, cm_message m)
       \<or> markMessageRelayed now k rows = Inr (rows', True)"
    and "listUnrelayedHistory conn g (foldl store_step rows' es) = Inr rs" "r \<in> set rs"
  shows "st_key r \<noteq> k"
proof -
  have "settled k rows' \<and> store_inv rows'"
    using assms(2)
  proof
    assume c: "capture m rows = Inr (rows', True) \<and> k = (cm_connection m, cm_chat m, cm_message m)"
    then obtain x where x: "rows' = rows @ [x]" "captured.truncate x = m" "\<not> st_history x"
        "\<forall>y \<in> set rows. st_key y \<noteq> st_key x"
      using insert_message_Inr [of m None MsNone rows rows' True] by (auto simp: capture_def)
    moreover have "st_key x = k" using x(2) c by (auto simp: st_key_def captured.defs)
    ultimately have "settled k rows'" by (auto simp: settled_def)
    then show ?thesis using c store_inv_step [OF assms(1), of "Capture m"] by simp
  next
    assume c: "markMessageRelayed now k rows = Inr (rows', True)"
    then have r: "rows' = sql_update (\<lambda>r. st_key r = k) (relay now) rows" "k \<in> st_key ` set rows"
      by (auto simp: markMessageRelayed_def sql_any_def list_ex_iff split: if_splits)
    have "st_key ` set rows' = st_key ` set rows" unfolding r by (rule key_image_update) simp
    then have "settled k rows'" using r by (simp add: settled_def) (simp add: ball_update)
    then show ?thesis using c store_inv_step [OF assms(1), of "MarkRelayed now k"] by simp
  qed
  then have "settled k (foldl store_step rows' es)" using history.run_rel by blast
  then show ?thesis using assms(3,4) by (rule settled_not_listed)
qed

definition sample_message :: captured where
  "sample_message = \<lparr>cm_connection = ''c'', cm_chat = ''1@g.us'', cm_sender = ''2@lid'', cm_phone = None,
     cm_message = ''M1'', cm_ts = 5, cm_type = ''text'', cm_text = ''hi'', cm_from_me = False\<rparr>"

lemma group_jid_sample: "group_jid_re ''1@g.us''"
  by (simp add: group_jid_re_def before_char_def from_char_def is_ws_def)

theorem settled_message_never_replayed_witness:
  "\<exists>rows' r. markMessageRelayed 9 (''c'', ''1@g.us'', ''M1'')
      (fst (projr (captureHistory sample_message (replicate 29 0) MsNone []))) = Inr (rows', True)
    \<and> listUnrelayedHistory ''c'' ''1@g.us'' (foldl store_step rows'
        [CaptureHistory (sample_message\<lparr>cm_message := ''M2''\<rparr>) (replicate 29 0) MsNone]) = Inr [r]
    \<and> st_key r \<noteq> (''c'', ''1@g.us'', ''M1'')"
proof -
  define e :: bytes where "e = replicate 29 0"
  have l: "28 < length e" by (simp add: e_def)
  let ?rows = "fst (projr (captureHistory sample_message e MsNone []))"
  obtain rows' where m: "markMessageRelayed 9 (''c'', ''1@g.us'', ''M1'') ?rows = Inr (rows', True)"
    using l by (simp add: captureHistory_def insert_message_def sample_message_def captured_ok_def
        markMessageRelayed_def message_key_ok_def sql_any_def st_key_def captured.defs)
  have i: "store_inv ?rows"
    using l by (simp add: captureHistory_def insert_message_def sample_message_def captured_ok_def
        sql_any_def store_inv_def unique_key_def stored_ok_def captured.defs)
  obtain r where r: "listUnrelayedHistory ''c'' ''1@g.us'' (foldl store_step rows'
        [CaptureHistory (sample_message\<lparr>cm_message := ''M2''\<rparr>) e MsNone]) = Inr [r]"
    using l m by (auto simp: captureHistory_def insert_message_def sample_message_def captured_ok_def
        markMessageRelayed_def message_key_ok_def sql_any_def st_key_def captured.defs relay_def
        listUnrelayedHistory_def group_jid_sample sql_update_Cons)
  have "st_key r \<noteq> (''c'', ''1@g.us'', ''M1'')"
    by (rule settled_message_never_replayed [OF i disjI2 [OF m] r]) simp
  with m r show ?thesis unfolding e_def by blast
qed

text \<open>The replay list of a group is exactly its unrelayed history, oldest first, each message
  once, and every row on it has an envelope long enough to hold a nonce and a tag.\<close>

theorem history_listing_correct:
  assumes "store_inv rows" "listUnrelayedHistory conn g rows = Inr rs"
  shows "set rs = {r \<in> set rows. cm_connection r = conn \<and> cm_chat r = g \<and> st_history r \<and> st_relayed r = None}
    \<and> sorted (map cm_ts rs) \<and> distinct (map cm_message rs)
    \<and> list_all (\<lambda>r. case st_envelope r of None \<Rightarrow> False | Some e \<Rightarrow> IV_LEN + TAG_LEN < length e) rs"
proof -
  let ?p = "\<lambda>r. cm_connection r = conn \<and> cm_chat r = g \<and> st_history r \<and> st_relayed r = None"
  have rs: "rs = sort_key cm_ts (filter ?p rows)"
    using assms(2) by (simp add: listUnrelayedHistory_def split: if_splits)
  have "distinct (map st_key (filter ?p rows))"
    using assms(1) by (simp add: store_inv_def unique_key_def distinct_map_filter)
  then have "distinct (filter ?p rows) \<and> inj_on cm_message (set (filter ?p rows))"
    by (auto simp: distinct_map inj_on_def st_key_def)
  then have "distinct (map cm_message rs)" by (simp add: rs distinct_map)
  moreover have "list_all stored_ok rs"
    using assms(1) by (auto simp: rs store_inv_def list_all_iff)
  ultimately show ?thesis
    by (auto simp: rs list_all_iff stored_ok_def IV_LEN_def TAG_LEN_def split: option.splits)
qed

theorem history_listing_correct_witness:
  "\<exists>rs. listUnrelayedHistory ''c'' ''1@g.us'' [] = Inr rs \<and> set rs = {} \<and> distinct (map cm_message rs)"
proof -
  have "listUnrelayedHistory ''c'' ''1@g.us'' [] = Inr []"
    by (simp add: listUnrelayedHistory_def group_jid_sample)
  moreover have "store_inv []" by (simp add: store_inv_def unique_key_def)
  ultimately show ?thesis using history_listing_correct [of "[]" "''c''" "''1@g.us''" "[]"] by simp
qed

end
