(* ===== verification/Welcome.thy ===== *)
theory Welcome
  imports Shoppers
begin

text \<open>
  The operator welcome of \<open>src/storage/welcomeLog.ts\<close> and \<open>src/domain/welcomeMessage.ts\<close>: the
  delivery log, one row per shopper and connection under a foreign key to the shopper, and
  the recogniser of a pure greeting. The texts contain a dash and an apostrophe outside the
  modelled code units; only their being constant matters and they are not spelled out.
\<close>

section \<open>Greetings\<close>

definition greeting_words :: "string list" where
  "greeting_words = [''hi'', ''hello'', ''hey'', ''hola'', ''salaam'', ''salam'', ''sup'', ''yo'', ''greetings'']"

definition greeting_tail :: "string \<Rightarrow> bool" where
  "greeting_tail s = list_all (\<lambda>c. is_ws c \<or> c \<in> {CHR ''!'', CHR ''.'', CHR '','', CHR ''?''}) s"

text \<open>One alternative of \<open>GREETING_REGEX\<close> followed by its class of closing characters.\<close>

definition word_then_tail :: "string \<Rightarrow> string \<Rightarrow> bool" where
  "word_then_tail w s \<longleftrightarrow> starts_with w s \<and> greeting_tail (drop (length w) s)"

definition good_time :: "string \<Rightarrow> bool" where
  "good_time s \<longleftrightarrow> starts_with ''good'' s \<and> drop 4 s \<noteq> [] \<and> is_ws (hd (drop 4 s))
     \<and> list_ex (\<lambda>w. word_then_tail w (dropWhile is_ws (drop 4 s))) [''morning'', ''afternoon'', ''evening'']"

definition isPureGreeting :: "string \<Rightarrow> bool" where
  "isPureGreeting text =
     (let trimmed = trim text in
      if trimmed = [] then False
      else let s = lowercase trimmed in list_ex (\<lambda>w. word_then_tail w s) greeting_words \<or> good_time s)"

section \<open>The log\<close>

record welcome_row =
  wl_shopper :: string
  wl_connection :: string
  wl_sent :: bool
  wl_sent_at :: "time option"
  wl_feedback :: bool
  wl_feedback_at :: "time option"
  wl_created :: time
  wl_updated :: time

definition wl_key :: "welcome_row \<Rightarrow> string \<times> string" where
  "wl_key r = (wl_shopper r, wl_connection r)"

text \<open>An empty connection id is falsy, as an absent one.\<close>

definition flag_read :: "(welcome_row \<Rightarrow> bool) \<Rightarrow> string \<Rightarrow> string option \<Rightarrow> welcome_row list \<Rightarrow> bool" where
  "flag_read flag shopper conn rows =
     (case (case conn of Some c \<Rightarrow> if c \<noteq> [] then sql_get (\<lambda>r. wl_key r = (shopper, c)) rows
                                     else sql_get (\<lambda>r. wl_shopper r = shopper \<and> flag r) rows
            | None \<Rightarrow> sql_get (\<lambda>r. wl_shopper r = shopper \<and> flag r) rows) of
        None \<Rightarrow> False | Some r \<Rightarrow> flag r)"

definition isWelcomeSent :: "string \<Rightarrow> string option \<Rightarrow> welcome_row list \<Rightarrow> bool" where
  "isWelcomeSent shopper conn rows = flag_read wl_sent shopper conn rows"

definition isFeedbackPromptSent :: "string \<Rightarrow> string option \<Rightarrow> welcome_row list \<Rightarrow> bool" where
  "isFeedbackPromptSent shopper conn rows = flag_read wl_feedback shopper conn rows"

definition getRecord :: "string \<Rightarrow> string \<Rightarrow> welcome_row list \<Rightarrow> welcome_row option" where
  "getRecord shopper conn rows = sql_get (\<lambda>r. wl_key r = (shopper, conn)) rows"

text \<open>An upsert under the foreign key.\<close>

definition wl_upsert ::
  "shopper list \<Rightarrow> welcome_row \<Rightarrow> (welcome_row \<Rightarrow> welcome_row) \<Rightarrow> welcome_row list \<Rightarrow> db_error + welcome_row list" where
  "wl_upsert shoppers new merge rows =
     (if getById (wl_shopper new) shoppers = None then Inl ForeignKeyFailed
      else Inr (sql_upsert wl_key new merge rows))"

definition recordWelcomeSent ::
  "shopper list \<Rightarrow> time \<Rightarrow> string \<Rightarrow> string \<Rightarrow> time option \<Rightarrow> welcome_row list \<Rightarrow> db_error + welcome_row list" where
  "recordWelcomeSent shoppers now shopper conn sentAt rows =
     (let ts = (case sentAt of None \<Rightarrow> now | Some t \<Rightarrow> t) in
      wl_upsert shoppers
        \<lparr>wl_shopper = shopper, wl_connection = conn, wl_sent = True, wl_sent_at = Some ts,
         wl_feedback = False, wl_feedback_at = None, wl_created = now, wl_updated = now\<rparr>
        (\<lambda>r. r\<lparr>wl_sent := True, wl_sent_at := Some ts, wl_updated := now\<rparr>) rows)"

definition recordFeedbackPromptSent ::
  "shopper list \<Rightarrow> time \<Rightarrow> string \<Rightarrow> string \<Rightarrow> time option \<Rightarrow> welcome_row list \<Rightarrow> db_error + welcome_row list" where
  "recordFeedbackPromptSent shoppers now shopper conn sentAt rows =
     (let ts = (case sentAt of None \<Rightarrow> now | Some t \<Rightarrow> t) in
      wl_upsert shoppers
        \<lparr>wl_shopper = shopper, wl_connection = conn, wl_sent = True, wl_sent_at = None,
         wl_feedback = True, wl_feedback_at = Some ts, wl_created = now, wl_updated = now\<rparr>
        (\<lambda>r. r\<lparr>wl_feedback := True, wl_feedback_at := Some ts, wl_updated := now\<rparr>) rows)"

definition markSuppressed ::
  "shopper list \<Rightarrow> time \<Rightarrow> string \<Rightarrow> string \<Rightarrow> welcome_row list \<Rightarrow> db_error + welcome_row list" where
  "markSuppressed shoppers now shopper conn rows =
     wl_upsert shoppers
       \<lparr>wl_shopper = shopper, wl_connection = conn, wl_sent = True, wl_sent_at = None,
        wl_feedback = False, wl_feedback_at = None, wl_created = now, wl_updated = now\<rparr>
       (\<lambda>r. r\<lparr>wl_sent := True, wl_updated := now\<rparr>) rows"

datatype welcome_op =
    WelcomeSent time string string "time option"
  | FeedbackSent time string string "time option"
  | Suppress time string string

fun welcome_call :: "shopper list \<Rightarrow> welcome_row list \<Rightarrow> welcome_op \<Rightarrow> db_error + welcome_row list" where
  "welcome_call shs rows (WelcomeSent now s c t) = recordWelcomeSent shs now s c t rows"
| "welcome_call shs rows (FeedbackSent now s c t) = recordFeedbackPromptSent shs now s c t rows"
| "welcome_call shs rows (Suppress now s c) = markSuppressed shs now s c rows"

definition welcome_step :: "shopper list \<Rightarrow> welcome_row list \<Rightarrow> welcome_op \<Rightarrow> welcome_row list" where
  "welcome_step shs rows e = (case welcome_call shs rows e of Inl _ \<Rightarrow> rows | Inr rows' \<Rightarrow> rows')"

text \<open>One row per shopper and connection; every row has its welcome settled.\<close>

definition welcome_inv :: "welcome_row list \<Rightarrow> bool" where
  "welcome_inv rows \<longleftrightarrow> unique_key wl_key rows \<and> list_all wl_sent rows"

section \<open>Lemmas\<close>

text \<open>Every call is one upsert: its fresh row and its merge.\<close>

fun new_row :: "welcome_op \<Rightarrow> welcome_row" where
  "new_row (WelcomeSent now s c t) =
     \<lparr>wl_shopper = s, wl_connection = c, wl_sent = True,
      wl_sent_at = Some (case t of None \<Rightarrow> now | Some t \<Rightarrow> t),
      wl_feedback = False, wl_feedback_at = None, wl_created = now, wl_updated = now\<rparr>"
| "new_row (FeedbackSent now s c t) =
     \<lparr>wl_shopper = s, wl_connection = c, wl_sent = True, wl_sent_at = None, wl_feedback = True,
      wl_feedback_at = Some (case t of None \<Rightarrow> now | Some t \<Rightarrow> t), wl_created = now, wl_updated = now\<rparr>"
| "new_row (Suppress now s c) =
     \<lparr>wl_shopper = s, wl_connection = c, wl_sent = True, wl_sent_at = None,
      wl_feedback = False, wl_feedback_at = None, wl_created = now, wl_updated = now\<rparr>"

fun merge_row :: "welcome_op \<Rightarrow> welcome_row \<Rightarrow> welcome_row" where
  "merge_row (WelcomeSent now s c t) r =
     r\<lparr>wl_sent := True, wl_sent_at := Some (case t of None \<Rightarrow> now | Some t \<Rightarrow> t), wl_updated := now\<rparr>"
| "merge_row (FeedbackSent now s c t) r =
     r\<lparr>wl_feedback := True, wl_feedback_at := Some (case t of None \<Rightarrow> now | Some t \<Rightarrow> t), wl_updated := now\<rparr>"
| "merge_row (Suppress now s c) r = r\<lparr>wl_sent := True, wl_updated := now\<rparr>"

lemma welcome_call_upsert: "welcome_call shs rows e = wl_upsert shs (new_row e) (merge_row e) rows"
  by (cases e)
    (simp_all add: recordWelcomeSent_def recordFeedbackPromptSent_def markSuppressed_def Let_def fun_eq_iff
      arg_cong2 [where f = "\<lambda>m. wl_upsert shs n m" for n])

lemma welcome_call_Inr:
  "welcome_call shs rows e = Inr rows' \<Longrightarrow> rows' = sql_upsert wl_key (new_row e) (merge_row e) rows"
  by (simp add: welcome_call_upsert wl_upsert_def split: if_splits)

lemma merge_row_facts [simp]:
  "wl_key (merge_row e r) = wl_key r" "wl_sent r \<Longrightarrow> wl_sent (merge_row e r)"
  "wl_feedback r \<Longrightarrow> wl_feedback (merge_row e r)" "wl_sent (new_row e)"
  by (cases e; simp add: wl_key_def)+

lemma list_all_upsert:
  assumes "list_all P rows" "P new" "\<And>r. P r \<Longrightarrow> P (merge r)"
  shows "list_all P (sql_upsert key new merge rows)"
  using assms by (auto simp: sql_upsert_def list_all_iff set_sql_update)

lemma welcome_inv_step: "welcome_inv rows \<Longrightarrow> welcome_inv (welcome_step shs rows e)"
  unfolding welcome_step_def
  by (auto simp: welcome_inv_def intro!: unique_key_upsert list_all_upsert split: sum.splits
      dest!: welcome_call_Inr)

text \<open>What has been recorded of an operator stays recorded.\<close>

definition flags_kept :: "welcome_row list \<Rightarrow> welcome_row list \<Rightarrow> bool" where
  "flags_kept rows rows' \<longleftrightarrow> (\<forall>k r. sql_get (\<lambda>x. wl_key x = k) rows = Some r \<longrightarrow>
     (\<exists>r'. sql_get (\<lambda>x. wl_key x = k) rows' = Some r' \<and> (wl_sent r \<longrightarrow> wl_sent r') \<and> (wl_feedback r \<longrightarrow> wl_feedback r')))"

lemma flags_kept_step: "flags_kept rows (welcome_step shs rows e)"
proof (cases "welcome_call shs rows e")
  case (Inr rows')
  then show ?thesis
    using welcome_call_Inr [OF Inr] by (auto simp: welcome_step_def flags_kept_def sql_get_upsert)
qed (auto simp: welcome_step_def flags_kept_def)

interpretation welcomes: monotone_machine "welcome_step shs" welcome_inv flags_kept for shs
proof
  show "flags_kept s u" if "flags_kept s t" "flags_kept t u" for s t u
    using that unfolding flags_kept_def by metis
qed (auto simp: flags_kept_step welcome_inv_step, simp add: flags_kept_def)

section \<open>Properties\<close>

text \<open>The welcome is settled at most once per operator and connection: once it has been recorded
  as sent or suppressed (or the feedback prompt as sent), it reads as sent under every later
  sequence of records, so no second welcome is due.\<close>

theorem welcome_settled_once:
  assumes "welcome_inv rows" "welcome_call shs rows e = Inr rows'" "conn \<noteq> []"
    and "e \<in> {WelcomeSent now s conn t, Suppress now s conn, FeedbackSent now s conn t}"
  shows "isWelcomeSent s (Some conn) (foldl (welcome_step shs) rows' es)"
proof -
  have inv': "welcome_inv rows'"
    using welcome_inv_step [OF assms(1), of shs e] by (simp add: welcome_step_def assms(2))
  have "wl_key (new_row e) = (s, conn)" using assms(4) by (auto simp: wl_key_def)
  then have "\<exists>r. sql_get (\<lambda>x. wl_key x = (s, conn)) rows' = Some r"
    using welcome_call_Inr [OF assms(2)] by (simp add: sql_get_upsert)
  then obtain r where r: "sql_get (\<lambda>x. wl_key x = (s, conn)) rows' = Some r" "wl_sent r"
    using inv' by (auto simp: welcome_inv_def list_all_iff dest: sql_get_Some)
  then obtain r' where "sql_get (\<lambda>x. wl_key x = (s, conn)) (foldl (welcome_step shs) rows' es) = Some r'" "wl_sent r'"
    using welcomes.run_rel [OF inv', of shs es] unfolding flags_kept_def by metis
  then show ?thesis using assms(3) by (simp add: isWelcomeSent_def flag_read_def)
qed

theorem welcome_settled_once_witness:
  "\<exists>rows'. welcome_call [sample_shopper] [] (WelcomeSent 1 ''s1'' ''c'' None) = Inr rows'
    \<and> isWelcomeSent ''s1'' (Some ''c'') (foldl (welcome_step [sample_shopper]) rows' [FeedbackSent 2 ''s1'' ''c'' None])"
proof -
  obtain rows' where r: "welcome_call [sample_shopper] [] (WelcomeSent 1 ''s1'' ''c'' None) = Inr rows'"
    by (simp add: recordWelcomeSent_def wl_upsert_def getById_def sql_get_Cons sample_shopper_def Let_def)
  have "welcome_inv []" by (simp add: welcome_inv_def unique_key_def)
  from welcome_settled_once [OF this r, where conn = "''c''" and now = 1 and s = "''s1''" and t = None
      and es = "[FeedbackSent 2 ''s1'' ''c'' None]"] r
  show ?thesis by simp
qed

end
