(* ===== verification/ServiceTables.thy ===== *)
theory ServiceTables
  imports Crypto Json
begin

text \<open>
  Three small repositories: the submit and poll correlation of
  \<open>src/storage/mcpWorkflowRepo.ts\<close>, the audit log of \<open>src/storage/auditLog.ts\<close> and the single row
  of settings of \<open>src/storage/gatewaySettingsRepo.ts\<close>.
\<close>

section \<open>Workflows\<close>

datatype workflow_status = Submitted | Done | WfFailed

record workflow =
  wf_id :: string
  wf_connection :: string
  wf_chat :: string
  wf_shopper :: string
  wf_inbound :: string
  wf_remote :: "string option"
  wf_status :: workflow_status
  wf_result :: "string option"
  wf_created :: time
  wf_updated :: time

definition getWorkflow :: "string \<Rightarrow> workflow list \<Rightarrow> workflow option" where
  "getWorkflow i rows = sql_get (\<lambda>r. wf_id r = i) rows"

definition createWorkflow ::
  "time \<Rightarrow> string \<Rightarrow> string \<Rightarrow> string \<Rightarrow> string \<Rightarrow> string \<Rightarrow> string option \<Rightarrow> workflow list
    \<Rightarrow> db_error + (workflow list \<times> workflow)" where
  "createWorkflow now uid conn chat shopper inbound remote rows =
     (let w = \<lparr>wf_id = uid, wf_connection = conn, wf_chat = chat, wf_shopper = shopper,
               wf_inbound = inbound, wf_remote = remote, wf_status = Submitted, wf_result = None,
               wf_created = now, wf_updated = now\<rparr>
      in case sql_insert wf_id w rows of
           Inl e \<Rightarrow> Inl e
         | Inr rows' \<Rightarrow> Inr (rows', the (getWorkflow uid rows')))"

definition markDone :: "time \<Rightarrow> string \<Rightarrow> string \<Rightarrow> workflow list \<Rightarrow> workflow list" where
  "markDone now i result rows =
     sql_update (\<lambda>r. wf_id r = i) (\<lambda>r. r\<lparr>wf_status := Done, wf_result := Some result, wf_updated := now\<rparr>) rows"

definition markWorkflowFailed :: "time \<Rightarrow> string \<Rightarrow> workflow list \<Rightarrow> workflow list" where
  "markWorkflowFailed now i rows =
     sql_update (\<lambda>r. wf_id r = i) (\<lambda>r. r\<lparr>wf_status := WfFailed, wf_updated := now\<rparr>) rows"

datatype workflow_op =
    CreateWorkflow time string string string string string "string option"
  | MarkDone time string string
  | MarkWfFailed time string

fun workflow_step :: "workflow list \<Rightarrow> workflow_op \<Rightarrow> workflow list" where
  "workflow_step rows (CreateWorkflow now u c ch s i r) =
     (case createWorkflow now u c ch s i r rows of Inl _ \<Rightarrow> rows | Inr x \<Rightarrow> fst x)"
| "workflow_step rows (MarkDone now i t) = markDone now i t rows"
| "workflow_step rows (MarkWfFailed now i) = markWorkflowFailed now i rows"

text \<open>Where the answer of a workflow is routed.\<close>

definition route :: "workflow \<Rightarrow> string \<times> string \<times> string \<times> string \<times> string option" where
  "route w = (wf_connection w, wf_chat w, wf_shopper w, wf_inbound w, wf_remote w)"

definition routes_kept :: "workflow list \<Rightarrow> workflow list \<Rightarrow> bool" where
  "routes_kept rows rows' \<longleftrightarrow> (\<forall>i w. getWorkflow i rows = Some w \<longrightarrow>
     (\<exists>w'. getWorkflow i rows' = Some w' \<and> route w' = route w))"

lemma workflow_inv_step: "unique_key wf_id rows \<Longrightarrow> unique_key wf_id (workflow_step rows e)"
  by (cases e)
    (auto simp: createWorkflow_def Let_def markDone_def markWorkflowFailed_def sql_insert_def
      unique_key_append list_ex_iff intro!: unique_key_update split: sum.splits if_splits)

lemma getWorkflow_mark:
  "getWorkflow j (markDone now i t rows) =
     (if j = i then map_option (\<lambda>r. r\<lparr>wf_status := Done, wf_result := Some t, wf_updated := now\<rparr>) (getWorkflow j rows)
      else getWorkflow j rows)"
  "getWorkflow j (markWorkflowFailed now i rows) =
     (if j = i then map_option (\<lambda>r. r\<lparr>wf_status := WfFailed, wf_updated := now\<rparr>) (getWorkflow j rows)
      else getWorkflow j rows)"
  by (simp_all add: getWorkflow_def markDone_def markWorkflowFailed_def sql_get_update_at)

lemma createWorkflow_Inr:
  "createWorkflow now uid conn chat shopper inbound remote rows = Inr (rows', w) \<Longrightarrow>
     getWorkflow j rows' = (case getWorkflow j rows of Some r \<Rightarrow> Some r
       | None \<Rightarrow> if j = uid then Some \<lparr>wf_id = uid, wf_connection = conn, wf_chat = chat, wf_shopper = shopper,
               wf_inbound = inbound, wf_remote = remote, wf_status = Submitted, wf_result = None,
               wf_created = now, wf_updated = now\<rparr> else None)
     \<and> getWorkflow uid rows = None"
proof -
  assume c: "createWorkflow now uid conn chat shopper inbound remote rows = Inr (rows', w)"
  then have n: "getWorkflow uid rows = None"
    by (auto simp: createWorkflow_def Let_def sql_insert_def getWorkflow_def sql_get_None list_ex_iff
        split: if_splits)
  have "rows' = rows @ [\<lparr>wf_id = uid, wf_connection = conn, wf_chat = chat, wf_shopper = shopper,
               wf_inbound = inbound, wf_remote = remote, wf_status = Submitted, wf_result = None,
               wf_created = now, wf_updated = now\<rparr>]"
    using c by (auto simp: createWorkflow_def Let_def sql_insert_def split: if_splits)
  then show ?thesis using n by (simp add: getWorkflow_def sql_get_append sql_get_Cons split: option.splits)
qed

lemma routes_kept_step: "routes_kept rows (workflow_step rows e)"
proof (cases e)
  case (CreateWorkflow now u c ch s i r)
  show ?thesis
  proof (cases "createWorkflow now u c ch s i r rows")
    case (Inr x)
    then show ?thesis
      using createWorkflow_Inr [of now u c ch s i r rows "fst x" "snd x"]
      by (simp add: routes_kept_def CreateWorkflow)
  qed (simp add: routes_kept_def CreateWorkflow)
qed (simp_all add: routes_kept_def getWorkflow_mark route_def)

interpretation workflows: monotone_machine workflow_step "unique_key wf_id" routes_kept
proof
  show "routes_kept s u" if "routes_kept s t" "routes_kept t u" for s t u
    using that unfolding routes_kept_def by metis
qed (auto simp: routes_kept_step workflow_inv_step, simp add: routes_kept_def)

section \<open>Audit log\<close>

datatype audit_action =
    GatewaySetup | ShopperCreate | ShopperDisable | ShopperEnable | CredentialRotate
  | CredentialRevoke | MappingUpsert | MappingDisable | MappingEnable | ConnectionLink
  | ConnectionLoggedOut | InboundRejected

record audit_row =
  al_id :: string
  al_ts :: time
  al_action :: audit_action
  al_actor :: string
  al_subject_type :: "string option"
  al_subject_id :: "string option"
  al_detail :: "string option"
  al_created :: time

record audit_entry =
  ae_id :: string
  ae_ts :: time
  ae_action :: audit_action
  ae_actor :: string
  ae_subject_type :: "string option"
  ae_subject_id :: "string option"
  ae_detail :: "json option"

record audit_opts =
  ao_actor :: "string option"
  ao_subject_type :: "string option"
  ao_subject_id :: "string option"
  ao_detail :: "(string \<times> json) list option"

definition recordAudit ::
  "time \<Rightarrow> string \<Rightarrow> audit_action \<Rightarrow> audit_opts \<Rightarrow> audit_row list \<Rightarrow> db_error + audit_row list" where
  "recordAudit now uid action opts rows =
     sql_insert al_id
       \<lparr>al_id = uid, al_ts = now, al_action = action,
        al_actor = (case ao_actor opts of None \<Rightarrow> ''admin'' | Some a \<Rightarrow> a),
        al_subject_type = ao_subject_type opts, al_subject_id = ao_subject_id opts,
        al_detail = map_option (\<lambda>d. jprint (JObj d)) (ao_detail opts), al_created = now\<rparr> rows"

text \<open>A detail text that is no JSON makes the read throw (\<open>None\<close>). Rows of one time keep their order.\<close>

definition toEntry :: "audit_row \<Rightarrow> audit_entry option" where
  "toEntry r =
     (case al_detail r of
        None \<Rightarrow> Some \<lparr>ae_id = al_id r, ae_ts = al_ts r, ae_action = al_action r, ae_actor = al_actor r,
          ae_subject_type = al_subject_type r, ae_subject_id = al_subject_id r, ae_detail = None\<rparr>
      | Some d \<Rightarrow>
          if d = [] then Some \<lparr>ae_id = al_id r, ae_ts = al_ts r, ae_action = al_action r, ae_actor = al_actor r,
            ae_subject_type = al_subject_type r, ae_subject_id = al_subject_id r, ae_detail = None\<rparr>
          else map_option (\<lambda>j. \<lparr>ae_id = al_id r, ae_ts = al_ts r, ae_action = al_action r, ae_actor = al_actor r,
            ae_subject_type = al_subject_type r, ae_subject_id = al_subject_id r, ae_detail = Some j\<rparr>)
            (json_parse d))"

definition recent :: "nat option \<Rightarrow> audit_row list \<Rightarrow> audit_entry list option" where
  "recent limit rows =
     those (map toEntry (take (case limit of None \<Rightarrow> 100 | Some n \<Rightarrow> n) (sort_key (\<lambda>r. - int (al_ts r)) rows)))"

text \<open>A row the log wrote: its detail is absent or the text of an object.\<close>

definition audit_written :: "audit_row \<Rightarrow> bool" where
  "audit_written r \<longleftrightarrow> (case al_detail r of None \<Rightarrow> True | Some d \<Rightarrow> \<exists>kvs. d = jprint (JObj kvs))"

lemma toEntry_written: "audit_written r \<Longrightarrow> \<exists>e. toEntry r = Some e \<and> ae_id e = al_id r"
  by (auto simp: audit_written_def toEntry_def json_roundtrip simp del: jprint.simps split: option.splits)

lemma those_written:
  "list_all audit_written rows \<Longrightarrow> \<exists>es. those (map toEntry rows) = Some es \<and> map ae_id es = map al_id rows"
  by (induction rows) (auto dest!: toEntry_written)

section \<open>Settings\<close>

record settings_row =
  gs_token :: bytes
  gs_room :: string
  gs_service_account :: "string option"
  gs_created :: time
  gs_updated :: time

record setup_status =
  ss_complete :: bool
  ss_room :: "string option"
  ss_service_account :: "string option"

text \<open>The table has at most the row with id 1: an option.\<close>

definition settings_ok :: "string \<Rightarrow> string \<Rightarrow> string option \<Rightarrow> bool" where
  "settings_ok token room sa \<longleftrightarrow> 8 \<le> length token \<and> length token \<le> 4096 \<and> nonblank token
     \<and> 1 \<le> length room \<and> length room \<le> 80 \<and> nonblank room
     \<and> (case sa of None \<Rightarrow> True | Some s \<Rightarrow> length s \<le> 256)"

definition room_ok :: "string \<Rightarrow> bool" where
  "room_ok room \<longleftrightarrow> 1 \<le> length room \<and> length room \<le> 80 \<and> nonblank room"

text \<open>A stored row is read through its schema.\<close>

definition getRow :: "settings_row option \<Rightarrow> db_error + settings_row option" where
  "getRow tab = (case tab of None \<Rightarrow> Inr None | Some r \<Rightarrow> if room_ok (gs_room r) then Inr (Some r) else Inl InvalidInput)"

definition getStatus :: "settings_row option \<Rightarrow> db_error + setup_status" where
  "getStatus tab = map_sum id (\<lambda>row. case row of
       None \<Rightarrow> \<lparr>ss_complete = False, ss_room = None, ss_service_account = None\<rparr>
     | Some r \<Rightarrow> \<lparr>ss_complete = True, ss_room = Some (gs_room r), ss_service_account = gs_service_account r\<rparr>)
     (getRow tab)"

definition setSettings ::
  "seal_fn \<Rightarrow> bytes \<Rightarrow> bytes \<Rightarrow> time \<Rightarrow> string \<Rightarrow> string \<Rightarrow> string option \<Rightarrow> settings_row option
    \<Rightarrow> db_error + (settings_row \<times> (db_error + setup_status))" where
  "setSettings seal key iv now token room sa tab =
     (if \<not> settings_ok token room sa then Inl InvalidInput
      else
        let r = \<lparr>gs_token = encrypt_string seal iv token key, gs_room = room, gs_service_account = sa,
                 gs_created = (case tab of None \<Rightarrow> now | Some old \<Rightarrow> gs_created old), gs_updated = now\<rparr>
        in Inr (r, getStatus (Some r)))"

definition getCommonRoomName :: "settings_row option \<Rightarrow> db_error + string option" where
  "getCommonRoomName tab = map_sum id (map_option gs_room) (getRow tab)"

definition getClientToken ::
  "unseal_fn \<Rightarrow> bytes \<Rightarrow> settings_row option \<Rightarrow> db_error + (crypto_error + string option) option" where
  "getClientToken unseal key tab =
     map_sum id (map_option (\<lambda>r. decryptToString unseal (gs_token r) key)) (getRow tab)"

lemma settings_room_ok: "settings_ok token room sa \<Longrightarrow> room_ok room"
  by (simp add: settings_ok_def room_ok_def)

section \<open>Properties\<close>

text \<open>A workflow that was created for a message keeps routing to the same connection, chat,
  shopper and message whatever happens to it or to the others afterwards.\<close>

theorem workflow_route_is_durable:
  assumes "unique_key wf_id rows"
    and "createWorkflow now uid conn chat shopper inbound remote rows = Inr (rows', w)"
  shows "\<exists>w'. getWorkflow uid (foldl workflow_step rows' es) = Some w'
    \<and> route w' = (conn, chat, shopper, inbound, remote)"
proof -
  have inv': "unique_key wf_id rows'"
    using workflow_inv_step [OF assms(1), of "CreateWorkflow now uid conn chat shopper inbound remote"] assms(2)
    by simp
  have "\<exists>w. getWorkflow uid rows' = Some w \<and> route w = (conn, chat, shopper, inbound, remote)"
    using createWorkflow_Inr [OF assms(2), of uid] by (simp add: route_def)
  moreover have "routes_kept rows' (foldl workflow_step rows' es)" by (rule workflows.run_rel [OF inv'])
  ultimately show ?thesis unfolding routes_kept_def by metis
qed

theorem workflow_route_is_durable_witness:
  "\<exists>rows' w w'. createWorkflow 1 ''w'' ''c'' ''g'' ''s'' ''m'' None [] = Inr (rows', w)
    \<and> getWorkflow ''w'' (foldl workflow_step rows' [MarkWfFailed 2 ''w'']) = Some w'
    \<and> route w' = (''c'', ''g'', ''s'', ''m'', None)"
proof -
  obtain rows' w where c: "createWorkflow 1 ''w'' ''c'' ''g'' ''s'' ''m'' None [] = Inr (rows', w)"
    by (simp add: createWorkflow_def sql_insert_def Let_def)
  have "unique_key wf_id []" by (simp add: unique_key_def)
  from workflow_route_is_durable [OF this c, of "[MarkWfFailed 2 ''w'']"] c show ?thesis by auto
qed

text \<open>Reading the audit log never fails on what the log wrote, and yields the newest entries,
  newest first, at most the limit of them.\<close>

theorem recent_audit_correct:
  assumes "list_all audit_written rows"
  shows "\<exists>es. recent limit rows = Some es
    \<and> length es = min (length rows) (case limit of None \<Rightarrow> 100 | Some n \<Rightarrow> n)
    \<and> map ae_id es = map al_id (take (length es) (sort_key (\<lambda>r. - int (al_ts r)) rows))"
proof -
  let ?n = "case limit of None \<Rightarrow> 100 | Some n \<Rightarrow> n"
  let ?s = "take ?n (sort_key (\<lambda>r. - int (al_ts r)) rows)"
  have "list_all audit_written ?s"
    using assms by (auto simp: list_all_iff dest: in_set_takeD)
  then obtain es where es: "those (map toEntry ?s) = Some es" "map ae_id es = map al_id ?s"
    using those_written by blast
  then have "length es = length ?s" by (metis length_map)
  then have l: "length es = min (length rows) ?n" by (simp add: min.commute)
  then have "take (length es) (sort_key (\<lambda>r. - int (al_ts r)) rows) = ?s"
    by (simp add: min_def)
  then show ?thesis using es l by (simp add: recent_def)
qed

theorem recent_audit_correct_witness:
  "\<exists>rows es. recordAudit 7 ''a1'' InboundRejected
      \<lparr>ao_actor = None, ao_subject_type = None, ao_subject_id = None, ao_detail = Some [(''reason'', JStr ''x'')]\<rparr> [] = Inr rows
    \<and> recent None rows = Some es \<and> length es = 1"
proof -
  obtain rows where r: "recordAudit 7 ''a1'' InboundRejected
      \<lparr>ao_actor = None, ao_subject_type = None, ao_subject_id = None, ao_detail = Some [(''reason'', JStr ''x'')]\<rparr> [] = Inr rows"
    by (simp add: recordAudit_def sql_insert_def)
  then have "list_all audit_written rows" "length rows = 1"
    by (auto simp: recordAudit_def sql_insert_def audit_written_def simp del: jprint.simps)
  then show ?thesis using r recent_audit_correct [of rows None] by auto
qed

text \<open>Settings are all or nothing: valid input makes the setup complete with exactly that room,
  service account and client token (under any authenticated cipher), keeping the time of the
  first setup; any other input is refused before the row is touched.\<close>

theorem settings_all_or_nothing:
  assumes "aead seal unseal" "length iv = IV_LEN"
  shows "case setSettings seal key iv now token room sa tab of
      Inl e \<Rightarrow> \<not> settings_ok token room sa
    | Inr (r, status) \<Rightarrow> settings_ok token room sa
        \<and> getClientToken unseal key (Some r) = Inr (Some (Inr (Some token)))
        \<and> getCommonRoomName (Some r) = Inr (Some room)
        \<and> status = Inr \<lparr>ss_complete = True, ss_room = Some room, ss_service_account = sa\<rparr>
        \<and> gs_created r = (case tab of None \<Rightarrow> now | Some old \<Rightarrow> gs_created old)"
  using assms
  by (auto simp: setSettings_def Let_def getClientToken_def getCommonRoomName_def getStatus_def getRow_def
      decryptToString_encrypt settings_room_ok split: sum.splits)

theorem settings_all_or_nothing_witness:
  "\<exists>r status. setSettings plain_seal [1] (replicate 12 0) 5 ''12345678'' ''common'' None None = Inr (r, status)
    \<and> getClientToken plain_unseal [1] (Some r) = Inr (Some (Inr (Some ''12345678'')))
    \<and> setSettings plain_seal [1] (replicate 12 0) 5 ''short'' ''common'' None None = Inl InvalidInput"
proof -
  have ok: "settings_ok ''12345678'' ''common'' None"
    by (simp add: settings_ok_def nonblank_def trim_no_ws is_ws_def)
  obtain r status where s: "setSettings plain_seal [1] (replicate 12 0) 5 ''12345678'' ''common'' None None = Inr (r, status)"
    using ok by (simp add: setSettings_def Let_def)
  have n: "\<not> settings_ok ''short'' ''common'' None" by (simp add: settings_ok_def)
  show ?thesis
    using settings_all_or_nothing [OF plain_aead, where iv = "replicate 12 0" and key = "[1]" and now = 5
        and token = "''12345678''" and room = "''common''" and sa = None and tab = None] s n
    by (simp add: IV_LEN_def setSettings_def [of _ _ _ _ "''short''"])
qed

end
