(* ===== verification/EphemeralMedia.thy ===== *)
theory EphemeralMedia
  imports Crypto
begin

text \<open>
  The media bridge of \<open>src/http/ephemeralMedia.ts\<close>: entries under random tokens, with a time
  to live, a budget of fetches and a bound on their number, and the header-safe values it is
  served with. The map is the list of its entries in insertion order; the clock and the random
  token are arguments, one reading of the clock per call.
\<close>

section \<open>Data\<close>

record media_entry =
  em_bytes :: bytes
  em_mime :: string
  em_name :: string
  em_expires :: time
  em_remaining :: "nat option"

record put_input =
  pi_bytes :: bytes
  pi_mime :: string
  pi_name :: string
  pi_ttl :: "nat option"
  pi_max_fetches :: "int option"
  pi_unlimited :: bool

definition DEFAULT_TTL_MS :: nat where "DEFAULT_TTL_MS = 900000"
definition DEFAULT_MAX_FETCHES :: int where "DEFAULT_MAX_FETCHES = 8"
definition MAX_ENTRIES :: nat where "MAX_ENTRIES = 64"

type_synonym media_map = "(string \<times> media_entry) list"

section \<open>Operations\<close>

definition gc :: "time \<Rightarrow> media_map \<Rightarrow> media_map" where
  "gc now m = filter (\<lambda>(_, e). \<not> em_expires e \<le> now) m"

text \<open>\<open>Map.set\<close>: in place for a present key, at the end for a new one.\<close>

definition map_set :: "string \<Rightarrow> 'v \<Rightarrow> (string \<times> 'v) list \<Rightarrow> (string \<times> 'v) list" where
  "map_set k v m = (if k \<in> fst ` set m then map (\<lambda>(k', v'). (k', if k' = k then v else v')) m else m @ [(k, v)])"

definition map_delete :: "string \<Rightarrow> (string \<times> 'v) list \<Rightarrow> (string \<times> 'v) list" where
  "map_delete k m = filter (\<lambda>(k', _). k' \<noteq> k) m"

text \<open>The eviction loop: drop the oldest entry while the map is full.\<close>

definition evict :: "media_map \<Rightarrow> media_map" where
  "evict m = drop (length m - (MAX_ENTRIES - 1)) m"

definition put :: "time \<Rightarrow> string \<Rightarrow> put_input \<Rightarrow> media_map \<Rightarrow> media_map \<times> string" where
  "put now token inp m =
     (let remaining = (if pi_unlimited inp then None
            else Some (nat (max 1 (case pi_max_fetches inp of None \<Rightarrow> DEFAULT_MAX_FETCHES | Some n \<Rightarrow> n))))
      in (map_set token
            \<lparr>em_bytes = pi_bytes inp, em_mime = pi_mime inp, em_name = pi_name inp,
             em_expires = now + (case pi_ttl inp of None \<Rightarrow> DEFAULT_TTL_MS | Some t \<Rightarrow> t),
             em_remaining = remaining\<rparr> (evict (gc now m)), token))"

definition peek :: "time \<Rightarrow> string \<Rightarrow> media_map \<Rightarrow> media_map \<times> media_entry option" where
  "peek now token m =
     (let m = gc now m in
      case map_of m token of
        None \<Rightarrow> (m, None)
      | Some e \<Rightarrow> if em_expires e \<le> now then (map_delete token m, None) else (m, Some e))"

definition take_entry :: "time \<Rightarrow> string \<Rightarrow> media_map \<Rightarrow> media_map \<times> media_entry option" where
  "take_entry now token m =
     (let m = gc now m in
      case map_of m token of
        None \<Rightarrow> (m, None)
      | Some e \<Rightarrow>
          if em_expires e \<le> now then (map_delete token m, None)
          else (case em_remaining e of
              None \<Rightarrow> (m, Some e)
            | Some r \<Rightarrow>
                if r = 0 then (map_delete token m, None)
                else
                  let e' = e\<lparr>em_remaining := Some (r - 1)\<rparr>;
                      m' = map_set token e' m
                  in (if r - 1 = 0 then map_delete token m' else m', Some e')))"

definition media_size :: "time \<Rightarrow> media_map \<Rightarrow> media_map \<times> nat" where
  "media_size now m = (let m = gc now m in (m, length m))"

section \<open>Paths and headers\<close>

definition media_path :: "string \<Rightarrow> string" where
  "media_path token = ''/api/v1/ephemeral-media/'' @ token"

definition ephemeralMediaUrl :: "string \<Rightarrow> string \<Rightarrow> string" where
  "ephemeralMediaUrl base token = rev (dropWhile (\<lambda>c. c = CHR ''/'') (rev base)) @ media_path token"

definition is_hex :: "char \<Rightarrow> bool" where
  "is_hex c = (let n = of_char c :: nat in 48 \<le> n \<and> n \<le> 57 \<or> 97 \<le> n \<and> n \<le> 102)"

definition isEphemeralMediaPath :: "string \<Rightarrow> string option" where
  "isEphemeralMediaPath p =
     (let pre = ''/api/v1/ephemeral-media/''; token = drop (length pre) p in
      if starts_with pre p \<and> length token = 48 \<and> list_all is_hex token then Some token else None)"

definition mime_char :: "char \<Rightarrow> bool" where
  "mime_char c \<longleftrightarrow> is_lower c \<or> is_digit c \<or> c \<in> set ''!#$&^_.+-''"

definition safeContentType :: "string \<Rightarrow> string" where
  "safeContentType mime =
     (let b = mime_base mime;
          l = before_char (CHR ''/'') b; r = from_char (CHR ''/'') b
      in if l \<noteq> [] \<and> list_all mime_char l \<and> 2 \<le> length r \<and> list_all mime_char (tl r)
         then b else ''application/octet-stream'')"

definition name_char :: "char \<Rightarrow> bool" where
  "name_char c \<longleftrightarrow> is_alnum c \<or> c \<in> set ''_.- ()''"

text \<open>\<open>replace(/_+/g, "_")\<close>.\<close>

fun collapse :: "char \<Rightarrow> string \<Rightarrow> string" where
  "collapse c (x # y # s) = (if x = c \<and> y = c then collapse c (y # s) else x # collapse c (y # s))"
| "collapse c s = s"

definition safe_name :: "string \<Rightarrow> string" where
  "safe_name fileName =
     (let s = take 180 (collapse (CHR ''_'') (map (\<lambda>c. if name_char c then c else CHR ''_'') fileName))
      in if s = [] then ''photo'' else s)"

definition contentDispositionInline :: "string \<Rightarrow> string" where
  "contentDispositionInline fileName = ''inline; filename='' @ [CHR 34] @ safe_name fileName @ [CHR 34]"

section \<open>The store as a machine\<close>

datatype media_op = Put time string put_input | Peek time string | Take time string | Size time

fun media_step :: "media_map \<Rightarrow> media_op \<Rightarrow> media_map" where
  "media_step m (Put now tok inp) = fst (put now tok inp m)"
| "media_step m (Peek now tok) = fst (peek now tok m)"
| "media_step m (Take now tok) = fst (take_entry now tok m)"
| "media_step m (Size now) = fst (media_size now m)"

definition media_inv :: "media_map \<Rightarrow> bool" where
  "media_inv m \<longleftrightarrow> distinct (map fst m) \<and> length m \<le> MAX_ENTRIES
     \<and> list_all (\<lambda>(_, e). em_remaining e \<noteq> Some 0) m"

text \<open>The successful body deliveries of one token in a run.\<close>

fun deliveries :: "string \<Rightarrow> media_map \<Rightarrow> media_op list \<Rightarrow> nat" where
  "deliveries tok m [] = 0"
| "deliveries tok m (e # es) =
     (case e of
        Take now t \<Rightarrow> if t = tok \<and> snd (take_entry now t m) \<noteq> None then 1 else 0
      | _ \<Rightarrow> 0) + deliveries tok (media_step m e) es"

fun puts_token :: "string \<Rightarrow> media_op \<Rightarrow> bool" where
  "puts_token tok (Put now t inp) = (t = tok)"
| "puts_token tok e = False"

section \<open>Lemmas\<close>

lemma map_of_filter_snd:
  "distinct (map fst m) \<Longrightarrow> map_of (filter (\<lambda>(k, v). P k v) m) k
     = (case map_of m k of None \<Rightarrow> None | Some v \<Rightarrow> if P k v then Some v else None)"
  by (induction m) (auto simp: map_of_eq_None_iff split: option.splits)

lemma map_fst_set [simp]:
  "fst ` set (map_set k v m) = insert k (fst ` set m)"
  by (force simp: map_set_def image_iff)

lemma distinct_map_set [simp]: "distinct (map fst m) \<Longrightarrow> distinct (map fst (map_set k v m))"
  by (auto simp: map_set_def case_prod_unfold comp_def)

lemma map_of_map_set [simp]: "map_of (map_set k v m) k' = (if k' = k then Some v else map_of m k')"
proof -
  have "map_of (map (\<lambda>(k', v'). (k', if k' = k then v else v')) m) k'
      = (if k' = k then map_option (\<lambda>_. v) (map_of m k') else map_of m k')"
    by (induction m) auto
  then show ?thesis
    by (auto simp: map_set_def map_add_def dom_map_of_conv_image_fst [symmetric] domIff split: option.splits)
qed

lemma length_map_set: "length (map_set k v m) \<le> Suc (length m)"
  by (simp add: map_set_def)

lemma length_map_set_present: "k \<in> fst ` set m \<Longrightarrow> length (map_set k v m) = length m"
  by (simp add: map_set_def)

lemma set_map_set: "x \<in> set (map_set k v m) \<Longrightarrow> x = (k, v) \<or> x \<in> set m"
  by (auto simp: map_set_def split: if_splits)

lemma map_of_gc:
  "distinct (map fst m) \<Longrightarrow> map_of (gc now m) k
     = (case map_of m k of None \<Rightarrow> None | Some e \<Rightarrow> if em_expires e \<le> now then None else Some e)"
  unfolding gc_def by (subst map_of_filter_snd) (auto split: option.splits)

lemma gc_facts:
  "distinct (map fst m) \<Longrightarrow> distinct (map fst (gc now m))" "length (gc now m) \<le> length m"
  "set (gc now m) \<subseteq> set m"
  by (auto simp: gc_def distinct_map_filter)

lemma map_delete_facts:
  "distinct (map fst m) \<Longrightarrow> distinct (map fst (map_delete k m))" "length (map_delete k m) \<le> length m"
  "set (map_delete k m) \<subseteq> set m"
  by (auto simp: map_delete_def distinct_map_filter)

lemma map_of_map_delete:
  "distinct (map fst m) \<Longrightarrow> map_of (map_delete k m) k' = (if k' = k then None else map_of m k')"
  unfolding map_delete_def by (subst map_of_filter_snd) (auto split: option.splits)

lemma evict_facts:
  "distinct (map fst m) \<Longrightarrow> distinct (map fst (evict m))" "length (evict m) \<le> MAX_ENTRIES - 1"
  "set (evict m) \<subseteq> set m"
  by (auto simp: evict_def drop_map [symmetric] dest: in_set_dropD)

lemma map_of_evict:
  assumes "distinct (map fst m)"
  shows "map_of (evict m) k = None \<or> map_of (evict m) k = map_of m k"
  using assms evict_facts(1) [OF assms] evict_facts(3) [of m]
  by (cases "map_of (evict m) k") (auto dest!: map_of_SomeD)

lemma media_inv_step: "media_inv m \<Longrightarrow> media_inv (media_step m e)"
proof (cases e)
  case (Put now tok inp)
  assume inv: "media_inv m"
  then show ?thesis
    using evict_facts [of "gc now m"] gc_facts [where m = m and now = now]
      length_map_set [of tok _ "evict (gc now m)"]
    by (force simp: Put put_def Let_def media_inv_def MAX_ENTRIES_def list_all_iff
        dest: set_map_set intro: le_trans)
next
  case (Take now tok)
  assume inv: "media_inv m"
  define g where "g = gc now m"
  have g: "media_inv g"
    using inv gc_facts [where m = m and now = now] by (auto simp: media_inv_def g_def list_all_iff)
  have d: "media_inv (map_delete tok x)" if "media_inv x" for x
    using that map_delete_facts [where m = x and k = tok] by (auto simp: media_inv_def list_all_iff)
  have s: "media_inv (map_set tok v g)" if "map_of g tok = Some w" "em_remaining v \<noteq> Some 0" for v w
  proof -
    have "tok \<in> fst ` set g" using map_of_SomeD [OF that(1)] by force
    then show ?thesis
      using g that(2) length_map_set_present [of tok g v] set_map_set [of _ tok v g]
      by (fastforce simp: media_inv_def list_all_iff)
  qed
  have z: "media_inv (map_delete tok (map_set tok v g))" if "map_of g tok = Some w" for v w
  proof -
    have "tok \<in> fst ` set g" using map_of_SomeD [OF that] by force
    then have "length (map_delete tok (map_set tok v g)) \<le> length g"
      using map_delete_facts(2) [of tok "map_set tok v g"] by (simp add: length_map_set_present)
    moreover have "set (map_delete tok (map_set tok v g)) \<subseteq> set g"
      using set_map_set [of _ tok v g] by (fastforce simp: map_delete_def)
    ultimately show ?thesis
      using g map_delete_facts(1) [of "map_set tok v g" tok] by (auto simp: media_inv_def list_all_iff)
  qed
  show ?thesis
    using g d [OF g] s z
    by (auto simp: Take take_entry_def Let_def g_def [symmetric] split: option.splits)
next
  case (Peek now tok)
  assume inv: "media_inv m"
  then show ?thesis
    using gc_facts [where m = m and now = now] map_delete_facts [where m = "gc now m" and k = tok]
    by (auto simp: Peek peek_def Let_def media_inv_def list_all_iff split: option.splits)
next
  case (Size now)
  assume inv: "media_inv m"
  then show ?thesis
    using gc_facts [where m = m and now = now] by (auto simp: Size media_size_def Let_def media_inv_def list_all_iff)
qed

interpretation media: machine media_step media_inv
  by unfold_locales (rule media_inv_step)

text \<open>The budget of a token: its remaining fetches, none once it is gone.\<close>

definition budget :: "string \<Rightarrow> media_map \<Rightarrow> nat" where
  "budget tok m = (case map_of m tok of None \<Rightarrow> 0
     | Some e \<Rightarrow> (case em_remaining e of None \<Rightarrow> 0 | Some r \<Rightarrow> r))"

definition limited :: "string \<Rightarrow> media_map \<Rightarrow> bool" where
  "limited tok m \<longleftrightarrow> (case map_of m tok of None \<Rightarrow> True | Some e \<Rightarrow> em_remaining e \<noteq> None)"

lemma budget_step:
  assumes "media_inv m" "limited tok m" "\<not> puts_token tok e"
  shows "limited tok (media_step m e)
    \<and> (case e of Take now t \<Rightarrow> if t = tok \<and> snd (take_entry now t m) \<noteq> None then 1 else 0 | _ \<Rightarrow> 0)
        + budget tok (media_step m e) \<le> budget tok m"
proof -
  have d: "distinct (map fst m)" using assms(1) by (simp add: media_inv_def)
  note dg = gc_facts(1) [OF d]
  show ?thesis
  proof (cases e)
    case (Put now t inp)
    then show ?thesis
      using assms(2,3) map_of_evict [OF dg, of now tok] map_of_gc [OF d, of now tok]
      by (auto simp: put_def Let_def limited_def budget_def split: option.splits if_splits)
  next
    case (Peek now t)
    then show ?thesis
      using assms(2) map_of_gc [OF d, of now tok]
      by (auto simp: peek_def Let_def limited_def budget_def map_of_map_delete dg
          split: option.splits if_splits)
  next
    case (Take now t)
    then show ?thesis
      using assms(2) map_of_gc [OF d, of now tok] map_of_gc [OF d, of now t]
      by (auto simp: take_entry_def Let_def limited_def budget_def map_of_map_delete dg
          split: option.splits if_splits)
  next
    case (Size now)
    then show ?thesis
      using assms(2) map_of_gc [OF d, of now tok]
      by (auto simp: media_size_def Let_def limited_def budget_def split: option.splits if_splits)
  qed
qed

lemma deliveries_budget:
  assumes "media_inv m" "limited tok m" "\<forall>e \<in> set es. \<not> puts_token tok e"
  shows "deliveries tok m es \<le> budget tok m"
  using assms
proof (induction es arbitrary: m)
  case (Cons e es)
  have "limited tok (media_step m e)"
    "(case e of Take now t \<Rightarrow> if t = tok \<and> snd (take_entry now t m) \<noteq> None then 1 else 0 | _ \<Rightarrow> 0)
        + budget tok (media_step m e) \<le> budget tok m"
    using budget_step [OF Cons.prems(1,2), of e] Cons.prems(3) by auto
  moreover have "deliveries tok (media_step m e) es \<le> budget tok (media_step m e)"
    using Cons.prems calculation(1) by (intro Cons.IH media_inv_step) auto
  ultimately show ?case by simp
qed simp

lemma collapse_set: "set (collapse c s) \<subseteq> set s"
  by (induction c s rule: collapse.induct) auto

section \<open>Properties\<close>

text \<open>After any operations the bridge holds at most 64 entries, one per token, each with fetches
  left; reading its size drops the expired ones.\<close>

theorem bridge_is_bounded:
  "length (foldl media_step [] es) \<le> 64 \<and> distinct (map fst (foldl media_step [] es))
    \<and> list_all (\<lambda>(_, e). em_remaining e \<noteq> Some 0) (foldl media_step [] es)
    \<and> list_all (\<lambda>(_, e). now < em_expires e) (fst (media_size now (foldl media_step [] es)))"
proof -
  have "media_inv []" by (simp add: media_inv_def)
  then have "media_inv (foldl media_step [] es)" by (rule media.run_inv)
  then show ?thesis
    by (auto simp: media_inv_def MAX_ENTRIES_def media_size_def gc_def Let_def list_all_iff)
qed

text \<open>C40: A token put with a fetch budget delivers its bytes at most that many times (once if the
  budget is not positive, eight times by default), whatever else happens to the bridge, as long
  as the token is not issued again.\<close>

theorem token_delivers_at_most_budget:
  assumes "media_inv m" "\<not> pi_unlimited inp" "put now tok inp m = (m', tok)"
    and "\<forall>e \<in> set es. \<not> puts_token tok e"
  shows "int (deliveries tok m' es) \<le> max 1 (case pi_max_fetches inp of None \<Rightarrow> 8 | Some n \<Rightarrow> n)"
proof -
  have m': "m' = media_step m (Put now tok inp)" using assms(3) by simp
  have e: "\<exists>e. map_of m' tok = Some e
      \<and> em_remaining e = Some (nat (max 1 (case pi_max_fetches inp of None \<Rightarrow> 8 | Some n \<Rightarrow> n)))"
    using assms(2,3) by (auto simp: put_def Let_def DEFAULT_MAX_FETCHES_def split: option.splits)
  have "deliveries tok m' es \<le> budget tok m'"
    using assms(1,4) e unfolding m'
    by (intro deliveries_budget media_inv_step) (auto simp: limited_def)
  moreover have "int (budget tok m') = max 1 (case pi_max_fetches inp of None \<Rightarrow> 8 | Some n \<Rightarrow> n)"
    using e by (auto simp: budget_def)
  ultimately show ?thesis by simp
qed

definition sample_put :: put_input where
  "sample_put = \<lparr>pi_bytes = [1, 2], pi_mime = ''image/jpeg'', pi_name = ''a.jpg'', pi_ttl = None,
     pi_max_fetches = Some 1, pi_unlimited = False\<rparr>"

theorem token_delivers_at_most_budget_witness:
  "deliveries ''t'' (fst (put 5 ''t'' sample_put [])) [Take 6 ''t'', Take 7 ''t''] \<le> 1
    \<and> snd (take_entry 6 ''t'' (fst (put 5 ''t'' sample_put []))) \<noteq> None"
proof -
  have p: "put 5 ''t'' sample_put [] = (fst (put 5 ''t'' sample_put []), ''t'')"
    by (simp add: put_def Let_def)
  have i: "media_inv []" by (simp add: media_inv_def)
  have "snd (take_entry 6 ''t'' (fst (put 5 ''t'' sample_put []))) \<noteq> None"
    by (simp add: put_def take_entry_def gc_def evict_def map_set_def sample_put_def Let_def
        DEFAULT_TTL_MS_def)
  then show ?thesis
    using token_delivers_at_most_budget [OF i _ p, where es = "[Take 6 ''t'', Take 7 ''t'']"]
    by (simp add: sample_put_def)
qed

text \<open>The route of the bridge accepts exactly the paths its own urls have, for tokens of 48
  lower case hexadecimal digits, and what it puts in a response header can neither end the
  header line nor leave the quoted file name.\<close>

theorem media_headers_and_paths_safe:
  "(isEphemeralMediaPath p = Some token \<longleftrightarrow> p = media_path token \<and> length token = 48 \<and> list_all is_hex token)
    \<and> suffix (media_path token) (ephemeralMediaUrl base token)
    \<and> list_all (\<lambda>c. mime_char c \<or> c = CHR ''/'') (safeContentType mime)
    \<and> list_all name_char (safe_name name) \<and> safe_name name \<noteq> [] \<and> length (safe_name name) \<le> 180"
proof -
  have "isEphemeralMediaPath p = Some token \<longleftrightarrow> p = media_path token \<and> length token = 48 \<and> list_all is_hex token"
    by (auto simp: isEphemeralMediaPath_def media_path_def starts_with_prefix prefix_def Let_def)
  moreover have "list_all (\<lambda>c. mime_char c \<or> c = CHR ''/'') (safeContentType mime)"
  proof -
    have split: "b = before_char (CHR ''/'') b @ from_char (CHR ''/'') b" for b
      by (simp add: before_char_def from_char_def)
    have slash: "from_char (CHR ''/'') b = [] \<or> hd (from_char (CHR ''/'') b) = CHR ''/''" for b
      using hd_dropWhile [of "\<lambda>x. x \<noteq> CHR ''/''" b] by (auto simp: from_char_def)
    have "list_all (\<lambda>c. mime_char c \<or> c = CHR ''/'') b"
      if "list_all mime_char (before_char (CHR ''/'') b)" "list_all mime_char (tl (from_char (CHR ''/'') b))" for b
      using that slash [of b] by (subst split) (cases "from_char (CHR ''/'') b", auto simp: list_all_iff)
    then show ?thesis
      by (auto simp: safeContentType_def Let_def) (simp_all add: mime_char_def is_lower_def)
  qed
  moreover have "list_all name_char (safe_name name)"
    using collapse_set [of "CHR ''_''" "map (\<lambda>c. if name_char c then c else CHR ''_'') name"]
    by (auto simp: safe_name_def Let_def list_all_iff name_char_def is_alnum_def is_lower_def
        dest!: in_set_takeD split: if_splits)
  moreover have "safe_name name \<noteq> [] \<and> length (safe_name name) \<le> 180"
    by (simp add: safe_name_def Let_def)
  moreover have "suffix (media_path token) (ephemeralMediaUrl base token)"
    by (simp add: ephemeralMediaUrl_def suffix_def)
  ultimately show ?thesis by blast
qed

end
