(* ===== verification/AntiBan.thy ===== *)
theory AntiBan
  imports Prelude
begin

text \<open>
  The send pacing of \<open>src/whatsapp/antiBan.ts\<close>: the token bucket, the delays, and the queue
  that bounds the backlog of a connection and serialises the sends of a chat.

  Doubles are exact rationals. A promise chain per (connection, chat) is the subsequence of
  the pending jobs with that key: a job is started only when it is the first of its key, as
  \<open>then\<close> runs it when the previous one has settled. What the event loop may do next is an
  event; an event that is not enabled changes nothing. \<open>Math.random()\<close> and the clock are
  arguments of the events.
\<close>

section \<open>The token bucket\<close>

record bucket =
  bk_rate :: rat
  bk_capacity :: rat
  bk_tokens :: rat
  bk_last :: time

definition new_bucket :: "rat \<Rightarrow> rat \<Rightarrow> time \<Rightarrow> bucket" where
  "new_bucket rate capacity now =
     \<lparr>bk_rate = rate, bk_capacity = capacity, bk_tokens = capacity, bk_last = now\<rparr>"

definition refill :: "time \<Rightarrow> bucket \<Rightarrow> bucket" where
  "refill now b =
     (let elapsedSec = (of_nat now - of_nat (bk_last b)) / 1000 in
      b\<lparr>bk_tokens := min (bk_capacity b) (bk_tokens b + elapsedSec * bk_rate b), bk_last := now\<rparr>)"

text \<open>One turn of the loop of \<open>take\<close>: the token is consumed, or the time to sleep.\<close>

definition take_turn :: "time \<Rightarrow> bucket \<Rightarrow> bucket \<times> nat option" where
  "take_turn now b =
     (let b = refill now b in
      if bk_tokens b \<ge> 1 then (b\<lparr>bk_tokens := bk_tokens b - 1\<rparr>, None)
      else
        let needed = 1 - bk_tokens b;
            waitMs = nat \<lceil>needed / bk_rate b * 1000\<rceil>
        in (b, Some (max waitMs 25)))"

text \<open>The loop, with fuel; a lone taker sleeps exactly as long as it asked for.\<close>

fun take_loop :: "nat \<Rightarrow> time \<Rightarrow> bucket \<Rightarrow> (time \<times> bucket) option" where
  "take_loop 0 now b = None"
| "take_loop (Suc n) now b =
     (case take_turn now b of
        (b', None) \<Rightarrow> Some (now, b')
      | (b', Some w) \<Rightarrow> take_loop n (now + w) b')"

section \<open>Delays\<close>

record ab_options =
  ao_rate :: rat
  ao_warmup_days :: rat
  ao_pa_min :: "rat option"
  ao_pa_max :: "rat option"
  ao_max_pending :: "int option"

definition warmupMultiplier :: "ab_options \<Rightarrow> time \<Rightarrow> time option \<Rightarrow> rat" where
  "warmupMultiplier opts now linkedAt =
     (case linkedAt of
        None \<Rightarrow> 1
      | Some l \<Rightarrow>
          if ao_warmup_days opts \<le> 0 then 1
          else
            let ageDays = (of_nat now - of_nat l) / 86400000 in
            if ageDays \<ge> ao_warmup_days opts then 1
            else 1 + 3 / 2 * (1 - ageDays / ao_warmup_days opts))"

definition typingDelay :: "rat \<Rightarrow> nat \<Rightarrow> rat \<Rightarrow> nat" where
  "typingDelay random textLength warmup =
     (let raw = 400 + of_nat (min textLength 400) * 18;
          jitter = 7 / 10 + random * (6 / 10)
      in nat (js_round (raw * jitter * warmup)))"

definition paDelay :: "ab_options \<Rightarrow> rat \<Rightarrow> nat" where
  "paDelay opts random =
     (let lo = (case ao_pa_min opts of None \<Rightarrow> 2000 | Some x \<Rightarrow> x);
          hi = (case ao_pa_max opts of None \<Rightarrow> 5000 | Some x \<Rightarrow> x)
      in nat (js_round (lo + random * (hi - lo))))"

section \<open>The queue\<close>

record job =
  jb_id :: nat
  jb_connection :: string
  jb_chat :: string
  jb_length :: nat
  jb_pa_reply :: bool
  jb_reaction :: bool
  jb_linked_at :: "time option"

definition chain_key :: "job \<Rightarrow> string \<times> string" where
  "chain_key j = (jb_connection j, jb_chat j)"

datatype phase = Queued | Pausing time | AwaitToken | Composing time | Sending

record ab_state =
  ab_buckets :: "string \<rightharpoonup> bucket"
  ab_pending :: "string \<rightharpoonup> nat"
  ab_jobs :: "(job \<times> phase) list"
  ab_accepted :: "job list"
  ab_sent :: "(time \<times> job) list"
  ab_settled :: "job list"

definition new_queue :: ab_state where
  "new_queue = \<lparr>ab_buckets = Map.empty, ab_pending = Map.empty, ab_jobs = [], ab_accepted = [],
     ab_sent = [], ab_settled = []\<rparr>"

definition max_pending :: "ab_options \<Rightarrow> nat" where
  "max_pending opts = nat (max 1 (case ao_max_pending opts of None \<Rightarrow> 100 | Some n \<Rightarrow> n))"

definition bucketFor :: "ab_options \<Rightarrow> time \<Rightarrow> string \<Rightarrow> ab_state \<Rightarrow> bucket" where
  "bucketFor opts now conn s =
     (case ab_buckets s conn of
        Some b \<Rightarrow> b
      | None \<Rightarrow> let rate = max (ao_rate opts) (5 / 100)
                in new_bucket rate (max 1 (of_int \<lceil>rate\<rceil>)) now)"

text \<open>The job of a key that may run: the first one pending.\<close>

definition head_job :: "string \<times> string \<Rightarrow> ab_state \<Rightarrow> (job \<times> phase) option" where
  "head_job k s = sql_get (\<lambda>(j, p). chain_key j = k) (ab_jobs s)"

fun set_phase :: "string \<times> string \<Rightarrow> phase \<Rightarrow> (job \<times> phase) list \<Rightarrow> (job \<times> phase) list" where
  "set_phase k p [] = []"
| "set_phase k p ((j, q) # js) = (if chain_key j = k then (j, p) # js else (j, q) # set_phase k p js)"

fun drop_job :: "string \<times> string \<Rightarrow> (job \<times> phase) list \<Rightarrow> (job \<times> phase) list" where
  "drop_job k [] = []"
| "drop_job k ((j, q) # js) = (if chain_key j = k then js else (j, q) # drop_job k js)"

text \<open>\<open>enqueue\<close> up to its return: the error \<open>QueueFullError\<close>, or the job at the end of its chain.\<close>

definition enqueue :: "ab_options \<Rightarrow> job \<Rightarrow> ab_state \<Rightarrow> string + ab_state" where
  "enqueue opts j s =
     (let inFlight = (case ab_pending s (jb_connection j) of None \<Rightarrow> 0 | Some n \<Rightarrow> n) in
      if inFlight \<ge> max_pending opts then Inl (jb_connection j)
      else Inr (s\<lparr>ab_pending := (ab_pending s)(jb_connection j \<mapsto> inFlight + 1),
                  ab_jobs := ab_jobs s @ [(j, Queued)], ab_accepted := ab_accepted s @ [j]\<rparr>))"

text \<open>The first part of the work of a job: the pause of a PA reply.\<close>

definition begin_job :: "ab_options \<Rightarrow> time \<Rightarrow> rat \<Rightarrow> string \<times> string \<Rightarrow> ab_state \<Rightarrow> ab_state" where
  "begin_job opts now random k s =
     (case head_job k s of
        Some (j, Queued) \<Rightarrow>
          s\<lparr>ab_jobs := set_phase k (if jb_pa_reply j then Pausing (now + paDelay opts random) else AwaitToken)
                         (ab_jobs s)\<rparr>
      | _ \<Rightarrow> s)"

definition start_send :: "time \<Rightarrow> string \<times> string \<Rightarrow> job \<Rightarrow> ab_state \<Rightarrow> ab_state" where
  "start_send now k j s = s\<lparr>ab_jobs := set_phase k Sending (ab_jobs s), ab_sent := ab_sent s @ [(now, j)]\<rparr>"

text \<open>A turn of \<open>take\<close>; with the token a reaction is sent at once, a text after the typing delay.\<close>

definition try_token :: "ab_options \<Rightarrow> time \<Rightarrow> rat \<Rightarrow> string \<times> string \<Rightarrow> ab_state \<Rightarrow> ab_state" where
  "try_token opts now random k s =
     (case head_job k s of
        Some (j, p) \<Rightarrow>
          if p = AwaitToken \<or> (case p of Pausing t \<Rightarrow> t \<le> now | _ \<Rightarrow> False) then
            (case take_turn now (bucketFor opts now (jb_connection j) s) of
               (b, None) \<Rightarrow>
                 let s' = s\<lparr>ab_buckets := (ab_buckets s)(jb_connection j \<mapsto> b)\<rparr> in
                 if jb_reaction j then start_send now k j s'
                 else s'\<lparr>ab_jobs := set_phase k (Composing (now +
                        typingDelay random (jb_length j) (warmupMultiplier opts now (jb_linked_at j)))) (ab_jobs s')\<rparr>
             | (b, Some w) \<Rightarrow>
                 s\<lparr>ab_buckets := (ab_buckets s)(jb_connection j \<mapsto> b),
                   ab_jobs := set_phase k AwaitToken (ab_jobs s)\<rparr>)
          else s
      | None \<Rightarrow> s)"

definition finish_typing :: "time \<Rightarrow> string \<times> string \<Rightarrow> ab_state \<Rightarrow> ab_state" where
  "finish_typing now k s =
     (case head_job k s of
        Some (j, Composing t) \<Rightarrow> if t \<le> now then start_send now k j s else s
      | _ \<Rightarrow> s)"

text \<open>The send has settled, either way: the next job of the chain may run, the counter goes down,
  and a drained connection drops its counter and its bucket.\<close>

definition settle :: "string \<times> string \<Rightarrow> ab_state \<Rightarrow> ab_state" where
  "settle k s =
     (case head_job k s of
        Some (j, Sending) \<Rightarrow>
          let conn = jb_connection j;
              n = (case ab_pending s conn of None \<Rightarrow> 1 | Some n \<Rightarrow> n) - 1;
              s' = s\<lparr>ab_jobs := drop_job k (ab_jobs s), ab_settled := ab_settled s @ [j]\<rparr>
          in if n = 0
             then s'\<lparr>ab_pending := (ab_pending s)(conn := None), ab_buckets := (ab_buckets s)(conn := None)\<rparr>
             else s'\<lparr>ab_pending := (ab_pending s)(conn \<mapsto> n)\<rparr>
      | _ \<Rightarrow> s)"

datatype ab_event =
    Enqueue job
  | Begin time rat "string \<times> string"
  | TryToken time rat "string \<times> string"
  | FinishTyping time "string \<times> string"
  | Settle "string \<times> string"

fun ab_step :: "ab_options \<Rightarrow> ab_state \<Rightarrow> ab_event \<Rightarrow> ab_state" where
  "ab_step opts s (Enqueue j) = (case enqueue opts j s of Inl _ \<Rightarrow> s | Inr s' \<Rightarrow> s')"
| "ab_step opts s (Begin now r k) = begin_job opts now r k s"
| "ab_step opts s (TryToken now r k) = try_token opts now r k s"
| "ab_step opts s (FinishTyping now k) = finish_typing now k s"
| "ab_step opts s (Settle k) = settle k s"

section \<open>Lemmas on the bucket\<close>

definition bucket_ok :: "bucket \<Rightarrow> bool" where
  "bucket_ok b \<longleftrightarrow> 0 < bk_rate b \<and> 1 \<le> bk_capacity b \<and> 0 \<le> bk_tokens b \<and> bk_tokens b \<le> bk_capacity b"

lemma refill_ok: "bucket_ok b \<Longrightarrow> bk_last b \<le> now \<Longrightarrow> bucket_ok (refill now b)"
  by (auto simp: bucket_ok_def refill_def Let_def)

lemma take_turn_ok:
  assumes "bucket_ok b" "bk_last b \<le> now" "take_turn now b = (b', r)"
  shows "bucket_ok b' \<and> bk_rate b' = bk_rate b \<and> bk_capacity b' = bk_capacity b \<and> bk_last b' = now"
  using refill_ok [OF assms(1,2)] assms(3)
  by (auto simp: take_turn_def Let_def bucket_ok_def refill_def split: if_splits)

text \<open>A turn at \<open>now\<close> takes from what the bucket held plus what has come in since.\<close>

lemma take_turn_spend:
  assumes "take_turn now b = (b', r)"
  shows "(if r = None then 1 else 0) + bk_tokens b'
    \<le> bk_tokens b + (of_nat now - of_nat (bk_last b)) / 1000 * bk_rate b"
  using assms by (auto simp: take_turn_def refill_def Let_def split: if_splits)

text \<open>The turns of several takers at given times, and how many get a token.\<close>

fun turns :: "time list \<Rightarrow> bucket \<Rightarrow> nat \<times> bucket" where
  "turns [] b = (0, b)"
| "turns (t # ts) b =
     (let (b', r) = take_turn t b; (n, b'') = turns ts b'
      in ((if r = None then 1 else 0) + n, b''))"

lemma turns_spend:
  assumes "bucket_ok b" "sorted (bk_last b # ts)" "turns ts b = (n, b')"
  shows "of_nat n + bk_tokens b' \<le> bk_tokens b + (of_nat (last (bk_last b # ts)) - of_nat (bk_last b)) / 1000 * bk_rate b
    \<and> bucket_ok b'"
  using assms
proof (induction ts arbitrary: b n)
  case (Cons t ts)
  obtain b1 r where b1: "take_turn t b = (b1, r)" by (cases "take_turn t b")
  obtain m where m: "turns ts b1 = (m, b')" "n = (if r = None then 1 else 0) + m"
    using Cons.prems(3) b1 by (auto simp: Let_def split: prod.splits)
  have ok: "bucket_ok b1" "bk_rate b1 = bk_rate b" "bk_last b1 = t"
    using take_turn_ok [OF Cons.prems(1) _ b1] Cons.prems(2) by auto
  have "of_nat m + bk_tokens b' \<le> bk_tokens b1 + (of_nat (last (t # ts)) - of_nat t) / 1000 * bk_rate b \<and> bucket_ok b'"
    using Cons.IH [OF ok(1) _ m(1)] Cons.prems(2) ok by simp
  moreover have "(if r = None then 1 else 0) + bk_tokens b1
      \<le> bk_tokens b + (of_nat t - of_nat (bk_last b)) / 1000 * bk_rate b"
    by (rule take_turn_spend [OF b1])
  ultimately show ?case
    by (cases r) (simp_all add: m(2) diff_divide_distrib algebra_simps)
qed simp

section \<open>Lemmas on the queue\<close>

definition of_key :: "string \<times> string \<Rightarrow> (job \<times> phase) list \<Rightarrow> (job \<times> phase) list" where
  "of_key k js = filter (\<lambda>(j, p). chain_key j = k) js"

definition conn_jobs :: "string \<Rightarrow> (job \<times> phase) list \<Rightarrow> (job \<times> phase) list" where
  "conn_jobs c js = filter (\<lambda>(j, p). jb_connection j = c) js"

lemma head_job_of_key: "head_job k s = (case of_key k (ab_jobs s) of [] \<Rightarrow> None | x # _ \<Rightarrow> Some x)"
proof -
  have "sql_get (\<lambda>(j, p). chain_key j = k) js = (case of_key k js of [] \<Rightarrow> None | x # _ \<Rightarrow> Some x)" for js
    by (induction js) (auto simp: of_key_def sql_get_Cons)
  then show ?thesis by (simp add: head_job_def)
qed

lemma of_key_set_phase:
  "of_key k' (set_phase k p js) = (if k' = k then (case of_key k js of [] \<Rightarrow> [] | (j, q) # r \<Rightarrow> (j, p) # r)
     else of_key k' js)"
  by (induction js) (auto simp: of_key_def split: list.splits)

lemma of_key_drop_job: "of_key k' (drop_job k js) = (if k' = k then tl (of_key k js) else of_key k' js)"
  by (induction js) (auto simp: of_key_def)

lemma of_key_append: "of_key k (js @ [(j, p)]) = of_key k js @ (if chain_key j = k then [(j, p)] else [])"
  by (simp add: of_key_def)

lemma conn_set_phase: "map fst (conn_jobs c (set_phase k p js)) = map fst (conn_jobs c js)"
  by (induction js) (auto simp: conn_jobs_def)

lemma length_conn_set_phase [simp]: "length (conn_jobs c (set_phase k p js)) = length (conn_jobs c js)"
  using conn_set_phase by (metis length_map)

lemma length_conn_drop:
  "of_key k js \<noteq> [] \<Longrightarrow> length (conn_jobs c js) = length (conn_jobs c (drop_job k js)) + (if fst k = c then 1 else 0)"
  by (induction js) (auto simp: of_key_def conn_jobs_def chain_key_def)

text \<open>The invariant: the counter of a connection is the number of its pending jobs, within the
  bound; in every chain the accepted jobs are the settled ones followed by the pending ones,
  only the first pending one has left the queue, and the sent ones are the settled ones and
  the first one if it is being sent; every bucket is in range.\<close>

definition head_sending :: "(job \<times> phase) list \<Rightarrow> job list" where
  "head_sending js = (case js of (j, Sending) # _ \<Rightarrow> [j] | _ \<Rightarrow> [])"

definition chain_inv :: "ab_state \<Rightarrow> string \<times> string \<Rightarrow> bool" where
  "chain_inv s k \<longleftrightarrow>
     filter (\<lambda>j. chain_key j = k) (ab_accepted s)
       = filter (\<lambda>j. chain_key j = k) (ab_settled s) @ map fst (of_key k (ab_jobs s))
   \<and> list_all (\<lambda>(j, p). p = Queued) (tl (of_key k (ab_jobs s)))
   \<and> filter (\<lambda>j. chain_key j = k) (map snd (ab_sent s))
       = filter (\<lambda>j. chain_key j = k) (ab_settled s) @ head_sending (of_key k (ab_jobs s))"

definition count_inv :: "ab_options \<Rightarrow> ab_state \<Rightarrow> string \<Rightarrow> bool" where
  "count_inv opts s c \<longleftrightarrow>
     (case ab_pending s c of None \<Rightarrow> 0 | Some n \<Rightarrow> n) = length (conn_jobs c (ab_jobs s))
   \<and> length (conn_jobs c (ab_jobs s)) \<le> max_pending opts"

definition ab_inv :: "ab_options \<Rightarrow> ab_state \<Rightarrow> bool" where
  "ab_inv opts s \<longleftrightarrow> (\<forall>k. chain_inv s k) \<and> (\<forall>c. count_inv opts s c)"

lemma chain_inv_phase:
  assumes "chain_inv s k'" "head_job k s = Some (j, p)" "p \<noteq> Sending" "q \<noteq> Sending"
  shows "chain_inv (s\<lparr>ab_jobs := set_phase k q (ab_jobs s)\<rparr>) k'"
  using assms
  by (auto simp: chain_inv_def of_key_set_phase head_job_of_key head_sending_def
      split: list.splits phase.splits)

lemma head_key: "head_job k s = Some (j, p) \<Longrightarrow> chain_key j = k"
  by (auto simp: head_job_def dest: sql_get_Some)

lemma chain_inv_send:
  assumes "chain_inv s k'" "head_job k s = Some (j, p)" "p \<noteq> Sending"
  shows "chain_inv (start_send now k j s) k'"
  using assms head_key [OF assms(2)]
  by (auto simp: chain_inv_def start_send_def of_key_set_phase head_job_of_key head_sending_def
      split: list.splits phase.splits)

lemma chain_inv_buckets [simp]: "chain_inv (s\<lparr>ab_buckets := b\<rparr>) k = chain_inv s k"
  "chain_inv (s\<lparr>ab_pending := n\<rparr>) k = chain_inv s k"
  by (simp_all add: chain_inv_def)

lemma count_inv_frame [simp]: "count_inv opts (s\<lparr>ab_buckets := b\<rparr>) c = count_inv opts s c"
  "count_inv opts (s\<lparr>ab_jobs := set_phase k q (ab_jobs s)\<rparr>) c = count_inv opts s c"
  "count_inv opts (start_send now k j s) c = count_inv opts s c"
  by (simp_all add: count_inv_def start_send_def)

lemma head_buckets [simp]: "head_job k (s\<lparr>ab_buckets := b\<rparr>) = head_job k s"
  by (simp add: head_job_def)

lemma ab_inv_enqueue: "ab_inv opts s \<Longrightarrow> enqueue opts j s = Inr s' \<Longrightarrow> ab_inv opts s'"
proof -
  assume i: "ab_inv opts s" and e: "enqueue opts j s = Inr s'"
  define n where "n = (case ab_pending s (jb_connection j) of None \<Rightarrow> 0 | Some n \<Rightarrow> n)"
  have n: "n < max_pending opts" and s': "s' = s\<lparr>ab_pending := (ab_pending s)(jb_connection j \<mapsto> n + 1),
      ab_jobs := ab_jobs s @ [(j, Queued)], ab_accepted := ab_accepted s @ [j]\<rparr>"
    using e by (simp_all add: enqueue_def Let_def n_def split: if_splits)
  have "chain_inv s' k" for k
  proof -
    have "chain_inv s k" using i unfolding ab_inv_def by blast
    then show ?thesis
      by (cases "of_key k (ab_jobs s)") (auto simp: s' chain_inv_def of_key_append head_sending_def)
  qed
  moreover have "count_inv opts s' c" for c
  proof -
    have "count_inv opts s c" using i by (simp add: ab_inv_def)
    then show ?thesis using n by (auto simp: s' count_inv_def conn_jobs_def n_def)
  qed
  ultimately show ?thesis by (simp add: ab_inv_def)
qed

lemma ab_inv_settle:
  assumes "ab_inv opts s"
  shows "ab_inv opts (settle k s)"
proof (cases "\<exists>j. head_job k s = Some (j, Sending)")
  case True
  then obtain j where j: "head_job k s = Some (j, Sending)" by blast
  have kj: "chain_key j = k" by (rule head_key [OF j])
  obtain r where r: "of_key k (ab_jobs s) = (j, Sending) # r"
    using j by (auto simp: head_job_of_key split: list.splits)
  have jobs: "ab_jobs (settle k s) = drop_job k (ab_jobs s)"
    "ab_settled (settle k s) = ab_settled s @ [j]" "ab_accepted (settle k s) = ab_accepted s"
    "ab_sent (settle k s) = ab_sent s"
    by (simp_all add: settle_def j Let_def)
  have "chain_inv (settle k s) k'" for k'
  proof -
    have ci: "chain_inv s k'" using assms unfolding ab_inv_def by blast
    have h: "head_sending (tl (of_key k (ab_jobs s))) = []" if "chain_inv s k"
      using that r by (cases "tl (of_key k (ab_jobs s))") (auto simp: chain_inv_def head_sending_def)
    show ?thesis
    proof (cases "k' = k")
      case True
      then show ?thesis
        using ci h r kj
        by (cases r) (auto simp: chain_inv_def jobs of_key_drop_job head_sending_def)
    next
      case False
      then show ?thesis using ci kj by (simp add: chain_inv_def jobs of_key_drop_job)
    qed
  qed
  moreover have "count_inv opts (settle k s) c" for c
  proof -
    have c: "count_inv opts s c" using assms by (simp add: ab_inv_def)
    have l: "length (conn_jobs c (ab_jobs s))
        = length (conn_jobs c (drop_job k (ab_jobs s))) + (if jb_connection j = c then 1 else 0)"
      using length_conn_drop [of k "ab_jobs s" c] r kj by (auto simp: chain_key_def)
    show ?thesis
      using c l by (auto simp: count_inv_def settle_def j Let_def split: option.splits if_splits)
  qed
  ultimately show ?thesis by (simp add: ab_inv_def)
next
  case False
  then have "settle k s = s"
    by (auto simp: settle_def split: option.splits phase.splits)
  then show ?thesis using assms by simp
qed

lemma ab_inv_phase:
  "ab_inv opts s \<Longrightarrow> head_job k s = Some (j, p) \<Longrightarrow> p \<noteq> Sending \<Longrightarrow> q \<noteq> Sending \<Longrightarrow>
     ab_inv opts (s\<lparr>ab_jobs := set_phase k q (ab_jobs s)\<rparr>)"
  by (simp add: ab_inv_def chain_inv_phase)

lemma ab_inv_send:
  "ab_inv opts s \<Longrightarrow> head_job k s = Some (j, p) \<Longrightarrow> p \<noteq> Sending \<Longrightarrow> ab_inv opts (start_send now k j s)"
  by (simp add: ab_inv_def chain_inv_send)

lemma ab_inv_buckets: "ab_inv opts (s\<lparr>ab_buckets := b\<rparr>) = ab_inv opts s"
  by (simp add: ab_inv_def)

lemma ab_inv_try_token:
  assumes "ab_inv opts s"
  shows "ab_inv opts (try_token opts now r k s)"
proof (cases "head_job k s")
  case (Some x)
  obtain j p where x: "x = (j, p)" by (cases x)
  define en where "en \<longleftrightarrow> p = AwaitToken \<or> (case p of Pausing t \<Rightarrow> t \<le> now | _ \<Rightarrow> False)"
  have p: "p \<noteq> Sending" if en using that by (auto simp: en_def)
  obtain b w where b: "take_turn now (bucketFor opts now (jb_connection j) s) = (b, w)"
    by (cases "take_turn now (bucketFor opts now (jb_connection j) s)")
  let ?s = "s\<lparr>ab_buckets := (ab_buckets s)(jb_connection j \<mapsto> b)\<rparr>"
  have i: "ab_inv opts ?s" using assms by (simp add: ab_inv_buckets)
  have h: "head_job k ?s = Some (j, p)" using Some x by simp
  show ?thesis
  proof (cases en)
    case True
    have "ab_inv opts (?s\<lparr>ab_jobs := set_phase k q (ab_jobs ?s)\<rparr>)" if "q \<noteq> Sending" for q
      by (rule ab_inv_phase [OF i h p [OF True] that])
    moreover have "ab_inv opts (start_send now k j ?s)"
      by (rule ab_inv_send [OF i h p [OF True]])
    ultimately show ?thesis
      using True Some x b by (simp add: try_token_def en_def Let_def split: option.split)
  next
    case False
    then show ?thesis using assms Some x by (simp add: try_token_def en_def)
  qed
qed (use assms in \<open>simp add: try_token_def\<close>)

lemma ab_inv_step: "ab_inv opts s \<Longrightarrow> ab_inv opts (ab_step opts s e)"
  by (cases e)
    (auto simp: ab_inv_try_token ab_inv_settle begin_job_def finish_typing_def
      intro: ab_inv_enqueue ab_inv_phase ab_inv_send split: sum.splits option.splits phase.splits)

interpretation antiban: machine "ab_step opts" "ab_inv opts" for opts
  by unfold_locales (rule ab_inv_step)

lemma ab_inv_new: "ab_inv opts new_queue"
  by (simp add: ab_inv_def new_queue_def chain_inv_def count_inv_def of_key_def conn_jobs_def
      head_sending_def)

section \<open>Properties\<close>

text \<open>C33: Whatever the order in which the event loop runs the queue, the sends of a chat of a
  connection start in the order in which they were accepted, none twice and none skipped, at
  most one of them unsettled; and a connection never has more than its bound of jobs queued or
  in flight.\<close>

theorem sends_are_fifo_and_bounded:
  fixes opts es
  defines "s \<equiv> foldl (ab_step opts) new_queue es"
  shows "prefix (filter (\<lambda>j. chain_key j = k) (map snd (ab_sent s))) (filter (\<lambda>j. chain_key j = k) (ab_accepted s))
    \<and> length (filter (\<lambda>j. chain_key j = k) (map snd (ab_sent s)))
        \<le> length (filter (\<lambda>j. chain_key j = k) (ab_settled s)) + 1
    \<and> length (filter (\<lambda>(j, p). jb_connection j = c) (ab_jobs s)) \<le> max_pending opts"
proof -
  have i: "ab_inv opts s" unfolding s_def by (rule antiban.run_inv [OF ab_inv_new])
  then have "chain_inv s k" "count_inv opts s c" unfolding ab_inv_def by blast+
  then show ?thesis
    by (auto simp: chain_inv_def count_inv_def head_sending_def conn_jobs_def split: list.splits phase.splits)
qed

text \<open>C34: A bucket never grants more than its capacity plus its rate times the elapsed time: among
  turns at any non-decreasing times from its creation on, that many at most get a token.\<close>

theorem bucket_rate_bound:
  assumes "0 < rate" "1 \<le> capacity" "sorted (t0 # ts)"
  shows "of_nat (fst (turns ts (new_bucket rate capacity t0)))
    \<le> capacity + rate * (of_nat (last (t0 # ts)) - of_nat t0) / 1000"
proof -
  have "bucket_ok (new_bucket rate capacity t0)"
    using assms(1,2) by (simp add: bucket_ok_def new_bucket_def)
  moreover obtain n b where "turns ts (new_bucket rate capacity t0) = (n, b)"
    by (cases "turns ts (new_bucket rate capacity t0)")
  ultimately have "of_nat n + bk_tokens b
      \<le> capacity + (of_nat (last (t0 # ts)) - of_nat t0) / 1000 * rate \<and> bucket_ok b"
    using turns_spend [of "new_bucket rate capacity t0" ts n b] assms(3)
    by (simp add: new_bucket_def)
  then show ?thesis
    using \<open>turns ts (new_bucket rate capacity t0) = (n, b)\<close> by (simp add: bucket_ok_def mult.commute)
qed

theorem bucket_rate_bound_witness:
  "of_nat (fst (turns [0, 500, 999] (new_bucket 1 1 0))) \<le> (1 + 999 / 1000 :: rat)"
  using bucket_rate_bound [of 1 1 0 "[0, 500, 999]"] by simp

text \<open>A lone taker always gets its token: at once, or after the one sleep that it computes.\<close>

theorem take_returns:
  assumes "bucket_ok b" "bk_last b \<le> now"
  shows "\<exists>t b'. take_loop 2 now b = Some (t, b') \<and> bucket_ok b' \<and> now \<le> t
    \<and> t \<le> now + max 25 (nat \<lceil>1000 / bk_rate b\<rceil>)"
proof -
  obtain b1 r where b1: "take_turn now b = (b1, r)" by (cases "take_turn now b")
  note ok1 = take_turn_ok [OF assms b1]
  show ?thesis
  proof (cases r)
    case None
    then show ?thesis using b1 ok1 by (simp add: numeral_2_eq_2)
  next
    case (Some w)
    have tk: "bk_tokens b1 < 1" "w = max (nat \<lceil>(1 - bk_tokens b1) / bk_rate b1 * 1000\<rceil>) 25"
      using b1 Some by (auto simp: take_turn_def Let_def split: if_splits)
    have rate: "0 < bk_rate b1" "0 \<le> bk_tokens b1" using ok1 by (auto simp: bucket_ok_def)
    have "(1 - bk_tokens b1) / bk_rate b1 * 1000 \<le> of_nat w"
      unfolding tk(2) by (simp add: le_max_iff_disj of_nat_max) linarith
    then have "1 - bk_tokens b1 \<le> of_nat w / 1000 * bk_rate b1"
      using rate by (simp add: field_simps)
    then have "1 \<le> bk_tokens (refill (now + w) b1)"
      using ok1 by (auto simp: refill_def Let_def bucket_ok_def)
    then obtain b2 where b2: "take_turn (now + w) b1 = (b2, None)"
      by (simp add: take_turn_def Let_def)
    have "bucket_ok b2" using take_turn_ok [OF _ _ b2] ok1 by simp
    moreover have "(1 - bk_tokens b1) / bk_rate b1 * 1000 \<le> 1000 / bk_rate b"
      using rate ok1 by (simp add: field_simps)
    then have "nat \<lceil>(1 - bk_tokens b1) / bk_rate b1 * 1000\<rceil> \<le> nat \<lceil>1000 / bk_rate b\<rceil>"
      by (intro nat_mono ceiling_mono)
    then have "w \<le> max 25 (nat \<lceil>1000 / bk_rate b\<rceil>)" unfolding tk(2) by linarith
    ultimately show ?thesis using b1 b2 Some by (simp add: numeral_2_eq_2)
  qed
qed

theorem take_returns_witness:
  "\<exists>t b'. take_loop 2 0 \<lparr>bk_rate = 1, bk_capacity = 1, bk_tokens = 0, bk_last = 0\<rparr> = Some (t, b') \<and> t \<le> 1000"
  using take_returns [of "\<lparr>bk_rate = 1, bk_capacity = 1, bk_tokens = 0, bk_last = 0\<rparr>" 0]
  by (auto simp: bucket_ok_def)

text \<open>The delays stay in range: the warm-up factor between 1 and 2.5 for a number linked in the
  past, the typing delay between 280 and 24700 ms, and the pause of a PA reply between its
  rounded limits.\<close>

theorem delays_in_range:
  assumes "0 \<le> random" "random < 1" "\<forall>l. linked = Some l \<longrightarrow> l \<le> now"
  shows "1 \<le> warmupMultiplier opts now linked \<and> warmupMultiplier opts now linked \<le> 5 / 2
    \<and> 280 \<le> typingDelay random len (warmupMultiplier opts now linked)
    \<and> typingDelay random len (warmupMultiplier opts now linked) \<le> 24700"
proof -
  define w where "w = warmupMultiplier opts now linked"
  have w: "1 \<le> w \<and> w \<le> 5 / 2"
  proof (cases linked)
    case (Some l)
    define a where "a = (of_nat now - of_nat l :: rat) / 86400000"
    have "0 \<le> a" using assms(3) Some by (simp add: a_def)
    then show ?thesis
      by (auto simp: w_def warmupMultiplier_def Some Let_def a_def [symmetric] field_simps)
  qed (simp add: w_def warmupMultiplier_def)
  define raw where "raw = (400 + of_nat (min len 400) * 18 :: rat)"
  have raw: "400 \<le> raw" "raw \<le> 7600" by (auto simp: raw_def of_nat_min)
  define jit where "jit = 7 / 10 + random * (6 / 10)"
  have jit: "7 / 10 \<le> jit" "jit \<le> 13 / 10" using assms(1,2) by (auto simp: jit_def)
  have "400 * (7 / 10) \<le> raw * jit" using raw jit by (intro mult_mono) auto
  moreover have "raw * jit \<le> 7600 * (13 / 10)" using raw jit by (intro mult_mono) auto
  ultimately have rj: "280 \<le> raw * jit" "raw * jit \<le> 9880" by auto
  have "280 * 1 \<le> raw * jit * w" using rj w by (intro mult_mono) auto
  moreover have "raw * jit * w \<le> 9880 * (5 / 2)" using rj w by (intro mult_mono) auto
  ultimately have x: "280 \<le> raw * jit * w" "raw * jit * w \<le> 24700" by auto
  then have "280 \<le> js_round (raw * jit * w)" "js_round (raw * jit * w) \<le> 24700"
    unfolding js_round_def by linarith+
  moreover have "typingDelay random len w = nat (js_round (raw * jit * w))"
    by (simp only: typingDelay_def Let_def raw_def jit_def)
  ultimately have "280 \<le> typingDelay random len w \<and> typingDelay random len w \<le> 24700" by linarith
  then show ?thesis using w by (simp add: w_def)
qed

theorem delays_in_range_witness:
  "typingDelay (1 / 2) 10 (warmupMultiplier
      \<lparr>ao_rate = 1, ao_warmup_days = 7, ao_pa_min = None, ao_pa_max = None, ao_max_pending = None\<rparr> 5 (Some 5)) \<le> 24700"
  using delays_in_range [of "1 / 2" "Some 5" 5] by simp

definition sample_options :: ab_options where
  "sample_options = \<lparr>ao_rate = 1, ao_warmup_days = 0, ao_pa_min = None, ao_pa_max = None,
     ao_max_pending = None\<rparr>"

definition sample_reaction :: "nat \<Rightarrow> job" where
  "sample_reaction i = \<lparr>jb_id = i, jb_connection = ''c'', jb_chat = ''g'', jb_length = 0,
     jb_pa_reply = False, jb_reaction = True, jb_linked_at = None\<rparr>"

definition one_by_one :: "time \<Rightarrow> nat \<Rightarrow> ab_event list" where
  "one_by_one now i = [Enqueue (sample_reaction i), Begin now 0 (''c'', ''g''), TryToken now 0 (''c'', ''g''),
     Settle (''c'', ''g'')]"

text \<open>The rate is not a cap on sends that do not overlap: at one send per second, any number of
  reactions that are each enqueued after the previous one has settled all go out in the same
  millisecond, because the drained connection's bucket is dropped and made anew, full.\<close>

theorem sequential_sends_are_not_paced:
  "ab_sent (foldl (ab_step sample_options) new_queue (concat (map (one_by_one now) [0..<n])))
    = map (\<lambda>i. (now, sample_reaction i)) [0..<n]"
proof -
  have c: "\<lceil>1 :: rat\<rceil> = 1" by simp
  have step: "foldl (ab_step sample_options) s (one_by_one now i)
      = s\<lparr>ab_sent := ab_sent s @ [(now, sample_reaction i)], ab_accepted := ab_accepted s @ [sample_reaction i],
           ab_settled := ab_settled s @ [sample_reaction i]\<rparr>"
    if "ab_jobs s = []" "ab_pending s = Map.empty" "ab_buckets s = Map.empty" for s i
    using that
    by (simp add: one_by_one_def enqueue_def begin_job_def try_token_def settle_def head_job_def
        sql_get_Cons chain_key_def sample_reaction_def bucketFor_def new_bucket_def take_turn_def
        refill_def start_send_def max_pending_def sample_options_def Let_def)
  have "\<exists>s. foldl (ab_step sample_options) new_queue (concat (map (one_by_one now) [0..<n])) = s
      \<and> ab_jobs s = [] \<and> ab_pending s = Map.empty \<and> ab_buckets s = Map.empty
      \<and> ab_sent s = map (\<lambda>i. (now, sample_reaction i)) [0..<n]"
  proof (induction n)
    case 0
    show ?case by (simp add: new_queue_def)
  next
    case (Suc n)
    then show ?case using step by simp
  qed
  then show ?thesis by blast
qed

end
