(* ===== verification/AskFiles.thy ===== *)
theory AskFiles
  imports Crypto
begin

text \<open>
  The files of an ask: \<open>src/promptql/mediaFiles.ts\<close> and the file part of
  \<open>src/promptql/promptqlAdapter.ts\<close>. A file keeps its bytes; \<open>content_base64\<close> is their base64
  text, a one-to-one rendering whose length is written out where it matters. The JPEG codec
  (\<open>jpeg-js\<close>) is a parameter: \<open>decode\<close> gives pixels, width and height or throws (\<open>None\<close>),
  \<open>encode\<close> gives the bytes at a quality or throws. Scales are exact rationals.
\<close>

section \<open>Data\<close>

record ask_file =
  af_name :: string
  af_mime :: string
  af_bytes :: bytes

record media =
  md_bytes :: bytes
  md_mime :: "string option"
  md_size :: nat
  md_file :: "string option"

record jpeg_codec =
  jpeg_decode :: "bytes \<Rightarrow> (bytes \<times> nat \<times> nat) option"
  jpeg_encode :: "bytes \<Rightarrow> nat \<Rightarrow> nat \<Rightarrow> nat \<Rightarrow> bytes option"

definition IMAGE_MIME :: "string list" where
  "IMAGE_MIME = [''image/jpeg'', ''image/png'', ''image/webp'', ''image/gif'']"

definition RECOMPRESS_MAX_BYTES :: nat where "RECOMPRESS_MAX_BYTES = 900 * 1024"
definition RECOMPRESS_MAX_EDGE :: nat where "RECOMPRESS_MAX_EDGE = 1600"
definition BRIDGE_MAX_BYTES :: nat where "BRIDGE_MAX_BYTES = 220 * 1024"
definition BRIDGE_MAX_EDGE :: nat where "BRIDGE_MAX_EDGE = 1280"

section \<open>Names and types\<close>

definition octet_stream :: string where "octet_stream = ''application/octet-stream''"

definition baseMime :: "string option \<Rightarrow> string" where
  "baseMime mime =
     (let raw = mime_base (case mime of None \<Rightarrow> octet_stream | Some m \<Rightarrow> m)
      in if raw = [] then octet_stream else raw)"

definition extensionForMime :: "string \<Rightarrow> string" where
  "extensionForMime mime =
     (case map_of [(''image/jpeg'', ''.jpg''), (''image/png'', ''.png''), (''image/webp'', ''.webp''),
        (''image/gif'', ''.gif''), (''application/pdf'', ''.pdf''), (''video/mp4'', ''.mp4''),
        (''audio/ogg'', ''.ogg''), (''audio/mpeg'', ''.mp3'')] mime of
        None \<Rightarrow> [] | Some e \<Rightarrow> e)"

text \<open>\<open>toString("ascii")\<close> clears the high bit of every byte.\<close>

definition ascii_is :: "bytes \<Rightarrow> string \<Rightarrow> bool" where
  "ascii_is bs s \<longleftrightarrow> map (\<lambda>b. char_of (unat b mod 128)) bs = s"

definition is_webp :: "bytes \<Rightarrow> bool" where
  "is_webp b \<longleftrightarrow> 12 \<le> length b \<and> ascii_is (take 4 b) ''RIFF'' \<and> ascii_is (take 4 (drop 8 b)) ''WEBP''"

definition is_gif :: "bytes \<Rightarrow> bool" where
  "is_gif b \<longleftrightarrow> 6 \<le> length b \<and> (ascii_is (take 6 b) ''GIF87a'' \<or> ascii_is (take 6 b) ''GIF89a'')"

definition is_jpeg :: "bytes \<Rightarrow> bool" where
  "is_jpeg b \<longleftrightarrow> take 3 b = [255, 216, 255]"

definition sniffImageMime :: "bytes \<Rightarrow> string option" where
  "sniffImageMime b =
     (if is_jpeg b then Some ''image/jpeg''
      else if 8 \<le> length b \<and> take 4 b = [137, 80, 78, 71] then Some ''image/png''
      else if is_gif b then Some ''image/gif''
      else if is_webp b then Some ''image/webp'' else None)"

definition sniffedMediaMime :: "bytes \<Rightarrow> string option" where
  "sniffedMediaMime b =
     (if is_jpeg b then Some ''image/jpeg''
      else if take 8 b = [137, 80, 78, 71, 13, 10, 26, 10] then Some ''image/png''
      else if is_gif b then Some ''image/gif''
      else if is_webp b then Some ''image/webp''
      else if 5 \<le> length b \<and> ascii_is (take 5 b) ''%PDF-'' then Some ''application/pdf'' else None)"

text \<open>\<open>replace(/\.[a-z0-9]{1,8}$/i, "")\<close>.\<close>

definition drop_extension :: "string \<Rightarrow> string" where
  "drop_extension s =
     (let ext = rev (takeWhile (\<lambda>c. c \<noteq> CHR ''.'') (rev s)) in
      if CHR ''.'' \<in> set s \<and> 1 \<le> length ext \<and> length ext \<le> 8 \<and> list_all is_alnum ext
      then take (length s - length ext - 1) s else s)"

definition ensureFileName :: "string \<Rightarrow> string \<Rightarrow> string" where
  "ensureFileName name mime =
     (let t = take 255 (trim name); trimmed = (if t = [] then ''whatsapp-media'' else t);
          ext = extensionForMime mime
      in if ext = [] then trimmed
         else if ends_with ext (lowercase trimmed) then trimmed
         else let without = drop_extension trimmed
              in take 255 ((if without = [] then ''whatsapp-media'' else without) @ ext))"

definition normalizePromptQlFile :: "ask_file \<Rightarrow> ask_file" where
  "normalizePromptQlFile f =
     (let base = baseMime (Some (af_mime f));
          mime = (case sniffImageMime (af_bytes f) of
              None \<Rightarrow> base
            | Some m \<Rightarrow> if base = octet_stream \<or> starts_with ''image/'' base then m else base)
      in f\<lparr>af_name := ensureFileName (af_name f) mime, af_mime := mime\<rparr>)"

definition isImagePromptQlFile :: "ask_file \<Rightarrow> bool" where
  "isImagePromptQlFile f \<longleftrightarrow> baseMime (Some (af_mime f)) \<in> set IMAGE_MIME"

section \<open>The schema of a file\<close>

definition mime_token :: "char \<Rightarrow> bool" where
  "mime_token c \<longleftrightarrow> is_alnum c \<or> c \<in> set ''_!#$&^.+-''"

definition control_char :: "char \<Rightarrow> bool" where
  "control_char c = (let n = of_char c :: nat in n < 32 \<or> n = 127)"

definition mime_re :: "string \<Rightarrow> bool" where
  "mime_re m =
     (let a = takeWhile mime_token m; r = dropWhile mime_token m;
          b = takeWhile mime_token (tl r); rest = dropWhile mime_token (tl r)
      in a \<noteq> [] \<and> r \<noteq> [] \<and> hd r = CHR ''/'' \<and> b \<noteq> []
         \<and> (rest = [] \<or> hd rest = CHR '';'' \<and> list_all (\<lambda>c. \<not> control_char c) (tl rest)))"

definition file_name_ok :: "string \<Rightarrow> bool" where
  "file_name_ok n \<longleftrightarrow> n \<noteq> [] \<and> length n \<le> 255 \<and> n \<noteq> ''.'' \<and> n \<noteq> ''..''
     \<and> list_all (\<lambda>c. c \<noteq> CHR ''/'' \<and> c \<noteq> CHR 92 \<and> \<not> control_char c) n"

definition parse_file :: "string \<Rightarrow> string \<Rightarrow> bytes \<Rightarrow> ask_file option" where
  "parse_file name mime bs =
     (if file_name_ok (trim name) \<and> 1 \<le> length mime \<and> length mime \<le> 255 \<and> mime_re mime \<and> bs \<noteq> []
      then Some \<lparr>af_name = trim name, af_mime = mime, af_bytes = bs\<rparr> else None)"

definition sniffed_extensions :: "string \<Rightarrow> string list option" where
  "sniffed_extensions mime =
     map_of [(''image/jpeg'', [''.jpg'', ''.jpeg'']), (''image/png'', [''.png'']), (''image/webp'', [''.webp'']),
       (''image/gif'', [''.gif'']), (''application/pdf'', [''.pdf''])] mime"

definition alignFileName :: "string \<Rightarrow> string \<Rightarrow> string" where
  "alignFileName name mime =
     (case sniffed_extensions mime of
        None \<Rightarrow> name
      | Some allowed \<Rightarrow>
          let tail = rev (takeWhile (\<lambda>c. c \<noteq> CHR ''.'') (rev name));
              dotted = CHR ''.'' \<in> set name \<and> length name - length tail - 1 > 0;
              ext = (if dotted then CHR ''.'' # lowercase tail else [])
          in if ext \<in> set allowed then name
             else let base = (if ext \<noteq> [] then take (length name - length tail - 1) name else name)
                  in (if base = [] then ''whatsapp-media'' else base) @ hd allowed)"

definition promptQlFileFromMedia :: "media \<Rightarrow> string \<Rightarrow> ask_file option" where
  "promptQlFileFromMedia md fallback =
     (let declared = map_option trim (md_mime md);
          mime = (case sniffedMediaMime (md_bytes md) of
              Some m \<Rightarrow> m
            | None \<Rightarrow> (case declared of
                None \<Rightarrow> octet_stream
              | Some d \<Rightarrow> if lowercase d = ''image/jpg'' then ''image/jpeg'' else d))
      in map_option normalizePromptQlFile
           (parse_file (alignFileName (case md_file md of None \<Rightarrow> fallback | Some n \<Rightarrow> n) mime) mime (md_bytes md)))"

text \<open>The length of the base64 text of \<open>n\<close> bytes, and the decoded size the budget counts.\<close>

definition base64_length :: "nat \<Rightarrow> nat" where
  "base64_length n = 4 * ((n + 2) div 3)"

definition promptQlUploadRawBytes :: "ask_file list \<Rightarrow> nat" where
  "promptQlUploadRawBytes files = (\<Sum>f\<leftarrow>files. base64_length (length (af_bytes f)) * 3 div 4)"

section \<open>Re-encoding\<close>

definition scaleDims :: "nat \<Rightarrow> nat \<Rightarrow> nat \<Rightarrow> nat \<times> nat" where
  "scaleDims width height maxEdge =
     (let edge = max width height in
      if edge \<le> maxEdge then (width, height)
      else let scale = (of_nat maxEdge / of_nat edge :: rat)
           in (nat (max 1 (js_round (of_nat width * scale))), nat (max 1 (js_round (of_nat height * scale)))))"

text \<open>Nearest neighbour; a read outside a typed array stores 0.\<close>

definition pixel :: "bytes \<Rightarrow> nat \<Rightarrow> byte" where
  "pixel src i = (if i < length src then src ! i else 0)"

definition resizeRgba :: "bytes \<Rightarrow> nat \<Rightarrow> nat \<Rightarrow> nat \<Rightarrow> nat \<Rightarrow> bytes" where
  "resizeRgba src srcW srcH dstW dstH =
     concat (map (\<lambda>y. let sy = min (srcH - 1) (y * srcH div dstH) in
       concat (map (\<lambda>x. let sx = min (srcW - 1) (x * srcW div dstW); si = (sy * srcW + sx) * 4
         in [pixel src si, pixel src (si + 1), pixel src (si + 2), pixel src (si + 3)]) [0..<dstW])) [0..<dstH])"

definition jpegFile :: "ask_file \<Rightarrow> bytes \<Rightarrow> ask_file" where
  "jpegFile f bs = \<lparr>af_name = ensureFileName (af_name f) ''image/jpeg'', af_mime = ''image/jpeg'', af_bytes = bs\<rparr>"

text \<open>The loops over edges and qualities: thrown, a fit, or the best of all.\<close>

datatype encoded = Thrown | Fits bytes | Best "bytes option"

fun encodings :: "jpeg_codec \<Rightarrow> nat \<Rightarrow> bytes \<times> nat \<times> nat \<Rightarrow> (nat \<times> nat) list \<Rightarrow> bytes option \<Rightarrow> encoded" where
  "encodings codec maxBytes img [] best = Best best"
| "encodings codec maxBytes img ((maxEdge, quality) # rest) best =
     (case img of (px, w0, h0) \<Rightarrow>
        let (w, h) = scaleDims w0 h0 maxEdge;
            rgba = (if w = w0 \<and> h = h0 then px else resizeRgba px w0 h0 w h)
        in case jpeg_encode codec rgba w h quality of
             None \<Rightarrow> Thrown
           | Some out \<Rightarrow>
               if out = [] then encodings codec maxBytes img rest best
               else
                 let best' = (case best of None \<Rightarrow> Some out
                       | Some b \<Rightarrow> if length out < length b then Some out else Some b)
                 in if length out \<le> maxBytes then Fits out else encodings codec maxBytes img rest best')"

definition attempts :: "nat list \<Rightarrow> nat list \<Rightarrow> (nat \<times> nat) list" where
  "attempts edges qualities = List.product edges qualities"

definition encodeJpegUnder :: "jpeg_codec \<Rightarrow> ask_file \<Rightarrow> nat \<Rightarrow> nat list \<Rightarrow> nat list \<Rightarrow> ask_file" where
  "encodeJpegUnder codec f maxBytes edges qualities =
     (let normalized = normalizePromptQlFile f; original = af_bytes normalized in
      if af_mime normalized \<noteq> ''image/jpeg'' then normalized
      else (case jpeg_decode codec original of
          None \<Rightarrow> normalized
        | Some (px, w, h) \<Rightarrow>
            if w = 0 \<or> h = 0 then normalized
            else (case encodings codec maxBytes (px, w, h) (attempts edges qualities) None of
                Thrown \<Rightarrow> normalized
              | Fits out \<Rightarrow> jpegFile normalized out
              | Best None \<Rightarrow> normalized
              | Best (Some b) \<Rightarrow>
                  if length b \<le> maxBytes \<or> length b < length original then jpegFile normalized b
                  else normalized)))"

definition recompressPromptQlFile :: "jpeg_codec \<Rightarrow> ask_file \<Rightarrow> ask_file" where
  "recompressPromptQlFile codec f =
     (let normalized = normalizePromptQlFile f in
      if af_mime normalized \<noteq> ''image/jpeg'' then normalized
      else if length (af_bytes normalized) \<le> RECOMPRESS_MAX_BYTES then normalized
      else encodeJpegUnder codec normalized RECOMPRESS_MAX_BYTES [RECOMPRESS_MAX_EDGE, 1280, 1024, 800] [75, 60, 45, 35])"

definition stageImageForUpload :: "jpeg_codec \<Rightarrow> ask_file \<Rightarrow> nat \<Rightarrow> ask_file" where
  "stageImageForUpload codec f maxBytes =
     encodeJpegUnder codec f (max (16 * 1024) maxBytes) [min BRIDGE_MAX_EDGE 1280, 1024, 800, 640] [60, 45, 35, 28]"

definition stagePromptQlFiles :: "jpeg_codec \<Rightarrow> ask_file list \<Rightarrow> nat \<Rightarrow> ask_file list" where
  "stagePromptQlFiles codec files budgetBytes =
     (let n = length (filter isImagePromptQlFile files); images = (if n = 0 then 1 else n);
          perImage = max (48 * 1024) (min RECOMPRESS_MAX_BYTES (budgetBytes div images))
      in map (\<lambda>f. if isImagePromptQlFile f then stageImageForUpload codec f perImage
                  else normalizePromptQlFile f) files)"

definition recompressForBridge :: "jpeg_codec \<Rightarrow> ask_file \<Rightarrow> ask_file" where
  "recompressForBridge codec f =
     (let normalized = normalizePromptQlFile f; bs = af_bytes normalized in
      if af_mime normalized \<noteq> ''image/jpeg'' then normalized
      else if length bs \<le> BRIDGE_MAX_BYTES then normalized
      else (case jpeg_decode codec bs of
          None \<Rightarrow> recompressPromptQlFile codec normalized
        | Some (px, w, h) \<Rightarrow>
            if w = 0 \<or> h = 0 then recompressPromptQlFile codec normalized
            else (case encodings codec BRIDGE_MAX_BYTES (px, w, h)
                        (attempts [BRIDGE_MAX_EDGE, 1024, 800, 640] [60, 45, 35, 28]) None of
                Thrown \<Rightarrow> recompressPromptQlFile codec normalized
              | Fits out \<Rightarrow> jpegFile normalized out
              | Best None \<Rightarrow> recompressPromptQlFile codec normalized
              | Best (Some b) \<Rightarrow>
                  if length b < length bs then jpegFile normalized b
                  else recompressPromptQlFile codec normalized)))"

section \<open>Lemmas\<close>

definition is_audio_mime :: "string \<Rightarrow> bool" where
  "is_audio_mime m \<longleftrightarrow> starts_with ''audio/'' (mime_base m)"

lemma encodings_Fits: "encodings codec mx img as best = Fits out \<Longrightarrow> length out \<le> mx"
  by (induction as arbitrary: best) (auto simp: Let_def split: prod.splits option.splits if_splits)

lemma lower_char_idem: "lower_char (lower_char c) = lower_char c"
proof -
  define n where "n = (of_char c :: nat)"
  have n: "n < 256" using of_char_less [of c] by (simp add: n_def)
  have c: "c = char_of n" by (simp add: n_def)
  have m: "(of_char (char_of (n + 32) :: char) :: nat) = n + 32" if "n \<le> 222"
    using that by simp
  show ?thesis
    using m n by (auto simp: lower_char_def c Let_def)
qed

lemma mime_base_image: "mime_base ''image/jpeg'' = ''image/jpeg''" "mime_base ''image/png'' = ''image/png''"
  "mime_base ''image/gif'' = ''image/gif''" "mime_base ''image/webp'' = ''image/webp''"
  "mime_base octet_stream = octet_stream"
  by code_simp+

lemma sniffImageMime_image: "sniffImageMime b = Some m \<Longrightarrow> m \<in> set IMAGE_MIME"
  by (auto simp: sniffImageMime_def IMAGE_MIME_def split: if_splits)

lemma image_not_audio: "m \<in> set IMAGE_MIME \<Longrightarrow> \<not> is_audio_mime m"
  by (auto simp: IMAGE_MIME_def is_audio_mime_def mime_base_image starts_with_def)

lemma lower_char_ws: "is_ws (lower_char c) = is_ws c"
proof -
  define n where "n = (of_char c :: nat)"
  have n: "n < 256" using of_char_less [of c] by (simp add: n_def)
  have c: "c = char_of n" by (simp add: n_def)
  have m: "(of_char (char_of (n + 32) :: char) :: nat) = n + 32" if "n \<le> 222" using that by simp
  show ?thesis
    using m n by (auto simp: lower_char_def is_ws_def c Let_def)
qed

lemma lower_char_semicolon: "lower_char c = CHR '';'' \<longleftrightarrow> c = CHR '';''"
proof -
  define n where "n = (of_char c :: nat)"
  have n: "n < 256" using of_char_less [of c] by (simp add: n_def)
  have c: "c = char_of n" by (simp add: n_def)
  have s: "CHR '';'' = char_of (59 :: nat)" by code_simp
  have eq: "char_of a = (char_of b :: char) \<longleftrightarrow> a = b" if "a < 256" "b < 256" for a b :: nat
    using that by (metis mod_less of_char_of)
  show ?thesis
    using n by (auto simp: lower_char_def c s Let_def eq)
qed

lemma semicolon_lowercase: "CHR '';'' \<in> set (lowercase s) \<longleftrightarrow> CHR '';'' \<in> set s"
proof (induction s)
  case (Cons c s)
  show ?case
    using Cons lower_char_semicolon [of c] by (auto simp: lowercase_def simp del: char.inject)
qed (simp add: lowercase_def)

lemma trim_lowercase: "trim (lowercase s) = lowercase (trim s)"
proof -
  have d: "dropWhile is_ws (map lower_char s) = map lower_char (dropWhile is_ws s)" for s
    by (simp add: dropWhile_map comp_def lower_char_ws)
  show ?thesis
    by (simp add: trim_def trim_start_def trim_end_def lowercase_def d rev_map)
qed

lemma lowercase_idem: "lowercase (lowercase s) = lowercase s"
  by (simp add: lowercase_def lower_char_idem)

lemma before_char_none: "c \<notin> set s \<Longrightarrow> before_char c s = s"
  by (auto simp: before_char_def takeWhile_eq_all_conv)

lemma mime_base_idem: "mime_base (mime_base m) = mime_base m"
proof -
  let ?t = "trim (before_char (CHR '';'') m)"
  have "CHR '';'' \<notin> set (before_char (CHR '';'') m)"
    by (auto simp: before_char_def dest: set_takeWhileD)
  then have "CHR '';'' \<notin> set ?t" using set_trim by blast
  then have "CHR '';'' \<notin> set (lowercase ?t)" by (simp add: semicolon_lowercase)
  then show ?thesis
    by (simp add: mime_base_def before_char_none trim_lowercase lowercase_idem)
qed

lemma baseMime_base: "mime_base (baseMime (Some m)) = baseMime (Some m)"
  by (simp add: baseMime_def Let_def mime_base_idem mime_base_image)

lemma audio_octet: "\<not> is_audio_mime octet_stream"
  by (simp add: is_audio_mime_def mime_base_image) (simp add: octet_stream_def starts_with_def)

lemma audio_baseMime: "is_audio_mime (baseMime (Some m)) = is_audio_mime m"
proof (cases "mime_base m = []")
  case True
  then have "\<not> is_audio_mime m" by (simp add: is_audio_mime_def starts_with_def)
  then show ?thesis using True audio_octet by (simp add: baseMime_def)
qed (simp add: baseMime_def Let_def is_audio_mime_def mime_base_idem)

lemma audio_normalize: "is_audio_mime (af_mime (normalizePromptQlFile f)) = is_audio_mime (af_mime f)"
proof (cases "sniffImageMime (af_bytes f)")
  case None
  then show ?thesis by (simp add: normalizePromptQlFile_def Let_def audio_baseMime)
next
  case (Some m)
  have m: "\<not> is_audio_mime m" using Some by (intro image_not_audio sniffImageMime_image)
  have "\<not> is_audio_mime (baseMime (Some (af_mime f)))"
    if "starts_with ''image/'' (baseMime (Some (af_mime f)))"
    using that by (auto simp: is_audio_mime_def baseMime_base starts_with_prefix prefix_def)
  then show ?thesis
    using Some m audio_baseMime [of "af_mime f"] audio_octet
    by (auto simp: normalizePromptQlFile_def Let_def)
qed

lemma encode_mime: "af_mime (encodeJpegUnder codec f mx es qs) = af_mime (normalizePromptQlFile f)"
  by (auto simp: encodeJpegUnder_def Let_def jpegFile_def split: option.splits encoded.splits)

lemma normalize_bytes [simp]: "af_bytes (normalizePromptQlFile f) = af_bytes f"
  by (simp add: normalizePromptQlFile_def Let_def)

lemma encode_length:
  "length (af_bytes (encodeJpegUnder codec f mx es qs)) \<le> max mx (length (af_bytes f))"
proof (cases "jpeg_decode codec (af_bytes f)")
  case (Some img)
  then show ?thesis
    by (cases img; cases "encodings codec mx img (attempts es qs) None")
      (auto simp: encodeJpegUnder_def Let_def jpegFile_def le_max_iff_disj dest: encodings_Fits
        split: option.splits)
qed (simp add: encodeJpegUnder_def Let_def)

lemma recompress_facts:
  "is_audio_mime (af_mime (recompressPromptQlFile codec f)) = is_audio_mime (af_mime f)"
  "length (af_bytes (recompressPromptQlFile codec f)) \<le> max RECOMPRESS_MAX_BYTES (length (af_bytes f))"
  using encode_length [of codec "normalizePromptQlFile f" RECOMPRESS_MAX_BYTES
      "[RECOMPRESS_MAX_EDGE, 1280, 1024, 800]" "[75, 60, 45, 35]"]
    audio_normalize [of f] audio_normalize [of "normalizePromptQlFile f"]
  by (auto simp: recompressPromptQlFile_def Let_def encode_mime le_max_iff_disj)

lemma bridge_audio: "is_audio_mime (af_mime (recompressForBridge codec f)) = is_audio_mime (af_mime f)"
proof -
  have j: "\<not> is_audio_mime ''image/jpeg''" by (rule image_not_audio) (simp add: IMAGE_MIME_def)
  have n: "is_audio_mime (af_mime f) = False" if "af_mime (normalizePromptQlFile f) = ''image/jpeg''"
    using that audio_normalize [of f] j by simp
  show ?thesis
    using n j
    by (auto simp: recompressForBridge_def Let_def jpegFile_def recompress_facts audio_normalize
        split: option.splits encoded.splits)
qed

text \<open>What staging does to one file.\<close>

definition staged_as :: "ask_file \<Rightarrow> ask_file \<Rightarrow> bool" where
  "staged_as f g \<longleftrightarrow> is_audio_mime (af_mime g) = is_audio_mime (af_mime f)
     \<and> length (af_bytes g) \<le> max RECOMPRESS_MAX_BYTES (length (af_bytes f))"

lemma stage_image:
  assumes "n \<le> RECOMPRESS_MAX_BYTES"
  shows "staged_as f (stageImageForUpload codec f n)"
proof -
  have m: "max (16 * 1024) n \<le> RECOMPRESS_MAX_BYTES" using assms by (simp add: RECOMPRESS_MAX_BYTES_def)
  have "length (af_bytes (stageImageForUpload codec f n)) \<le> max (max (16 * 1024) n) (length (af_bytes f))"
    unfolding stageImageForUpload_def by (rule encode_length)
  also have "\<dots> \<le> max RECOMPRESS_MAX_BYTES (length (af_bytes f))"
    by (rule max.mono [OF m order_refl])
  finally show ?thesis
    by (simp add: staged_as_def stageImageForUpload_def encode_mime audio_normalize)
qed

lemma staging_files: "list_all2 staged_as files (stagePromptQlFiles codec files budget)"
proof -
  have "max (48 * 1024) (min RECOMPRESS_MAX_BYTES x) \<le> RECOMPRESS_MAX_BYTES" for x
    by (simp add: RECOMPRESS_MAX_BYTES_def)
  then have s: "staged_as f (stageImageForUpload codec f (max (48 * 1024) (min RECOMPRESS_MAX_BYTES x)))" for f x
    by (rule stage_image)
  have n: "staged_as f (normalizePromptQlFile f)" for f
    by (simp add: staged_as_def audio_normalize le_max_iff_disj)
  show ?thesis
    using s n by (simp add: stagePromptQlFiles_def Let_def list_all2_map2 list_all2_same)
qed

section \<open>Properties\<close>

text \<open>Staging keeps every file in its place and never turns one into audio or an audio file into
  something else; a staged file is no larger than the re-encoding limit or than it was, whatever
  the codec does.\<close>

theorem staging_contract:
  "list_all2 (\<lambda>f g. is_audio_mime (af_mime g) = is_audio_mime (af_mime f)
      \<and> length (af_bytes g) \<le> max RECOMPRESS_MAX_BYTES (length (af_bytes f)))
    files (stagePromptQlFiles codec files budget)"
  using staging_files unfolding staged_as_def .

end
