(* ===== verification/Messages.thy ===== *)
theory Messages
  imports AskFiles MessageStore
begin

text \<open>
  What is posted for a WhatsApp message: the message of \<open>src/whatsapp/socket.ts\<close>, the client
  envelope (\<open>src/promptql/clientEnvelope.ts\<close>), the labels and prompts of
  \<open>src/routing/groupRelay.ts\<close> and the text helpers of \<open>src/routing/inboundRouter.ts\<close>. A refused
  zod parse is \<open>None\<close>. A MIME table is read at MIME types only.
\<close>

section \<open>Messages\<close>

record inbound =
  im_connection :: string
  im_chat :: string
  im_sender :: string
  im_phone :: "string option"
  im_id :: string
  im_ts :: nat
  im_text :: string
  im_type :: string
  im_push :: "string option"
  im_file :: "string option"
  im_ptt :: bool
  im_status :: media_status
  im_media :: "media option"
  im_group :: bool
  im_fromMe :: bool
  im_mentions :: bool

definition im_key :: "inbound \<Rightarrow> string \<times> string" where
  "im_key m = (im_connection m, im_chat m)"

datatype media_kind =
    KImage | KVideo | KDocument | KSticker | KAudio | KVoice | KContact | KLocation

fun kind_name :: "media_kind \<Rightarrow> string" where
  "kind_name KImage = ''image''"
| "kind_name KVideo = ''video''"
| "kind_name KDocument = ''document''"
| "kind_name KSticker = ''sticker''"
| "kind_name KAudio = ''audio''"
| "kind_name KVoice = ''voice note''"
| "kind_name KContact = ''contact card''"
| "kind_name KLocation = ''location''"

definition kinds :: "media_kind list" where
  "kinds = [KImage, KVideo, KDocument, KSticker, KAudio, KVoice, KContact, KLocation]"

definition parse_kind :: "string \<Rightarrow> media_kind option" where
  "parse_kind s = find (\<lambda>k. kind_name k = s) kinds"

definition mediaLabel :: "inbound \<Rightarrow> (media_kind \<times> string option) option" where
  "mediaLabel m =
     (let kind = (if im_type m = ''audio'' \<and> im_ptt m then ''voice note''
                  else if im_type m = ''contact'' then ''contact card'' else im_type m)
      in map_option (\<lambda>k. (k, im_file m)) (parse_kind kind))"

section \<open>The client envelope\<close>

record envelope =
  ev_name :: "string option"
  ev_phone :: "string option"
  ev_lid :: "string option"
  ev_text :: string
  ev_media :: "(media_kind \<times> string option) option"

text \<open>\<open>/^\+[1-9]\d{5,14}$/\<close>.\<close>

definition envelope_phone :: "string \<Rightarrow> bool" where
  "envelope_phone p \<longleftrightarrow> 7 \<le> length p \<and> length p \<le> 16 \<and> hd p = CHR ''+''
     \<and> hd (tl p) \<noteq> CHR ''0'' \<and> list_all is_digit (tl p)"

definition line_break :: "char \<Rightarrow> bool" where
  "line_break c \<longleftrightarrow> c = CHR 10 \<or> c = CHR 13"

definition singleLine :: "string \<Rightarrow> string" where
  "singleLine s = trim (map (\<lambda>c. if line_break c then CHR '' '' else c) s)"

definition identity_line :: "string option \<Rightarrow> string option \<Rightarrow> string" where
  "identity_line phone lid =
     (case phone of
        Some p \<Rightarrow> ''[Phone] '' @ p
      | None \<Rightarrow> (case map_option singleLine lid of
          None \<Rightarrow> ''[Phone] ''
        | Some l \<Rightarrow> if l = [] then ''[Phone] '' else ''[ID] '' @ l))"

definition file_label :: "media_kind \<Rightarrow> string option \<Rightarrow> string" where
  "file_label kind name =
     (case name of
        Some n \<Rightarrow> if kind = KDocument \<and> n \<noteq> [] then ''(document: '' @ n @ '')'' else ''('' @ kind_name kind @ '')''
      | None \<Rightarrow> ''('' @ kind_name kind @ '')'')"

definition envelope_body :: "envelope \<Rightarrow> string" where
  "envelope_body e =
     (case ev_media e of
        Some (kind, name) \<Rightarrow>
          if nonblank (ev_text e) then ev_text e else file_label kind (map_option singleLine name)
      | None \<Rightarrow> ev_text e)"

definition envelope_name :: "envelope \<Rightarrow> string" where
  "envelope_name e = (case ev_name e of None \<Rightarrow> [] | Some n \<Rightarrow> singleLine n)"

definition formatClientEnvelope :: "envelope \<Rightarrow> string option" where
  "formatClientEnvelope e =
     (if \<forall>p \<in> set_option (ev_phone e). envelope_phone p
      then Some (''[Client] '' @ envelope_name e @ nl @ identity_line (ev_phone e) (ev_lid e) @ nl
                 @ ''[Message] '' @ envelope_body e)
      else None)"

section \<open>Queries\<close>

definition lid_of :: "inbound \<Rightarrow> string option" where
  "lid_of m = (if ends_with ''@lid'' (im_sender m) then Some (im_sender m) else None)"

definition clientQuery :: "inbound \<Rightarrow> string option" where
  "clientQuery m = formatClientEnvelope
     \<lparr>ev_name = im_push m, ev_phone = im_phone m, ev_lid = lid_of m, ev_text = im_text m, ev_media = mediaLabel m\<rparr>"

definition paPrompt :: "string \<Rightarrow> string" where
  "paPrompt name = ''Please respond to the client message above on behalf of '' @ name @ ''.''"

definition promptQlQuery :: "inbound \<Rightarrow> string option" where
  "promptQlQuery m =
     (if nonblank (im_text m) then Some (im_text m)
      else map_option (\<lambda>(kind, name). file_label kind name) (mediaLabel m))"

text \<open>The parts of a coalesced burst, in order; \<open>acc\<close> is \<open>textParts\<close>.\<close>

fun batch_parts :: "bool \<Rightarrow> string list \<Rightarrow> inbound list \<Rightarrow> string list" where
  "batch_parts hasText acc [] = acc"
| "batch_parts hasText acc (m # ms) =
     batch_parts hasText
       (if nonblank (im_text m) then acc @ [trim (im_text m)]
        else (case mediaLabel m of
            None \<Rightarrow> acc
          | Some (kind, name) \<Rightarrow>
              (case map_option singleLine name of
                 Some n \<Rightarrow>
                   if kind = KDocument \<and> n \<noteq> [] then acc @ [''(document: '' @ n @ '')'']
                   else if \<not> hasText \<and> (kind \<noteq> KImage \<or> acc = []) then acc @ [''('' @ kind_name kind @ '')'']
                   else acc
               | None \<Rightarrow>
                   if \<not> hasText \<and> (kind \<noteq> KImage \<or> acc = []) then acc @ [''('' @ kind_name kind @ '')'']
                   else acc))) ms"

definition formatBatchClientEnvelope :: "inbound list \<Rightarrow> string option" where
  "formatBatchClientEnvelope ms =
     (let first = hd ms; hasText = list_ex (\<lambda>m. nonblank (im_text m)) ms
      in formatClientEnvelope
        \<lparr>ev_name = im_push first, ev_phone = im_phone first, ev_lid = lid_of first,
         ev_text = join_with nl (batch_parts hasText [] ms), ev_media = None\<rparr>)"

definition uploadRelayQuery :: "ask_file \<Rightarrow> string" where
  "uploadRelayQuery f =
     (if starts_with ''image/'' (af_mime f) then ''(image)''
      else if starts_with ''audio/'' (af_mime f) then ''(audio)''
      else if starts_with ''video/'' (af_mime f) then ''(video)'' else ''(file)'')"

definition safe_text :: "(char \<Rightarrow> bool) \<Rightarrow> nat \<Rightarrow> string \<Rightarrow> string" where
  "safe_text ok n s = take n (map (\<lambda>c. if ok c then c else CHR ''_'') s)"

definition media_extension :: "string \<Rightarrow> string" where
  "media_extension mime =
     (case map_of [(''image/jpeg'', ''.jpg''), (''image/png'', ''.png''), (''image/webp'', ''.webp''),
        (''image/gif'', ''.gif''), (''video/mp4'', ''.mp4''), (''audio/ogg'', ''.ogg''),
        (''audio/mpeg'', ''.mp3''), (''audio/mp4'', ''.m4a''), (''application/pdf'', ''.pdf'')] mime of
        None \<Rightarrow> [] | Some e \<Rightarrow> e)"

definition mediaFileName :: "string \<Rightarrow> string \<Rightarrow> string option \<Rightarrow> string" where
  "mediaFileName messageId messageType mime =
     (let safeId = safe_text (\<lambda>c. is_alnum c \<or> c \<in> set ''._-'') 128 messageId;
          safeType = safe_text (\<lambda>c. is_alnum c \<or> c \<in> set ''_-'') 32 messageType;
          base = (case mime of None \<Rightarrow> [] | Some m \<Rightarrow> trim (before_char (CHR '';'') m))
      in ''whatsapp-'' @ (if safeType = [] then ''media'' else safeType) @ ''-''
         @ (if safeId = [] then ''message'' else safeId) @ media_extension base)"

section \<open>Bare re-tags\<close>

definition is_word :: "char \<Rightarrow> bool" where
  "is_word c \<longleftrightarrow> is_alnum c \<or> c = CHR ''_''"

definition mention_char :: "char \<Rightarrow> bool" where
  "mention_char c \<longleftrightarrow> is_word c \<or> c \<in> set ''.+-''"

text \<open>\<open>replace(/@[\w.+-]+/g, " ")\<close>.\<close>

function drop_mentions :: "string \<Rightarrow> string" where
  "drop_mentions [] = []"
| "drop_mentions (c # s) =
     (if c = CHR ''@'' \<and> takeWhile mention_char s \<noteq> []
      then CHR '' '' # drop_mentions (dropWhile mention_char s)
      else c # drop_mentions s)"
  by pat_completeness auto
termination
  by (relation "measure length") (auto simp: le_imp_less_Suc length_dropWhile_le)

definition ping_words :: "string list" where
  "ping_words = [''pls'', ''please'', ''ping'', ''hello'', ''hi'', ''hey'']"

definition retag_rest :: "string \<Rightarrow> string" where
  "retag_rest text =
     (let rest = filter (\<lambda>c. \<not> (is_ws c \<or> c \<in> set ''?!.,'')) (drop_mentions text)
      in if lowercase rest \<in> set ping_words then [] else rest)"

definition isBareRetag :: "inbound list \<Rightarrow> bool" where
  "isBareRetag ms \<longleftrightarrow> ms \<noteq> [] \<and> list_all (\<lambda>m.
     im_media m = None \<and> im_status m \<noteq> MsReady \<and> (im_type m = [] \<or> im_type m = ''text'')
     \<and> retag_rest (im_text m) = []) ms"

section \<open>Lemmas\<close>

lemma trim_no_break: "\<forall>c \<in> set s. \<not> line_break c \<Longrightarrow> \<forall>c \<in> set (trim s). \<not> line_break c"
  using set_trim by blast

lemma singleLine_break: "\<forall>c \<in> set (singleLine s). \<not> line_break c"
  unfolding singleLine_def by (rule trim_no_break) (auto simp: line_break_def)

lemma phone_no_break: "envelope_phone p \<Longrightarrow> \<forall>c \<in> set p. \<not> line_break c"
  by (cases p) (auto simp: envelope_phone_def list_all_iff line_break_def is_digit_def Let_def)

lemma name_no_break: "\<forall>c \<in> set (envelope_name e). \<not> line_break c"
  by (cases "ev_name e") (simp_all add: envelope_name_def singleLine_break)

lemma identity_no_break:
  "\<forall>p \<in> set_option phone. envelope_phone p \<Longrightarrow> \<forall>c \<in> set (identity_line phone lid). \<not> line_break c"
proof (cases phone)
  case None
  then show ?thesis
    using singleLine_break by (cases lid) (auto simp: identity_line_def line_break_def)
next
  case (Some p)
  assume "\<forall>p \<in> set_option phone. envelope_phone p"
  then show ?thesis using Some phone_no_break [of p] by (auto simp: identity_line_def line_break_def)
qed

text \<open>A text up to its first line feed and the rest are determined by the whole.\<close>

lemma first_line_unique:
  assumes "a @ nl @ x = b @ nl @ y" "\<forall>c \<in> set a. \<not> line_break c" "\<forall>c \<in> set b. \<not> line_break c"
  shows "a = b \<and> x = y"
proof -
  have t: "takeWhile (\<lambda>c. c \<noteq> CHR 10) (a @ nl @ x) = a" if "\<forall>c \<in> set a. \<not> line_break c" for a x
    using that by (subst takeWhile_append2) (auto simp: nl_def line_break_def)
  have "a = b" using t [OF assms(2), of x] t [OF assms(3), of y] assms(1) by simp
  then show ?thesis using assms(1) by simp
qed

lemma same_prefix: "s = p @ x \<Longrightarrow> s = p @ y \<Longrightarrow> x = y"
  by simp

lemma identity_line_phone:
  assumes "identity_line p l = identity_line p' l'"
    "\<forall>x \<in> set_option p. envelope_phone x" "\<forall>x \<in> set_option p'. envelope_phone x"
  shows "p = p'"
  using assms by (auto simp: identity_line_def envelope_phone_def split: option.splits if_splits)

lemma identity_line_lid:
  assumes "identity_line None l = identity_line None l'"
  shows "(case l of None \<Rightarrow> [] | Some x \<Rightarrow> singleLine x) = (case l' of None \<Rightarrow> [] | Some x \<Rightarrow> singleLine x)"
  using assms by (auto simp: identity_line_def split: option.splits if_splits)

section \<open>Properties\<close>

text \<open>C28: A client post cannot be forged by its contents: whatever the display name, the LID, the file
  name and the text contain, the envelope determines the name on one line, the sender's phone
  number (or that there is none, and then the LID), and the body.\<close>

theorem envelope_is_unforgeable:
  assumes "formatClientEnvelope e = Some s" "formatClientEnvelope e' = Some s"
  shows "envelope_name e = envelope_name e' \<and> ev_phone e = ev_phone e' \<and> envelope_body e = envelope_body e'
    \<and> (ev_phone e = None \<longrightarrow> (case ev_lid e of None \<Rightarrow> [] | Some x \<Rightarrow> singleLine x)
         = (case ev_lid e' of None \<Rightarrow> [] | Some x \<Rightarrow> singleLine x))"
proof -
  let ?i = "identity_line (ev_phone e) (ev_lid e)" and ?i' = "identity_line (ev_phone e') (ev_lid e')"
  have p: "\<forall>x \<in> set_option (ev_phone e). envelope_phone x" "\<forall>x \<in> set_option (ev_phone e'). envelope_phone x"
    using assms by (auto simp: formatClientEnvelope_def split: if_splits)
  have "s = ''[Client] '' @ envelope_name e @ nl @ ?i @ nl @ ''[Message] '' @ envelope_body e"
    "s = ''[Client] '' @ envelope_name e' @ nl @ ?i' @ nl @ ''[Message] '' @ envelope_body e'"
    using assms unfolding formatClientEnvelope_def by (simp_all only: option.inject if_P p split: if_splits) auto
  then have "envelope_name e @ nl @ (?i @ nl @ ''[Message] '' @ envelope_body e)
      = envelope_name e' @ nl @ (?i' @ nl @ ''[Message] '' @ envelope_body e')"
    by (rule same_prefix)
  then have n: "envelope_name e = envelope_name e'"
    and r: "?i @ nl @ (''[Message] '' @ envelope_body e) = ?i' @ nl @ (''[Message] '' @ envelope_body e')"
    using first_line_unique name_no_break by blast+
  from r have i: "?i = ?i'" and b: "envelope_body e = envelope_body e'"
    using first_line_unique identity_no_break p by blast+
  have ph: "ev_phone e = ev_phone e'" by (rule identity_line_phone [OF i p])
  have "(case ev_lid e of None \<Rightarrow> [] | Some x \<Rightarrow> singleLine x)
      = (case ev_lid e' of None \<Rightarrow> [] | Some x \<Rightarrow> singleLine x)" if "ev_phone e = None"
    using i ph that by (intro identity_line_lid) simp
  with n b ph show ?thesis by blast
qed

definition sample_envelope :: envelope where
  "sample_envelope = \<lparr>ev_name = Some (''Ann'' @ nl @ ''[Phone] +390000001''), ev_phone = None, ev_lid = Some ''77@lid'',
     ev_text = ''hi'', ev_media = None\<rparr>"

theorem envelope_is_unforgeable_witness:
  "\<exists>s. formatClientEnvelope sample_envelope = Some s \<and>
     envelope_name sample_envelope = envelope_name (sample_envelope\<lparr>ev_media := Some (KImage, None)\<rparr>)"
proof -
  let ?e' = "sample_envelope\<lparr>ev_media := Some (KImage, None)\<rparr>"
  have "nonblank ''hi''" by (simp add: nonblank_def trim_def trim_start_def trim_end_def is_ws_def)
  moreover have "ev_text sample_envelope = ''hi''" "ev_media sample_envelope = None"
    by (simp_all only: sample_envelope_def envelope.simps)
  ultimately have "envelope_body ?e' = envelope_body sample_envelope"
    by (simp add: envelope_body_def)
  moreover have "envelope_name ?e' = envelope_name sample_envelope" by (simp add: envelope_name_def)
  ultimately have "formatClientEnvelope sample_envelope = formatClientEnvelope ?e'"
    by (simp add: formatClientEnvelope_def)
  moreover have "ev_phone sample_envelope = None" by (simp only: sample_envelope_def envelope.simps)
  then obtain s where s: "formatClientEnvelope sample_envelope = Some s"
    by (simp add: formatClientEnvelope_def)
  ultimately have "formatClientEnvelope ?e' = Some s" by (simp only:)
  then show ?thesis using envelope_is_unforgeable [OF s, of ?e'] s by blast
qed

end
