(* ===== verification/Craft.thy ===== *)
theory Craft
  imports Messages Json
begin

text \<open>
  The system instruction of an ask (\<open>src/craft/orgCraft.ts\<close>): the playbooks, the refusal of
  PII-shaped text, the loader and the contract added to an invoice turn. Text is searched by its
  maximal runs of word characters, which is what \<open>\b...\b\<close> around a word matches. The bundled
  playbooks and the result of reading the file are arguments; the em dash is \<open>em_dash\<close>.
\<close>

section \<open>Words of a text\<close>

fun word_runs :: "string \<Rightarrow> string list" where
  "word_runs [] = [[]]"
| "word_runs (c # s) =
     (if is_word c then (case word_runs s of [] \<Rightarrow> [[c]] | w # ws \<Rightarrow> (c # w) # ws) else [] # word_runs s)"

definition words_of :: "string \<Rightarrow> string list" where
  "words_of s = filter (\<lambda>w. w \<noteq> []) (word_runs s)"

section \<open>Playbooks\<close>

datatype craft_category = InvoicePattern | ItemId | Sizing | MarketTags | ProceduralCraft

fun category_name :: "craft_category \<Rightarrow> string" where
  "category_name InvoicePattern = ''invoice_pattern''"
| "category_name ItemId = ''item_id''"
| "category_name Sizing = ''sizing''"
| "category_name MarketTags = ''market_tags''"
| "category_name ProceduralCraft = ''procedural_craft''"

definition parse_category :: "string \<Rightarrow> craft_category option" where
  "parse_category s =
     find (\<lambda>c. category_name c = s) [InvoicePattern, ItemId, Sizing, MarketTags, ProceduralCraft]"

record playbook =
  pb_key :: string
  pb_category :: craft_category
  pb_title :: string
  pb_instructions :: string

definition parse_playbook :: "json \<Rightarrow> playbook option" where
  "parse_playbook j =
     (case j of
        JObj kvs \<Rightarrow>
          (let m = map_of (rev kvs) in
           if set (map fst kvs) = {''playbook_key'', ''category'', ''title'', ''instructions''} then
             (case (m ''playbook_key'', m ''category'', m ''title'', m ''instructions'') of
                (Some (JStr k), Some (JStr c), Some (JStr t), Some (JStr i)) \<Rightarrow>
                  (case parse_category c of
                     None \<Rightarrow> None
                   | Some cat \<Rightarrow>
                       if nonblank k \<and> length (trim k) \<le> 100 \<and> nonblank t \<and> length (trim t) \<le> 255 \<and> nonblank i
                       then Some \<lparr>pb_key = trim k, pb_category = cat, pb_title = trim t, pb_instructions = trim i\<rparr>
                       else None)
              | _ \<Rightarrow> None)
           else None)
      | _ \<Rightarrow> None)"

definition parsePlaybooks :: "json \<Rightarrow> playbook list" where
  "parsePlaybooks j = (case j of JArr xs \<Rightarrow> List.map_filter parse_playbook xs | _ \<Rightarrow> [])"

definition pii_word :: "string \<Rightarrow> bool" where
  "pii_word w \<longleftrightarrow>
     (let l = lowercase w in
      l \<in> set [''phone'', ''e164'', ''price'', ''margin'', ''quote'', ''iban'']
      \<or> list_ex (\<lambda>p. starts_with p l) [''client_'', ''bank_'', ''supplier_'', ''contact_''])"

definition pii_shaped :: "string \<Rightarrow> bool" where
  "pii_shaped s \<longleftrightarrow> list_ex pii_word (words_of s)"

text \<open>\<open>assertCraftOnly\<close> does not throw.\<close>

definition assertCraftOnly :: "playbook \<Rightarrow> bool" where
  "assertCraftOnly p \<longleftrightarrow> \<not> pii_shaped (pb_key p @ nl @ pb_title p @ nl @ pb_instructions p)"

definition em_dash :: string where "em_dash = [CHR 151]"
definition para :: string where "para = nl @ nl"

definition playbook_block :: "playbook \<Rightarrow> string" where
  "playbook_block p = ''### '' @ category_name (pb_category p) @ ''/'' @ pb_key p @ '' '' @ em_dash @ '' ''
     @ pb_title p @ nl @ trim (pb_instructions p)"

definition craft_header :: string where
  "craft_header = ''ORG SHARED CRAFT (procedural only '' @ em_dash @ '' zero per-seat PII).'' @ para @
     ''Private ledger stays firewalled. Do not echo another operator's book.''"

definition formatCraftSystemInstruction :: "playbook list \<Rightarrow> string" where
  "formatCraftSystemInstruction ps =
     (let clean = filter assertCraftOnly ps in
      if clean = [] then [] else craft_header @ para @ join_with para (map playbook_block clean))"

definition ensureInvoicePlaybook :: "playbook list \<Rightarrow> string \<Rightarrow> string" where
  "ensureInvoicePlaybook bundled text =
     (if includes_str ''function generate_invoice_pdf'' text \<and> includes_str ''application/pdf'' text then text
      else
        let block = formatCraftSystemInstruction (filter (\<lambda>p. pb_key p = ''invoice_pdf_luxury_caption'') bundled)
        in if block = [] then text else trim text @ para @ block)"

record craft_opts =
  co_enabled :: bool
  co_inline :: "string option"
  co_file :: "json option option"
  co_defaults :: bool

definition default_craft :: "playbook list \<Rightarrow> craft_opts \<Rightarrow> string option" where
  "default_craft bundled opts =
     (if \<not> co_defaults opts then None
      else let formatted = formatCraftSystemInstruction bundled
           in if formatted = [] then None else Some (ensureInvoicePlaybook bundled formatted))"

definition loadOrgCraftSystemInstruction :: "playbook list \<Rightarrow> craft_opts \<Rightarrow> string option" where
  "loadOrgCraftSystemInstruction bundled opts =
     (if \<not> co_enabled opts then None
      else
        let inline = (case co_inline opts of None \<Rightarrow> [] | Some i \<Rightarrow> trim i) in
        if inline \<noteq> [] then
          (if pii_shaped inline then None else Some (ensureInvoicePlaybook bundled inline))
        else
          (case co_file opts of
             Some (Some j) \<Rightarrow>
               let formatted = formatCraftSystemInstruction (parsePlaybooks j)
               in if formatted \<noteq> [] then Some (ensureInvoicePlaybook bundled formatted)
                  else default_craft bundled opts
           | _ \<Rightarrow> default_craft bundled opts))"

section \<open>The contract of an invoice turn\<close>

definition INVOICE_TURN_CONTRACT :: string where
  "INVOICE_TURN_CONTRACT =
     ''THIS TURN IS AN INVOICE REQUEST. You MUST run program '' @
     ''sept_multimodal_recognition file deal_execution_flow.py function '' @
     ''generate_invoice_pdf and return the application/pdf artifact instead of a '' @
     ''link. A permalink is not an invoice. An HTML chip is not an invoice. Emit '' @
     ''only <artifact type='' @
     [CHR 34] @
     ''file'' @
     [CHR 34] @
     '' identifier='' @
     [CHR 34] @
     ''sept_invoice_<deal_id>'' @
     [CHR 34] @
     '' /> whose bytes '' @
     ''are application/pdf. Do not return HTML, markdown, JSON, or a visualization '' @
     ''chip. If the PDF cannot be produced, say the invoice is being prepared. Never '' @
     ''ask for payment credentials.''"

text \<open>What follows the last \<open>Operator message:\<close>, in any case.\<close>

definition operator_marker :: string where "operator_marker = ''operator message:''"

fun after_marker :: "string \<Rightarrow> string option" where
  "after_marker [] = None"
| "after_marker (c # s) =
     (case after_marker s of
        Some r \<Rightarrow> Some r
      | None \<Rightarrow> if starts_with operator_marker (lowercase (c # s))
                then Some (drop (length operator_marker) (c # s)) else None)"

definition operator_text :: "string \<Rightarrow> string" where
  "operator_text s = trim (case after_marker s of None \<Rightarrow> s | Some r \<Rightarrow> r)"

definition question_words :: "string list" where
  "question_words = [''what'', ''which'', ''when'', ''where'', ''who'', ''why'', ''how'']"

definition operatorRequestsInvoice :: "string \<Rightarrow> bool" where
  "operatorRequestsInvoice s =
     (let operator = operator_text s in
      operator \<noteq> []
      \<and> \<not> lowercase (takeWhile is_word operator) \<in> set question_words
      \<and> list_ex (\<lambda>w. lowercase w \<in> set [''invoice'', ''invoices'', ''receipt'', ''receipts'']) (words_of operator))"

definition withInvoiceTurnContract :: "string option \<Rightarrow> string \<Rightarrow> string option" where
  "withInvoiceTurnContract instr query =
     (if \<not> operatorRequestsInvoice query then instr
      else
        let base = (case instr of None \<Rightarrow> [] | Some i \<Rightarrow> trim i) in
        if includes_str ''THIS TURN IS AN INVOICE REQUEST'' base then (if base = [] then None else Some base)
        else if base = [] then Some INVOICE_TURN_CONTRACT
        else Some (base @ para @ INVOICE_TURN_CONTRACT))"

section \<open>Lemmas\<close>

lemma word_runs_ne [simp]: "word_runs s \<noteq> []"
  by (cases s) (auto split: list.split)

lemma word_runs_break: "\<not> is_word c \<Longrightarrow> word_runs (a @ c # b) = word_runs a @ word_runs b"
  by (induction a) (auto split: list.split simp: append_eq_Cons_conv)

lemma words_break: "\<not> is_word c \<Longrightarrow> words_of (a @ c # b) = words_of a @ words_of b"
  by (simp add: words_of_def word_runs_break)

lemma ws_not_word: "is_ws c \<Longrightarrow> \<not> is_word c"
  by (auto simp: is_ws_def is_word_def is_alnum_def is_digit_def is_upper_def is_lower_def Let_def)

lemma words_drop_ws: "words_of (dropWhile is_ws s) = words_of s"
proof (induction s)
  case (Cons c s)
  then show ?case
    using ws_not_word [of c] words_break [of c "[]" s] by (auto simp: words_of_def)
qed simp

lemma words_trim_end: "words_of (trim_end s) = words_of s"
proof (induction s rule: rev_induct)
  case (snoc c s)
  then show ?case
    using ws_not_word [of c] words_break [of c s "[]"]
    by (auto simp: trim_end_def words_of_def)
qed (simp add: trim_end_def)

lemma words_trim: "words_of (trim s) = words_of s"
  by (simp add: trim_def words_trim_end) (simp add: trim_start_def words_drop_ws)

lemma pii_break: "\<not> is_word c \<Longrightarrow> pii_shaped (a @ c # b) \<longleftrightarrow> pii_shaped a \<or> pii_shaped b"
  by (simp add: pii_shaped_def words_break)

lemma pii_trim: "pii_shaped (trim s) = pii_shaped s"
  by (simp add: pii_shaped_def words_trim)

lemma not_word: "\<not> is_word (CHR 10)" "\<not> is_word (CHR '' '')" "\<not> is_word (CHR ''/'')" "\<not> is_word (CHR 151)"
  by code_simp+

lemma pii_nl: "pii_shaped (a @ nl @ b) \<longleftrightarrow> pii_shaped a \<or> pii_shaped b"
  using pii_break [OF not_word(1)] by (simp add: nl_def)

lemma pii_empty: "\<not> pii_shaped []"
  by (simp add: pii_shaped_def words_of_def)

lemma pii_para: "pii_shaped (a @ para @ b) \<longleftrightarrow> pii_shaped a \<or> pii_shaped b"
  using pii_nl [of "[]" b] pii_nl [of a "nl @ b"] by (simp add: para_def pii_empty)

lemma pii_join: "\<forall>b \<in> set bs. \<not> pii_shaped b \<Longrightarrow> \<not> pii_shaped (join_with para bs)"
  by (induction bs rule: induct_list012) (auto simp: pii_para pii_empty)

lemma pii_header: "\<not> pii_shaped craft_header"
  by code_simp

lemma pii_category: "\<not> pii_shaped (''### '' @ category_name c)"
  by (induct c; code_simp)

lemma pii_block: "assertCraftOnly p \<Longrightarrow> \<not> pii_shaped (playbook_block p)"
proof -
  assume a: "assertCraftOnly p"
  have e: "pii_shaped (a @ '' '' @ em_dash @ '' '' @ b) \<longleftrightarrow> pii_shaped a \<or> pii_shaped b" for a b
    using pii_break [OF not_word(2), of a "em_dash @ '' '' @ b"] pii_break [OF not_word(4), of "[]" "'' '' @ b"]
      pii_break [OF not_word(2), of "[]" b]
    by (simp add: em_dash_def pii_empty)
  have s: "pii_shaped ((''### '' @ category_name c) @ ''/'' @ b) \<longleftrightarrow> pii_shaped b" for c b
    using pii_break [OF not_word(3), of "''### '' @ category_name c" b] pii_category by simp
  have "playbook_block p = (''### '' @ category_name (pb_category p)) @ ''/'' @ (pb_key p @ '' '' @ em_dash @ '' ''
      @ (pb_title p @ nl @ trim (pb_instructions p)))"
    by (simp add: playbook_block_def)
  then show ?thesis
    using a by (simp only: s e pii_nl pii_trim assertCraftOnly_def) simp
qed

lemma pii_format: "\<not> pii_shaped (formatCraftSystemInstruction ps)"
  using pii_join [of "map playbook_block (filter assertCraftOnly ps)"] pii_block
  by (auto simp: formatCraftSystemInstruction_def Let_def pii_empty pii_para pii_header)

lemma pii_ensure: "pii_shaped (ensureInvoicePlaybook bundled s) \<longleftrightarrow> pii_shaped s"
  by (simp add: ensureInvoicePlaybook_def Let_def pii_para pii_trim pii_format)

section \<open>Properties\<close>

text \<open>C29: Whatever the inline text, the file and the bundled pack contain, the loaded system
  instruction has no PII-shaped word: the only sources of one are refused.\<close>

theorem craft_has_no_pii:
  assumes "loadOrgCraftSystemInstruction bundled opts = Some t"
  shows "\<not> pii_shaped t"
  using assms
  by (auto simp: loadOrgCraftSystemInstruction_def default_craft_def Let_def pii_ensure pii_format
      split: if_splits option.splits)

theorem craft_has_no_pii_witness:
  "\<not> pii_shaped ''Measure twice''"
proof -
  have "loadOrgCraftSystemInstruction []
      \<lparr>co_enabled = True, co_inline = Some ''Measure twice'', co_file = None, co_defaults = True\<rparr>
      = Some ''Measure twice''"
    by code_simp
  then show ?thesis by (rule craft_has_no_pii)
qed

end
