(* ===== verification/Voice.thy ===== *)
theory Voice
  imports Craft
begin

text \<open>
  Voice notes (\<open>src/routing/voiceTranscript.ts\<close>): audio is replaced by its words before an ask.
  The transcriber is an oracle \<open>heard\<close>: its answer to the \<open>n\<close>-th request, \<open>None\<close> when it returns
  \<open>null\<close> or throws. The speech endpoint's answer is an argument too.
\<close>

section \<open>Texts\<close>

definition VOICE_TURN_CONTRACT :: string where
  "VOICE_TURN_CONTRACT =
     ''THIS TURN INCLUDES A WHATSAPP VOICE NOTE. Any spoken words are already '' @
     ''written in the message; the audio was not uploaded. Do not call '' @
     ''speech-to-text, an external HTTP API, or a platform approval flow. Do not ask '' @
     ''anyone to react, click an approval link, or type an approval. Do not claim '' @
     ''that background approvals, platform permissions, or PromptQL settings were '' @
     ''changed. If the message says the voice note could not be transcribed, say '' @
     ''that and nothing else about transcription.''"

definition VOICE_UNAVAILABLE_QUERY :: string where
  "VOICE_UNAVAILABLE_QUERY = ''A voice note was received. It could not be transcribed in this chat.''"

definition VOICE_UNAVAILABLE_NOTICE :: string where
  "VOICE_UNAVAILABLE_NOTICE =
     ''I couldn't transcribe that voice note in this chat. Please type it and I'll take it from there.''"

definition TRANSCRIPT_MAX_CHARS :: nat where "TRANSCRIPT_MAX_CHARS = 8000"

definition withVoiceTurnContract :: "string option \<Rightarrow> bool \<Rightarrow> string option" where
  "withVoiceTurnContract instr voice =
     (if \<not> voice then instr
      else
        let base = (case instr of None \<Rightarrow> [] | Some i \<Rightarrow> trim i) in
        if includes_str ''THIS TURN INCLUDES A WHATSAPP VOICE NOTE.'' base then Some base
        else if base = [] then Some VOICE_TURN_CONTRACT
        else Some (base @ para @ VOICE_TURN_CONTRACT))"

section \<open>The query of a voice turn\<close>

text \<open>
  \<open>replace(/\(voice note\)|\(audio\)/g, ...)\<close>: the first placeholder becomes the block, the others
  nothing; the flag is \<open>seen\<close>.
\<close>

function replace_marks :: "string \<Rightarrow> bool \<Rightarrow> string \<Rightarrow> string \<times> bool" where
  "replace_marks block seen [] = ([], seen)"
| "replace_marks block seen (c # s) =
     (if starts_with ''(voice note)'' (c # s) then
        (let (r, b) = replace_marks block True (drop 12 (c # s)) in ((if seen then [] else block) @ r, b))
      else if starts_with ''(audio)'' (c # s) then
        (let (r, b) = replace_marks block True (drop 7 (c # s)) in ((if seen then [] else block) @ r, b))
      else (let (r, b) = replace_marks block seen s in (c # r, b)))"
  by pat_completeness auto
termination
  by (relation "measure (\<lambda>(b, k, s). length s)") auto

text \<open>\<open>replace(/[ \t]+\n/g, "\n")\<close> and \<open>replace(/\n{3,}/g, "\n\n")\<close>.\<close>

fun strip_line_ends :: "string \<Rightarrow> string" where
  "strip_line_ends [] = []"
| "strip_line_ends (c # s) =
     (let r = strip_line_ends s in
      if (c = CHR '' '' \<or> c = CHR 9) \<and> r \<noteq> [] \<and> hd r = CHR 10 then r else c # r)"

fun collapse_breaks :: "string \<Rightarrow> string" where
  "collapse_breaks [] = []"
| "collapse_breaks (c # s) =
     (let r = collapse_breaks s in if c = CHR 10 \<and> starts_with para r then r else c # r)"

definition mergeVoiceQuery :: "string \<Rightarrow> string \<Rightarrow> string" where
  "mergeVoiceQuery query block =
     (let (replaced, seen) = replace_marks block False query;
          cleaned = trim (collapse_breaks (strip_line_ends replaced)) in
      if seen then cleaned
      else let base = trim query in if base = [] then block else base @ para @ block)"

definition voice_body :: "string option \<Rightarrow> string" where
  "voice_body t =
     (case t of
        None \<Rightarrow> VOICE_UNAVAILABLE_QUERY
      | Some s \<Rightarrow> if nonblank s then take TRANSCRIPT_MAX_CHARS (trim s) else VOICE_UNAVAILABLE_QUERY)"

definition formatVoiceBlock :: "string option list \<Rightarrow> string" where
  "formatVoiceBlock ts =
     (if ts = [] then VOICE_UNAVAILABLE_QUERY
      else join_with para (map (\<lambda>(i, t).
        if 1 < length ts then ''('' @ show_nat (i + 1) @ '') '' @ voice_body t else voice_body t) (enumerate 0 ts)))"

section \<open>Grounding\<close>

definition isAudioFile :: "ask_file \<Rightarrow> bool" where
  "isAudioFile f \<longleftrightarrow> is_audio_mime (af_mime f)"

definition isAudioMessage :: "inbound \<Rightarrow> bool" where
  "isAudioMessage m \<longleftrightarrow> im_type m = ''audio''
     \<or> is_audio_mime (case im_media m of None \<Rightarrow> [] | Some md \<Rightarrow> (case md_mime md of None \<Rightarrow> [] | Some t \<Rightarrow> t))"

text \<open>\<open>text.replace(/\s+/g, " ").trim()\<close>, cut to the limit; empty is \<open>null\<close>.\<close>

definition spoken :: "string \<Rightarrow> string option" where
  "spoken t = (let s = trim (replace_runs is_ws '' '' t)
     in if s = [] then None else Some (take TRANSCRIPT_MAX_CHARS s))"

type_synonym transcriber = "nat \<Rightarrow> ask_file \<Rightarrow> string option"

definition takeTranscript :: "transcriber \<Rightarrow> nat \<Rightarrow> ask_file \<Rightarrow> string option" where
  "takeTranscript heard n f = (case heard n f of None \<Rightarrow> None | Some t \<Rightarrow> spoken t)"

text \<open>The loops of \<open>groundVoiceTurn\<close>: the audio the transcriber was asked for, the transcripts and
  the files kept.\<close>

record grounding =
  gr_asked :: nat
  gr_transcripts :: "string option list"
  gr_kept :: "ask_file list"
  gr_voice :: bool

definition ground_file :: "transcriber \<Rightarrow> ask_file \<Rightarrow> grounding \<Rightarrow> grounding" where
  "ground_file heard f g =
     g\<lparr>gr_asked := gr_asked g + 1, gr_voice := True,
       gr_transcripts := gr_transcripts g @ [takeTranscript heard (gr_asked g) f]\<rparr>"

definition keep_file :: "ask_file \<Rightarrow> grounding \<Rightarrow> grounding" where
  "keep_file f g = g\<lparr>gr_kept := gr_kept g @ [f]\<rparr>"

definition ground_one :: "transcriber \<Rightarrow> ask_file \<Rightarrow> grounding \<Rightarrow> grounding" where
  "ground_one heard f g = (if isAudioFile f then ground_file heard f g else keep_file f g)"

fun ground_rest :: "transcriber \<Rightarrow> ask_file list \<Rightarrow> grounding \<Rightarrow> grounding" where
  "ground_rest heard [] g = g"
| "ground_rest heard (f # fs) g = ground_rest heard fs (ground_one heard f g)"

definition ground_message :: "transcriber \<Rightarrow> inbound \<Rightarrow> ask_file option \<Rightarrow> grounding \<Rightarrow> grounding" where
  "ground_message heard m fo g =
     (if isAudioMessage m \<or> (\<exists>f \<in> set_option fo. isAudioFile f) then
        (case fo of
           Some f \<Rightarrow> if isAudioFile f then ground_file heard f g
                     else g\<lparr>gr_voice := True, gr_transcripts := gr_transcripts g @ [None]\<rparr>
         | None \<Rightarrow> g\<lparr>gr_voice := True, gr_transcripts := gr_transcripts g @ [None]\<rparr>)
      else (case fo of None \<Rightarrow> g | Some f \<Rightarrow> keep_file f g))"

definition take_file :: "inbound \<Rightarrow> ask_file list \<Rightarrow> ask_file option \<times> ask_file list" where
  "take_file m files =
     (if im_status m = MsReady \<and> im_media m \<noteq> None
      then (case files of [] \<Rightarrow> (None, []) | f # fs \<Rightarrow> (Some f, fs)) else (None, files))"

fun ground_messages :: "transcriber \<Rightarrow> inbound list \<Rightarrow> ask_file list \<Rightarrow> grounding \<Rightarrow> grounding" where
  "ground_messages heard [] files g = ground_rest heard files g"
| "ground_messages heard (m # ms) files g =
     ground_messages heard ms (snd (take_file m files)) (ground_message heard m (fst (take_file m files)) g)"

record voice_turn =
  vt_query :: string
  vt_files :: "ask_file list"
  vt_voice :: bool
  vt_ready :: bool
  vt_only :: bool

definition groundVoiceTurn :: "transcriber \<Rightarrow> inbound list \<Rightarrow> ask_file list \<Rightarrow> string \<Rightarrow> voice_turn" where
  "groundVoiceTurn heard ms files query =
     (let g = ground_messages heard ms files \<lparr>gr_asked = 0, gr_transcripts = [], gr_kept = [], gr_voice = False\<rparr>
      in if \<not> gr_voice g
         then \<lparr>vt_query = query, vt_files = files, vt_voice = False, vt_ready = False, vt_only = False\<rparr>
         else \<lparr>vt_query = mergeVoiceQuery query (formatVoiceBlock (gr_transcripts g)),
                vt_files = gr_kept g, vt_voice = True,
                vt_ready = list_ex (\<lambda>t. \<exists>s \<in> set_option t. nonblank s) (gr_transcripts g),
                vt_only = (ms \<noteq> [] \<and> list_all isAudioMessage ms)\<rparr>)"

section \<open>The speech endpoint\<close>

text \<open>The response: the fetch throws, a status outside 200..299, or a body, \<open>None\<close> when it is no
  JSON. \<open>SpeechResponseSchema\<close> passes an object whose two texts are texts when present.\<close>

datatype speech_response = FetchFailed | HttpError nat | SpeechBody "json option"

definition speech_field :: "string \<Rightarrow> (string \<times> json) list \<Rightarrow> string option option" where
  "speech_field k kvs =
     (case map_of (rev kvs) k of None \<Rightarrow> Some None | Some (JStr s) \<Rightarrow> Some (Some s) | Some _ \<Rightarrow> None)"

definition postSpeech :: "speech_response \<Rightarrow> string option" where
  "postSpeech r =
     (case r of
        SpeechBody (Some (JObj kvs)) \<Rightarrow>
          (case (speech_field ''text'' kvs, speech_field ''transcript'' kvs) of
             (Some t, Some u) \<Rightarrow>
               spoken (case t of Some s \<Rightarrow> s | None \<Rightarrow> (case u of Some s \<Rightarrow> s | None \<Rightarrow> []))
           | _ \<Rightarrow> None)
      | _ \<Rightarrow> None)"

definition createVoiceTranscriber :: "string \<Rightarrow> (nat \<Rightarrow> ask_file \<Rightarrow> speech_response) \<Rightarrow> transcriber" where
  "createVoiceTranscriber url post = (if trim url = [] then (\<lambda>n f. None) else (\<lambda>n f. postSpeech (post n f)))"

section \<open>Lemmas\<close>

definition no_audio :: "ask_file list \<Rightarrow> bool" where
  "no_audio fs \<longleftrightarrow> (\<forall>f \<in> set fs. \<not> isAudioFile f)"

lemmas ground_defs = ground_message_def ground_file_def keep_file_def no_audio_def

text \<open>What the loops keep: no audio among the kept files, at most one transcript per request or
  message, and, as long as nothing was audio, every file in its order.\<close>

definition kept_ok :: "grounding \<Rightarrow> bool" where
  "kept_ok g \<longleftrightarrow> no_audio (gr_kept g) \<and> (gr_voice g \<longleftrightarrow> gr_transcripts g \<noteq> [])
     \<and> gr_asked g \<le> length (gr_transcripts g)
     \<and> (\<forall>t \<in> set (gr_transcripts g). \<forall>s \<in> set_option t. length s \<le> TRANSCRIPT_MAX_CHARS)"

lemma spoken_bound: "spoken t = Some s \<Longrightarrow> length s \<le> TRANSCRIPT_MAX_CHARS"
  by (auto simp: spoken_def Let_def split: if_splits)

lemma takeTranscript_bound: "takeTranscript heard n f = Some s \<Longrightarrow> length s \<le> TRANSCRIPT_MAX_CHARS"
  by (auto simp: takeTranscript_def spoken_bound split: option.splits)

lemma ground_message_ok: "kept_ok g \<Longrightarrow> kept_ok (ground_message heard m fo g)"
  by (cases fo) (auto simp: kept_ok_def ground_defs takeTranscript_bound)

lemma ground_one_ok: "kept_ok g \<Longrightarrow> kept_ok (ground_one heard f g)"
  by (auto simp: ground_one_def kept_ok_def ground_defs takeTranscript_bound)

lemma ground_rest_ok: "kept_ok g \<Longrightarrow> kept_ok (ground_rest heard fs g)"
  by (induction fs arbitrary: g) (simp_all add: ground_one_ok)

lemma ground_messages_ok: "kept_ok g \<Longrightarrow> kept_ok (ground_messages heard ms fs g)"
  by (induction ms arbitrary: fs g) (simp_all add: ground_rest_ok ground_message_ok)

lemma take_file_parts:
  "(fst (take_file m fs) = None \<and> snd (take_file m fs) = fs)
   \<or> (\<exists>f. fst (take_file m fs) = Some f \<and> fs = f # snd (take_file m fs))"
  by (auto simp: take_file_def split: list.splits)

text \<open>The kept files are a subsequence of the files; without voice none of them is audio.\<close>

lemma subseq_skip: "subseq (xs @ ys) (xs @ y # ys)"
  by (simp add: subseq_append_iff) (metis append.left_neutral list_emb_Cons subseq_append' subseq_order.order_refl)

lemma ground_one_kept: "subseq (gr_kept (ground_one heard f g) @ fs) (gr_kept g @ f # fs)"
  by (simp add: ground_one_def ground_file_def keep_file_def subseq_skip)

lemma ground_rest_kept: "subseq (gr_kept (ground_rest heard fs g)) (gr_kept g @ fs)"
proof (induction fs arbitrary: g)
  case (Cons f fs)
  show ?case using Cons [of "ground_one heard f g"] ground_one_kept by (simp, rule subseq_order.trans)
qed simp

lemma ground_message_kept:
  "subseq (gr_kept (ground_message heard m (fst (take_file m fs)) g) @ snd (take_file m fs)) (gr_kept g @ fs)"
proof (cases "fst (take_file m fs)")
  case None
  then show ?thesis using take_file_parts [of m fs] by (simp add: ground_message_def)
next
  case (Some f)
  then have fs: "fs = f # snd (take_file m fs)" using take_file_parts [of m fs] by simp
  have "gr_kept (ground_message heard m (Some f) g) \<in> {gr_kept g, gr_kept g @ [f]}"
    by (simp add: ground_message_def ground_file_def keep_file_def)
  then show ?thesis using Some by (subst fs) (auto simp: subseq_skip)
qed

lemma ground_messages_kept: "subseq (gr_kept (ground_messages heard ms fs g)) (gr_kept g @ fs)"
proof (induction ms arbitrary: fs g)
  case (Cons m ms)
  show ?case by (simp, rule subseq_order.trans [OF Cons ground_message_kept])
qed (simp add: ground_rest_kept)

lemma ground_one_silent: "\<not> gr_voice (ground_one heard f g) \<Longrightarrow> \<not> gr_voice g \<and> \<not> isAudioFile f"
  by (auto simp: ground_one_def ground_file_def keep_file_def split: if_splits)

lemma ground_rest_silent: "\<not> gr_voice (ground_rest heard fs g) \<Longrightarrow> \<not> gr_voice g \<and> no_audio fs"
  by (induction fs arbitrary: g) (auto simp: no_audio_def dest: ground_one_silent)

lemma ground_message_silent:
  "\<not> gr_voice (ground_message heard m fo g) \<Longrightarrow> \<not> gr_voice g \<and> (\<forall>f \<in> set_option fo. \<not> isAudioFile f)"
  by (cases fo) (auto simp: ground_defs split: if_splits)

lemma ground_messages_silent:
  "\<not> gr_voice (ground_messages heard ms fs g) \<Longrightarrow> \<not> gr_voice g \<and> no_audio fs"
proof (induction ms arbitrary: fs g)
  case (Cons m ms)
  let ?g = "ground_message heard m (fst (take_file m fs)) g"
  have "\<not> gr_voice ?g \<and> no_audio (snd (take_file m fs))" using Cons by simp
  then show ?case
    using ground_message_silent [of heard m "fst (take_file m fs)" g] take_file_parts [of m fs]
    by (auto simp: no_audio_def) (metis set_ConsD)
qed (simp add: ground_rest_silent)

lemma grounded_files:
  "no_audio (vt_files (groundVoiceTurn heard ms files query))
   \<and> subseq (vt_files (groundVoiceTurn heard ms files query)) files"
proof -
  let ?g0 = "\<lparr>gr_asked = 0, gr_transcripts = [], gr_kept = [], gr_voice = False\<rparr>"
  have "kept_ok ?g0" by (simp add: kept_ok_def no_audio_def)
  then have "no_audio (gr_kept (ground_messages heard ms files ?g0))"
    using ground_messages_ok by (auto simp: kept_ok_def)
  then show ?thesis
    using ground_messages_kept [of heard ms files ?g0] ground_messages_silent [of heard ms files ?g0]
    by (auto simp: groundVoiceTurn_def Let_def)
qed

section \<open>Properties\<close>

text \<open>Whatever the transcriber answers, no audio file survives grounding: the files that remain are
  a subsequence of the turn's files without audio, and a turn that held an audio file is marked
  as a voice turn.\<close>

theorem grounding_withholds_audio:
  "no_audio (vt_files (groundVoiceTurn heard ms files query))
   \<and> subseq (vt_files (groundVoiceTurn heard ms files query)) files
   \<and> (vt_voice (groundVoiceTurn heard ms files query) \<or> vt_files (groundVoiceTurn heard ms files query) = files)"
  using grounded_files [of heard ms files query] by (simp add: groundVoiceTurn_def Let_def)

end
