(* ===== verification/World.thy ===== *)
theory World
  imports Voice ChatBots OutboundLog Resolver ServiceTables Welcome
begin

text \<open>
  The state that \<open>src/routing/inboundRouter.ts\<close> works on, its environment, and what the router does
  to it in single steps. An asynchronous handler is a function of the world that returns the new
  world and a value, or the error it throws: a throw keeps what was done before it. At every
  \<open>await\<close> the environment may deliver events (\<open>dp_during\<close>): membership changes, changes of the
  registry and the settings, ends of runs. Other chats' work is not among them: it has other keys.

  The environment answers by oracles: the PromptQL adapter per ask, the group lookup, speech,
  uuids and nonces per use, the time that passes at an \<open>await\<close>.
\<close>

section \<open>Asks and effects\<close>

datatype response_mode = ForceSkip | ForceRespond

record ask_result =
  ar_thread :: string
  ar_event :: "string option"

record ask_call =
  ak_chat :: "string \<times> string"
  ak_identity :: posting_identity
  ak_query :: string
  ak_thread :: "string option"
  ak_room :: "string option"
  ak_mode :: response_mode
  ak_files :: "ask_file list"
  ak_instruction :: "string option"

text \<open>An answer, an \<open>AskSubmissionError\<close> with its status, or another error.\<close>

datatype ask_outcome = Answered ask_result | Refused string ask_result | AskBroke

datatype failure = SubmissionFailed string ask_result | Raised

record dispatch =
  ds_workflow :: string
  ds_chat :: "string \<times> string"
  ds_shopper :: string
  ds_role :: role
  ds_key :: string
  ds_token :: string
  ds_thread :: string
  ds_event :: "string option"
  ds_pa_pacing :: bool
  ds_welcome :: bool
  ds_operator_text :: string

datatype effect =
    Notified "string \<times> string" string
  | Reacted "string \<times> string" string
  | Dispatched dispatch
  | WelcomeText "string \<times> string" string string string string

section \<open>Environment and world\<close>

record routing_group =
  rg_linked :: bool
  rg_members :: "(string \<times> string option) list"

record member_event =
  me_connection :: string
  me_group :: string
  me_added_by :: "string option"

datatype outside =
    MembershipChange member_event bool
  | RegistryChange identity_db
  | SettingsChange "settings_row option"
  | RunEnded "string \<times> string" nat

record world =
  w_chat :: chat_db
  w_log :: "out_row list"
  w_store :: "stored list"
  w_flows :: "workflow list"
  w_audit :: "audit_row list"
  w_welcome :: "welcome_row list"
  w_identity :: identity_db
  w_settings :: "settings_row option"
  w_epochs :: "string \<times> string \<Rightarrow> nat"
  w_flight :: "string \<times> string \<Rightarrow> nat option"
  w_asks :: "ask_call list"
  w_out :: "effect list"
  w_now :: time
  w_awaits :: nat
  w_uuids :: nat

record deps =
  dp_relayUnregistered :: bool
  dp_instruction :: "string option"
  dp_inFlightWait :: nat
  dp_mediaBurst :: nat
  dp_welcome :: bool
  dp_react :: bool
  dp_codec :: jpeg_codec
  dp_vault :: "vault option"
  dp_ask :: "nat \<Rightarrow> ask_call \<Rightarrow> ask_outcome"
  dp_group :: "nat \<Rightarrow> string \<Rightarrow> routing_group option option"
  dp_heard :: "nat \<Rightarrow> transcriber"
  dp_history :: "nat \<Rightarrow> stored \<Rightarrow> inbound option option"
  dp_during :: "nat \<Rightarrow> outside list"
  dp_pause :: "nat \<Rightarrow> nat"
  dp_uuid :: "nat \<Rightarrow> string"
  dp_iv :: "nat \<Rightarrow> bytes"

section \<open>Actions\<close>

type_synonym 'a act = "world \<Rightarrow> world \<times> (failure + 'a)"

definition done_with :: "'a \<Rightarrow> 'a act" where
  "done_with a w = (w, Inr a)"

definition raise :: "failure \<Rightarrow> 'a act" where
  "raise e w = (w, Inl e)"

definition andThen :: "'a act \<Rightarrow> ('a \<Rightarrow> 'b act) \<Rightarrow> 'b act" where
  "andThen a f w = (case a w of (w', Inl e) \<Rightarrow> (w', Inl e) | (w', Inr x) \<Rightarrow> f x w')"

text \<open>\<open>try { a } catch (e) { h e }\<close>.\<close>

definition orElse :: "'a act \<Rightarrow> (failure \<Rightarrow> 'a act) \<Rightarrow> 'a act" where
  "orElse a h w = (case a w of (w', Inl e) \<Rightarrow> h e w' | (w', Inr x) \<Rightarrow> (w', Inr x))"

definition update_world :: "(world \<Rightarrow> world) \<Rightarrow> unit act" where
  "update_world f w = (f w, Inr ())"

text \<open>A read, and a write, that throws.\<close>

definition read_db :: "(world \<Rightarrow> 'e + 'a) \<Rightarrow> 'a act" where
  "read_db f w = (case f w of Inl e \<Rightarrow> (w, Inl Raised) | Inr x \<Rightarrow> (w, Inr x))"

definition write_db :: "(world \<Rightarrow> 'e + world) \<Rightarrow> unit act" where
  "write_db f w = (case f w of Inl e \<Rightarrow> (w, Inl Raised) | Inr w' \<Rightarrow> (w', Inr ()))"

primrec each :: "('a \<Rightarrow> unit act) \<Rightarrow> 'a list \<Rightarrow> unit act" where
  "each f [] = done_with ()"
| "each f (x # xs) = andThen (f x) (\<lambda>u. each f xs)"

section \<open>Membership\<close>

definition membership_schema :: "member_event \<Rightarrow> bool" where
  "membership_schema e \<longleftrightarrow> me_connection e \<noteq> [] \<and> ends_with ''@g.us'' (me_group e)"

definition bump :: "string \<times> string \<Rightarrow> world \<Rightarrow> world" where
  "bump k w = w\<lparr>w_epochs := (w_epochs w)(k := w_epochs w k + 1)\<rparr>"

definition onSelfMembership :: "member_event \<Rightarrow> bool \<Rightarrow> world \<Rightarrow> world" where
  "onSelfMembership e add w =
     (if \<not> membership_schema e then w
      else
        let k = (me_connection e, me_group e);
            present = (case member_row k (w_chat w) of None \<Rightarrow> False | Some r \<Rightarrow> mb_present r);
            w' = (if \<not> add \<or> \<not> present then bump k w else w)
        in (case setMembership (w_now w) k add (me_added_by e) (w_chat w) of
              Inl err \<Rightarrow> w' | Inr db \<Rightarrow> w'\<lparr>w_chat := db\<rparr>))"

fun happen :: "world \<Rightarrow> outside \<Rightarrow> world" where
  "happen w (MembershipChange e add) = onSelfMembership e add w"
| "happen w (RegistryChange db) = w\<lparr>w_identity := db\<rparr>"
| "happen w (SettingsChange s) = w\<lparr>w_settings := s\<rparr>"
| "happen w (RunEnded k n) =
     (if w_flight w k = Some n then w\<lparr>w_flight := (w_flight w)(k := None)\<rparr> else w)"

definition await :: "deps \<Rightarrow> unit act" where
  "await d w =
     (let n = w_awaits w in
      (foldl happen (w\<lparr>w_awaits := n + 1, w_now := w_now w + dp_pause d n\<rparr>) (dp_during d n), Inr ()))"

section \<open>Single steps\<close>

definition fresh :: "deps \<Rightarrow> string act" where
  "fresh d w = (w\<lparr>w_uuids := w_uuids w + 1\<rparr>, Inr (dp_uuid d (w_uuids w)))"

definition emit :: "effect \<Rightarrow> unit act" where
  "emit e = update_world (\<lambda>w. w\<lparr>w_out := w_out w @ [e]\<rparr>)"

text \<open>\<open>adapter.ask\<close>: the call is made, its answer awaited.\<close>

definition askAgent :: "deps \<Rightarrow> ask_call \<Rightarrow> ask_outcome act" where
  "askAgent d c w =
     andThen (await d) (\<lambda>u. done_with (dp_ask d (length (w_asks w)) c)) (w\<lparr>w_asks := w_asks w @ [c]\<rparr>)"

definition bot_of :: "string \<times> string \<Rightarrow> chat_bot option act" where
  "bot_of k = read_db (\<lambda>w. getBot k (w_chat w))"

definition present_of :: "string \<times> string \<Rightarrow> membership option act" where
  "present_of k = read_db (\<lambda>w. membership_of k (w_chat w))"

definition put_pending :: "deps \<Rightarrow> string \<times> string \<Rightarrow> pending_post option \<Rightarrow> unit act" where
  "put_pending d k post = write_db (\<lambda>w.
     map_sum id (\<lambda>db. w\<lparr>w_chat := db, w_uuids := w_uuids w + 1\<rparr>)
       (setPendingPost (dp_vault d) (dp_iv d (w_uuids w)) k post (w_chat w)))"

definition pending_of :: "deps \<Rightarrow> string \<times> string \<Rightarrow> pending_post option act" where
  "pending_of d k = read_db (\<lambda>w. pendingPost (dp_vault d) k (w_chat w))"

definition claim_key :: "deps \<Rightarrow> string \<times> string \<Rightarrow> claim_result act" where
  "claim_key d k = andThen (fresh d) (\<lambda>token w.
     let (rows, r) = claim (w_now w) token k (w_log w) in (w\<lparr>w_log := rows\<rparr>, Inr r))"

definition relay_key :: "string \<times> string \<Rightarrow> string \<Rightarrow> string \<Rightarrow> unit act" where
  "relay_key k token chat = write_db (\<lambda>w.
     map_sum id (\<lambda>r. w\<lparr>w_log := fst r\<rparr>) (markRelayed (w_now w) k token chat (w_log w)))"

definition fail_key :: "string \<times> string \<Rightarrow> string \<Rightarrow> unit act" where
  "fail_key k token = update_world (\<lambda>w. w\<lparr>w_log := fst (markFailed (w_now w) k token (w_log w))\<rparr>)"

definition relay_message :: "string \<Rightarrow> string \<Rightarrow> string \<Rightarrow> unit act" where
  "relay_message conn chat i = write_db (\<lambda>w.
     map_sum id (\<lambda>r. w\<lparr>w_store := fst r\<rparr>) (markMessageRelayed (w_now w) (conn, chat, i) (w_store w)))"

definition reject :: "deps \<Rightarrow> string \<times> string \<Rightarrow> string \<Rightarrow> unit act" where
  "reject d k reason = andThen (fresh d) (\<lambda>uid. write_db (\<lambda>w.
     map_sum id (\<lambda>rows. w\<lparr>w_audit := rows\<rparr>)
       (recordAudit (w_now w) uid InboundRejected
          \<lparr>ao_actor = None, ao_subject_type = Some ''connection'', ao_subject_id = Some (fst k),
           ao_detail = Some [(''chatJid'', JStr (maskJid (Some (snd k)))), (''reason'', JStr reason)]\<rparr>
          (w_audit w))))"

section \<open>What an action keeps\<close>

definition keeps :: "(world \<Rightarrow> bool) \<Rightarrow> 'a act \<Rightarrow> bool" where
  "keeps p a \<longleftrightarrow> (\<forall>w. p w \<longrightarrow> p (fst (a w)))"

named_theorems keep_intros \<open>what single actions keep\<close>

lemma keepsD: "keeps p a \<Longrightarrow> p w \<Longrightarrow> p (fst (a w))"
  by (simp add: keeps_def)

lemma keeps_done [keep_intros]: "keeps p (done_with x)"
  by (simp add: keeps_def done_with_def)

lemma keeps_raise [keep_intros]: "keeps p (raise e)"
  by (simp add: keeps_def raise_def)

lemma keeps_read [keep_intros]: "keeps p (read_db f)"
  by (simp add: keeps_def read_db_def split: sum.split)

lemma keeps_andThen [keep_intros]: "keeps p a \<Longrightarrow> (\<And>x. keeps p (f x)) \<Longrightarrow> keeps p (andThen a f)"
  unfolding keeps_def andThen_def by (auto split: prod.splits sum.splits)

lemma keeps_orElse [keep_intros]: "keeps p a \<Longrightarrow> (\<And>x. keeps p (h x)) \<Longrightarrow> keeps p (orElse a h)"
  unfolding keeps_def orElse_def by (auto split: prod.splits sum.splits)

lemma keeps_if [keep_intros]: "keeps p a \<Longrightarrow> keeps p b \<Longrightarrow> keeps p (if c then a else b)"
  by simp

lemma keeps_update [keep_intros]: "(\<And>w. p w \<Longrightarrow> p (f w)) \<Longrightarrow> keeps p (update_world f)"
  by (simp add: keeps_def update_world_def)

lemma keeps_write [keep_intros]:
  "(\<And>w w'. p w \<Longrightarrow> f w = Inr w' \<Longrightarrow> p w') \<Longrightarrow> keeps p (write_db f)"
  by (auto simp: keeps_def write_db_def split: sum.split)

lemma keeps_each [keep_intros]: "(\<And>x. x \<in> set xs \<Longrightarrow> keeps p (f x)) \<Longrightarrow> keeps p (each f xs)"
  by (induction xs) (auto intro!: keep_intros)

lemma keeps_case_option [keep_intros]:
  "(x = None \<Longrightarrow> keeps p a) \<Longrightarrow> (\<And>y. x = Some y \<Longrightarrow> keeps p (f y)) \<Longrightarrow> keeps p (case x of None \<Rightarrow> a | Some y \<Rightarrow> f y)"
  by (cases x) auto

lemma map_sum_Inr: "map_sum id f s = Inr y \<longleftrightarrow> (\<exists>x. s = Inr x \<and> y = f x)"
  by (cases s) auto

lemma Inr_split: "map_sum id f s = Inr y \<Longrightarrow> (\<And>x. s = Inr x \<Longrightarrow> y = f x \<Longrightarrow> P) \<Longrightarrow> P"
  by (auto simp: map_sum_Inr)

end
