(* ===== verification/Router.thy ===== *)
theory Router
  imports World
begin

text \<open>
  The inbound router (\<open>src/routing/inboundRouter.ts\<close>): where a message goes, as whom it is posted,
  the asks of a turn, and the handlers of a live batch and of a history batch. Log lines are left
  out; releasing \<open>media\<close> at the end of a handler is not represented. The start of a dispatch or of
  a notice is an effect of the world.
\<close>

section \<open>Guards\<close>

definition available :: "string \<times> string \<Rightarrow> bool \<Rightarrow> nat \<Rightarrow> bool act" where
  "available k is_group epoch =
     (if \<not> is_group then done_with True
      else andThen (read_db (\<lambda>w. Inr (w_epochs w k) :: unit + nat)) (\<lambda>now.
        if epoch \<noteq> now then done_with False
        else andThen (present_of k) (\<lambda>mb.
          done_with (case mb of None \<Rightarrow> True | Some r \<Rightarrow> mb_present r))))"

definition unregisteredAllowed :: "deps \<Rightarrow> string \<times> string \<Rightarrow> bool act" where
  "unregisteredAllowed d k =
     (if dp_relayUnregistered d then done_with True
      else andThen (reject d k ''unregistered_chat_relay_disabled'') (\<lambda>u. done_with False))"

definition clientReady :: "deps \<Rightarrow> string \<times> string \<Rightarrow> bool act" where
  "clientReady d k =
     andThen (read_db (\<lambda>w. getStatus (w_settings w))) (\<lambda>s.
       if ss_complete s then done_with True
       else andThen (reject d k ''gateway_setup_incomplete'') (\<lambda>u. done_with False))"

section \<open>Destination and identity\<close>

record destination =
  dt_owner :: "shopper option"
  dt_ownerId :: "string option"
  dt_room :: string
  dt_qualified :: bool

fun first_some :: "'a option list \<Rightarrow> 'a option" where
  "first_some [] = None"
| "first_some (x # xs) = (case x of None \<Rightarrow> first_some xs | Some y \<Rightarrow> Some y)"

definition fixed_bot :: "chat_bot option \<Rightarrow> chat_bot option" where
  "fixed_bot existing =
     (case existing of
        None \<Rightarrow> None
      | Some b \<Rightarrow> (case cb_shopper b of None \<Rightarrow> None | Some s \<Rightarrow> if s = [] then None else Some b))"

definition registry :: "identity_db act" where
  "registry = read_db (\<lambda>w. Inr (w_identity w) :: unit + identity_db)"

text \<open>The part of \<open>destination\<close> that groups and direct chats share.\<close>

definition settle_destination ::
  "deps \<Rightarrow> string \<times> string \<Rightarrow> chat_bot option \<Rightarrow> shopper option \<Rightarrow> bool \<Rightarrow> destination option act" where
  "settle_destination d k existing candidate qualified =
     andThen registry (\<lambda>db.
       let fixed = fixed_bot existing;
           ownerId = (case fixed of Some b \<Rightarrow> cb_shopper b | None \<Rightarrow> map_option sh_id candidate);
           owner = (if fixed = None then candidate else byId db ownerId)
       in andThen
            (case first_some [Option.bind fixed cb_room, map_option sh_room owner, Option.bind existing cb_room] of
               Some r \<Rightarrow> done_with (Some r)
             | None \<Rightarrow> read_db (\<lambda>w. getCommonRoomName (w_settings w))) (\<lambda>room.
            if room = None \<or> room = Some [] then andThen (clientReady d k) (\<lambda>b. done_with None)
            else andThen (if ownerId = None then unregisteredAllowed d k else done_with True) (\<lambda>ok.
              if ok then done_with (Some \<lparr>dt_owner = owner, dt_ownerId = ownerId, dt_room = the room, dt_qualified = qualified\<rparr>)
              else done_with None)))"

definition lookup_group :: "deps \<Rightarrow> string \<Rightarrow> routing_group option act" where
  "lookup_group d chat w =
     (case dp_group d (w_awaits w) chat of
        None \<Rightarrow> andThen (await d) (\<lambda>u. raise Raised) w
      | Some g \<Rightarrow> andThen (await d) (\<lambda>u. done_with g) w)"

definition author_phone :: "membership option \<Rightarrow> routing_group \<Rightarrow> string option" where
  "author_phone mb g =
     (case Option.bind mb mb_added_by of
        None \<Rightarrow> None
      | Some a \<Rightarrow>
          if a = [] then None
          else (case phoneE164FromJid a of
              Some p \<Rightarrow> Some p
            | None \<Rightarrow> Option.bind (find (\<lambda>p. fst p = a) (rg_members g)) snd))"

definition group_phones :: "routing_group \<Rightarrow> string list" where
  "group_phones g = filter (\<lambda>p. p \<noteq> []) (List.map_filter snd (rg_members g))"

definition destination :: "deps \<Rightarrow> inbound \<Rightarrow> destination option act" where
  "destination d m =
     (let k = im_key m in
      andThen (bot_of k) (\<lambda>existing.
        if im_group m then
          andThen (present_of k) (\<lambda>mb.
            if (\<exists>r \<in> set_option mb. \<not> mb_present r) then done_with None
            else andThen (lookup_group d (im_chat m)) (\<lambda>g.
              case g of
                None \<Rightarrow> done_with None
              | Some grp \<Rightarrow>
                  if \<not> rg_linked grp then done_with None
                  else andThen (present_of k) (\<lambda>mb. andThen registry (\<lambda>db.
                    let candidate = groupOwner db (group_phones grp) (author_phone mb grp)
                    in settle_destination d k existing candidate (candidate \<noteq> None)))))
        else
          andThen registry (\<lambda>db.
            settle_destination d k existing
              (registered db (if im_fromMe m then phoneE164FromJid (im_chat m) else im_phone m)) False)))"

definition posting_as :: "inbound \<Rightarrow> destination \<Rightarrow> identity_db \<Rightarrow> posting_identity" where
  "posting_as m dest db =
     (if im_fromMe m then
        (case dt_owner dest of Some s \<Rightarrow> ShopperIdentity ShopperRole (sh_id s) | None \<Rightarrow> ClientIdentity)
      else if im_group m \<and> \<not> dt_qualified dest then ClientIdentity
      else (case registered db (im_phone m) of
          Some s \<Rightarrow> ShopperIdentity ShopperRole (sh_id s) | None \<Rightarrow> ClientIdentity))"

section \<open>Asks\<close>

definition MULTI_FILE_UPLOAD_BUDGET_BYTES :: nat where "MULTI_FILE_UPLOAD_BUDGET_BYTES = 5 * 1024 * 1024"
definition STAGED_UPLOAD_BUDGET_BYTES :: nat where "STAGED_UPLOAD_BUDGET_BYTES = 4 * 1024 * 1024"

definition remember :: "inbound \<Rightarrow> destination \<Rightarrow> ask_result \<Rightarrow> unit act" where
  "remember m dest a =
     andThen (if im_group m then present_of (im_key m) else done_with None) (\<lambda>mb.
       write_db (\<lambda>w. map_sum id (\<lambda>r. w\<lparr>w_chat := fst r\<rparr>)
         (upsertBot (w_now w) (im_key m) (dt_ownerId dest) (ar_thread a) (Some (dt_room dest))
            (if (\<exists>r \<in> set_option mb. \<not> mb_present r) then Some (w_now w) else None) (w_chat w))))"

definition promotes :: "chat_bot option \<Rightarrow> destination \<Rightarrow> bool" where
  "promotes existing dest \<longleftrightarrow> (\<exists>b \<in> set_option existing. cb_shopper b = None) \<and> dt_ownerId dest \<noteq> None"

definition ask_of ::
  "deps \<Rightarrow> inbound \<Rightarrow> destination \<Rightarrow> chat_bot option \<Rightarrow> posting_identity \<Rightarrow> string \<Rightarrow> response_mode
    \<Rightarrow> ask_file list \<Rightarrow> bool \<Rightarrow> ask_call" where
  "ask_of d m dest existing ident query mode files voice =
     \<lparr>ak_chat = im_key m, ak_identity = ident, ak_query = query,
      ak_thread = (if promotes existing dest then None else map_option cb_thread existing),
      ak_room = (if existing = None \<or> promotes existing dest then Some (dt_room dest) else None),
      ak_mode = mode, ak_files = files,
      ak_instruction = (case withVoiceTurnContract (withInvoiceTurnContract (dp_instruction d) query) voice of
          None \<Rightarrow> None | Some i \<Rightarrow> if i = [] then None else Some i)\<rparr>"

definition submit ::
  "deps \<Rightarrow> inbound \<Rightarrow> destination \<Rightarrow> posting_identity \<Rightarrow> string \<Rightarrow> response_mode \<Rightarrow> ask_file list
    \<Rightarrow> bool \<Rightarrow> string option \<Rightarrow> bool \<Rightarrow> ask_result act" where
  "submit d m dest ident query mode files rememberFailure mid voice =
     andThen (bot_of (im_key m)) (\<lambda>existing.
     andThen (askAgent d (ask_of d m dest existing ident query mode files voice)) (\<lambda>out.
       case out of
         Answered a \<Rightarrow> andThen (remember m dest a) (\<lambda>u. done_with a)
       | Refused st a \<Rightarrow>
           andThen (remember m dest a) (\<lambda>u.
           andThen (if rememberFailure
                    then put_pending d (im_key m) (Some \<lparr>pp_identity = ident, pp_query = query, pp_message_id = mid\<rparr>)
                    else done_with ()) (\<lambda>u. raise (SubmissionFailed st a)))
       | AskBroke \<Rightarrow> raise Raised))"

text \<open>The loop over the files; the last post carries the turn.\<close>

fun submitFilesOneByOne ::
  "deps \<Rightarrow> inbound \<Rightarrow> destination \<Rightarrow> posting_identity \<Rightarrow> string \<Rightarrow> response_mode
    \<Rightarrow> bool \<Rightarrow> string option \<Rightarrow> bool \<Rightarrow> ask_file list \<Rightarrow> ask_result act" where
  "submitFilesOneByOne d m dest ident query mode rememberFailure mid voice [] = raise Raised"
| "submitFilesOneByOne d m dest ident query mode rememberFailure mid voice [f] =
     submit d m dest ident query mode [f] rememberFailure mid voice"
| "submitFilesOneByOne d m dest ident query mode rememberFailure mid voice (f # g # fs) =
     andThen
       (orElse (submit d m dest ident (uploadRelayQuery f) ForceSkip [f] False mid False) (\<lambda>e.
          andThen (if rememberFailure
                   then put_pending d (im_key m) (Some \<lparr>pp_identity = ident, pp_query = query, pp_message_id = mid\<rparr>)
                   else done_with ()) (\<lambda>u. raise e))) (\<lambda>a.
     andThen (put_pending d (im_key m) None) (\<lambda>u.
       submitFilesOneByOne d m dest ident query mode rememberFailure mid voice (g # fs)))"

fun upload_failed :: "failure \<Rightarrow> bool" where
  "upload_failed (SubmissionFailed st a) = (st = ''upload_failed'')"
| "upload_failed Raised = False"

definition submitTurn ::
  "deps \<Rightarrow> inbound \<Rightarrow> destination \<Rightarrow> posting_identity \<Rightarrow> string \<Rightarrow> response_mode \<Rightarrow> ask_file list
    \<Rightarrow> bool \<Rightarrow> string option \<Rightarrow> bool \<Rightarrow> ask_result act" where
  "submitTurn d m dest ident query mode files rememberFailure mid voice =
     (if 1 < length files \<and> MULTI_FILE_UPLOAD_BUDGET_BYTES < promptQlUploadRawBytes files
      then submitFilesOneByOne d m dest ident query mode rememberFailure mid voice files
      else orElse (submit d m dest ident query mode files rememberFailure mid voice) (\<lambda>e.
        if \<not> upload_failed e \<or> files = [] then raise e
        else if 1 < length files then
          andThen (submitFilesOneByOne d m dest ident query mode rememberFailure mid voice files) (\<lambda>a.
          andThen (put_pending d (im_key m) None) (\<lambda>u. done_with a))
        else raise e))"

definition submitMediaAsk ::
  "deps \<Rightarrow> inbound \<Rightarrow> destination \<Rightarrow> posting_identity \<Rightarrow> string \<Rightarrow> response_mode \<Rightarrow> ask_file list
    \<Rightarrow> bool \<Rightarrow> ask_result act" where
  "submitMediaAsk d m dest ident query mode files voice =
     (let staged = stagePromptQlFiles (dp_codec d) files STAGED_UPLOAD_BUDGET_BYTES;
          tryFiles = (\<lambda>payload. submitTurn d m dest ident query mode payload True (Some (im_id m)) voice);
          settle = (\<lambda>a. andThen (put_pending d (im_key m) None) (\<lambda>u. done_with a));
          smaller = map (\<lambda>f. if isImagePromptQlFile f then recompressForBridge (dp_codec d) f else f) staged
      in orElse (tryFiles staged) (\<lambda>e.
           if \<not> upload_failed e \<or> files = [] then raise e
           else andThen (await d) (\<lambda>u.
             orElse (andThen (tryFiles staged) settle) (\<lambda>e2.
               if \<not> upload_failed e2 then raise e2
               else if map af_bytes smaller \<noteq> map af_bytes staged then
                 andThen (await d) (\<lambda>u. andThen (tryFiles smaller) settle)
               else raise e2))))"

definition retryPending :: "deps \<Rightarrow> inbound \<Rightarrow> destination \<Rightarrow> unit act" where
  "retryPending d m dest =
     (let k = im_key m in
      andThen (pending_of d k) (\<lambda>pending.
        case pending of
          None \<Rightarrow> done_with ()
        | Some p \<Rightarrow>
            andThen (bot_of k) (\<lambda>existing. andThen registry (\<lambda>db.
              case existing of
                None \<Rightarrow> raise Raised
              | Some b \<Rightarrow>
                  let pendingDest = dest\<lparr>dt_ownerId := cb_shopper b, dt_owner := byId db (cb_shopper b),
                        dt_room := (case cb_room b of None \<Rightarrow> dt_room dest | Some r \<Rightarrow> r)\<rparr>
                  in andThen (if pp_identity p = ClientIdentity then clientReady d k else done_with True) (\<lambda>ready.
                     if \<not> ready then raise Raised
                     else andThen (submit d m pendingDest (pp_identity p) (pp_query p) ForceSkip [] True (pp_message_id p) False) (\<lambda>a.
                       andThen (case pp_message_id p of
                           None \<Rightarrow> done_with ()
                         | Some mid \<Rightarrow>
                             andThen (relay_message (fst k) (snd k) mid) (\<lambda>u.
                             andThen (claim_key d (fst k, mid)) (\<lambda>c.
                               case c of Claimed token \<Rightarrow> relay_key (fst k, mid) token (snd k) | _ \<Rightarrow> done_with ())))
                         (\<lambda>u. put_pending d k None)))))))"

section \<open>What the router's actions keep\<close>

lemma happen_view: "w_asks (happen w e) = w_asks w" "w_log (happen w e) = w_log w" "w_out (happen w e) = w_out w"
  by (cases e; auto simp: onSelfMembership_def bump_def Let_def split: sum.splits)+

text \<open>
  A predicate that the environment's events, the passing of time and a rejected message keep: what
  the router does before it decides to act keeps it too.
\<close>

locale quiet_observer =
  fixes p :: "world \<Rightarrow> bool"
  assumes happened: "p w \<Longrightarrow> p (happen w e)"
    and ticked: "p w \<Longrightarrow> p (w\<lparr>w_awaits := n, w_now := t\<rparr>)"
    and rejected: "p w \<Longrightarrow> p (w\<lparr>w_uuids := n, w_audit := rows\<rparr>)"
begin

lemma keeps_await: "keeps p (await d)"
proof -
  have "p (foldl happen w es)" if "p w" for w es
    using that by (induction es arbitrary: w) (simp_all add: happened)
  then show ?thesis by (simp add: keeps_def await_def Let_def ticked)
qed

lemma keeps_bot_of: "keeps p (bot_of k)"
  unfolding bot_of_def by (rule keeps_read)

lemma keeps_present_of: "keeps p (present_of k)"
  unfolding present_of_def by (rule keeps_read)

lemma keeps_pending_of: "keeps p (pending_of d k)"
  unfolding pending_of_def by (rule keeps_read)

lemma keeps_registry: "keeps p registry"
  unfolding registry_def by (rule keeps_read)

lemma keeps_reject: "keeps p (reject d k reason)"
proof -
  have "p (fst (reject d k reason w))" if "p w" for w
    using rejected [OF that, where rows = "w_audit w"] rejected [OF that]
    by (auto simp: reject_def andThen_def fresh_def write_db_def map_sum_Inr split: sum.splits)
  then show ?thesis by (simp add: keeps_def)
qed

lemmas quiet_basic = keeps_await keeps_bot_of keeps_present_of keeps_pending_of keeps_registry keeps_reject

lemma keeps_available: "keeps p (available k g epoch)"
  unfolding available_def by (intro keep_intros quiet_basic)

lemma keeps_clientReady: "keeps p (clientReady d k)"
  unfolding clientReady_def by (intro keep_intros quiet_basic)

lemma keeps_settle: "keeps p (settle_destination d k existing candidate qualified)"
  unfolding settle_destination_def unregisteredAllowed_def Let_def
  by (intro keep_intros quiet_basic keeps_clientReady)

lemma keeps_lookup: "keeps p (lookup_group d chat)"
proof -
  have "keeps p (andThen (await d) (\<lambda>u. raise Raised) :: routing_group option act)"
    "keeps p (andThen (await d) (\<lambda>u. done_with g) :: routing_group option act)" for g
    by (intro keep_intros quiet_basic)+
  from this [THEN keepsD] show ?thesis by (simp add: keeps_def lookup_group_def split: option.split)
qed

lemma keeps_destination: "keeps p (destination d m)"
  unfolding destination_def Let_def
  by (intro keep_intros quiet_basic keeps_settle keeps_lookup)

end

text \<open>
  An observer of the asks, the log and the effects: a predicate of the world that depends on
  nothing else, and that an ask of the kind \<open>ok\<close> keeps. It is a quiet observer.
\<close>

locale ask_observer =
  fixes p :: "world \<Rightarrow> bool" and ok :: "ask_call \<Rightarrow> bool"
  assumes frame: "p w \<Longrightarrow> w_asks w' = w_asks w \<Longrightarrow> w_log w' = w_log w \<Longrightarrow> w_out w' = w_out w \<Longrightarrow> p w'"
    and asked: "p w \<Longrightarrow> ok c \<Longrightarrow> p (w\<lparr>w_asks := w_asks w @ [c]\<rparr>)"

sublocale ask_observer \<subseteq> quiet_observer p
proof
  show "p w \<Longrightarrow> p (happen w e)" for w e by (rule frame) (simp_all add: happen_view)
  show "p w \<Longrightarrow> p (w\<lparr>w_awaits := n, w_now := t\<rparr>)" for w n t by (rule frame) simp_all
  show "p w \<Longrightarrow> p (w\<lparr>w_uuids := n, w_audit := rows\<rparr>)" for w n rows by (rule frame) simp_all
qed

context ask_observer
begin

lemma keeps_fresh: "keeps p (fresh d)"
  by (auto simp: keeps_def fresh_def intro: frame)

lemma keeps_put_pending: "keeps p (put_pending d k post)"
  unfolding put_pending_def by (rule keeps_write) (erule Inr_split, erule frame, simp_all)

lemma keeps_relay_message: "keeps p (relay_message c g i)"
  unfolding relay_message_def by (rule keeps_write) (erule Inr_split, erule frame, simp_all)

lemmas keeps_basic = quiet_basic keeps_fresh keeps_put_pending keeps_relay_message

lemma keeps_remember: "keeps p (remember m dest a)"
  unfolding remember_def
  by (intro keep_intros keeps_basic) (erule Inr_split, erule frame, simp_all)

lemma keeps_ask: "ok c \<Longrightarrow> keeps p (askAgent d c)"
proof -
  assume c: "ok c"
  have k: "keeps p (andThen (await d) (\<lambda>u. done_with x))" for x :: ask_outcome
    by (intro keep_intros keeps_basic)
  show ?thesis
    using asked [OF _ c] keepsD [OF k] by (simp add: keeps_def askAgent_def)
qed

lemma keeps_submit:
  assumes "\<And>existing. ok (ask_of d m dest existing ident query mode files voice)"
  shows "keeps p (submit d m dest ident query mode files rf mid voice)"
proof -
  have "keeps p ((case out of Answered a \<Rightarrow> andThen (remember m dest a) (\<lambda>u. done_with a)
       | Refused st a \<Rightarrow>
           andThen (remember m dest a) (\<lambda>u.
           andThen (if rf then put_pending d (im_key m) (Some \<lparr>pp_identity = ident, pp_query = query, pp_message_id = mid\<rparr>)
                    else done_with ()) (\<lambda>u. raise (SubmissionFailed st a)))
       | AskBroke \<Rightarrow> raise Raised) :: ask_result act)" for out
    by (cases out) (auto intro!: keep_intros keeps_basic keeps_remember)
  then show ?thesis
    unfolding submit_def by (intro keep_intros keeps_basic keeps_ask assms)
qed

text \<open>The asks of a turn: each file alone as context, or the whole turn.\<close>

lemma keeps_one_by_one:
  assumes "\<And>existing f. f \<in> set files \<Longrightarrow> ok (ask_of d m dest existing ident (uploadRelayQuery f) ForceSkip [f] False)"
    "\<And>existing f. f \<in> set files \<Longrightarrow> ok (ask_of d m dest existing ident query mode [f] voice)"
  shows "keeps p (submitFilesOneByOne d m dest ident query mode rf mid voice files)"
  using assms
proof (induction files rule: induct_list012)
  case (3 f g fs)
  then show ?case
    by (simp only: submitFilesOneByOne.simps) (intro keep_intros keeps_basic keeps_submit; simp)
qed (auto intro!: keep_intros keeps_submit)

lemma keeps_turn:
  assumes "\<And>existing f. f \<in> set files \<Longrightarrow> ok (ask_of d m dest existing ident (uploadRelayQuery f) ForceSkip [f] False)"
    "\<And>existing f. f \<in> set files \<Longrightarrow> ok (ask_of d m dest existing ident query mode [f] voice)"
    "\<And>existing. ok (ask_of d m dest existing ident query mode files voice)"
  shows "keeps p (submitTurn d m dest ident query mode files rf mid voice)"
  unfolding submitTurn_def
  by (intro keep_intros keeps_basic keeps_submit keeps_one_by_one assms)

end

text \<open>An observer that does not look at the outbound log, and one that bears new effects too.\<close>

locale log_blind = ask_observer +
  assumes any_log: "p w \<Longrightarrow> p (w\<lparr>w_log := l\<rparr>)"
begin

lemma keeps_claim: "keeps p (claim_key d k)"
proof -
  have "keeps p (\<lambda>w. let (rows, r) = claim (w_now w) token k (w_log w) in (w\<lparr>w_log := rows\<rparr>, Inr r))" for token
    by (auto simp: keeps_def any_log split: prod.split)
  then show ?thesis unfolding claim_key_def by (intro keep_intros keeps_basic)
qed

lemma keeps_relay_key: "keeps p (relay_key k token chat)"
  unfolding relay_key_def by (rule keeps_write) (erule Inr_split, simp add: any_log)

lemma keeps_fail_key: "keeps p (fail_key k token)"
  unfolding fail_key_def by (rule keeps_update) (erule any_log)

lemma keeps_retry:
  assumes "\<And>existing dest' ident query. ok (ask_of d m dest' existing ident query ForceSkip [] False)"
  shows "keeps p (retryPending d m dest)"
proof -
  have c: "keeps p (case c of Claimed token \<Rightarrow> relay_key k token g | _ \<Rightarrow> done_with ())" for c k g
    by (cases c) (auto intro!: keep_intros keeps_relay_key)
  show ?thesis
    unfolding retryPending_def Let_def
    by (intro keep_intros keeps_basic keeps_clientReady keeps_submit keeps_claim c assms)
qed

end

locale ask_only = log_blind +
  assumes emitted: "p w \<Longrightarrow> p (w\<lparr>w_out := w_out w @ [e]\<rparr>)"
begin

lemma keeps_emit: "keeps p (emit e)"
  unfolding emit_def by (rule keeps_update) (erule emitted)

end

interpretation all_asks: ask_only "\<lambda>w. list_all P (w_asks w)" P for P
  by unfold_locales auto

interpretation log_frame: ask_observer "\<lambda>w. w_log w = L" "\<lambda>c. True" for L
  by unfold_locales auto

end
