(* ===== verification/Batch.thy ===== *)
theory Batch
  imports Router
begin

text \<open>
  The handlers of \<open>src/routing/inboundRouter.ts\<close>: \<open>processBatch\<close> for the messages of one burst and
  \<open>onHistoryBatch\<close> for replayed history, with what they promise.
\<close>

section \<open>Preparing a turn\<close>

record turn =
  tn_valid :: "inbound list"
  tn_dest :: destination
  tn_identity :: posting_identity
  tn_query :: string
  tn_files :: "ask_file list"
  tn_shopper :: bool
  tn_pa :: bool
  tn_greeting :: bool
  tn_request :: bool
  tn_media :: bool
  tn_mode :: response_mode

type_synonym claims = "(inbound \<times> string) list"

definition collect_files :: "inbound list \<Rightarrow> ask_file list option" where
  "collect_files ms =
     those (map (\<lambda>m. promptQlFileFromMedia (the (im_media m))
         (mediaFileName (im_id m) (im_type m) (md_mime (the (im_media m)))))
       (filter (\<lambda>m. im_status m = MsReady \<and> im_media m \<noteq> None) ms))"

text \<open>
  The start of the handler, up to the claims. \<open>None\<close> is an early return: an echo of the gateway, a
  group it has left, nothing to post, no destination, or setup incomplete.
\<close>

definition gate :: "deps \<Rightarrow> inbound list \<Rightarrow> nat \<Rightarrow> (inbound list \<times> destination \<times> posting_identity) option act" where
  "gate d ms epoch =
     (let m = hd ms; k = im_key m in
      andThen (if im_fromMe m
               then read_db (\<lambda>w. isGatewayMessage (im_connection m) (im_chat m) (im_id m) (w_log w))
               else done_with False) (\<lambda>echo.
      if echo then done_with None
      else andThen (available k (im_group m) epoch) (\<lambda>ok.
      if \<not> ok then done_with None
      else
        let valid = filter (\<lambda>m. promptQlQuery m \<noteq> None) ms in
        if valid = [] then done_with None
        else andThen (destination d m) (\<lambda>dest.
          case dest of
            None \<Rightarrow> done_with None
          | Some dest \<Rightarrow> andThen (available k (im_group m) epoch) (\<lambda>ok.
              if \<not> ok then done_with None
              else andThen registry (\<lambda>db.
                let ident = posting_as m dest db
                in andThen (if ident = ClientIdentity then clientReady d k else done_with True) (\<lambda>ready.
                   if \<not> ready then done_with None
                   else andThen (retryPending d m dest) (\<lambda>u. done_with (Some (valid, dest, ident))))))))))"

primrec claim_all :: "deps \<Rightarrow> inbound list \<Rightarrow> claims act" where
  "claim_all d [] = done_with []"
| "claim_all d (m # ms) =
     andThen (claim_key d (im_connection m, im_id m)) (\<lambda>c.
     andThen (claim_all d ms) (\<lambda>cs.
       done_with (case c of Claimed token \<Rightarrow> (m, token) # cs | _ \<Rightarrow> cs)))"

definition is_shopper :: "posting_identity \<Rightarrow> bool" where
  "is_shopper i \<longleftrightarrow> (\<exists>s. i = ShopperIdentity ShopperRole s)"

lemma is_shopper_code [code, simp]:
  "is_shopper ClientIdentity = False" "is_shopper (ShopperIdentity r s) = (r = ShopperRole)"
  by (auto simp: is_shopper_def)

definition shopper_trigger :: "posting_identity \<Rightarrow> inbound list \<Rightarrow> bool" where
  "shopper_trigger ident valid \<longleftrightarrow>
     list_ex (\<lambda>m. \<not> im_fromMe m \<and> is_shopper ident \<and> (\<not> im_group m \<or> im_mentions m)) valid"

definition pa_trigger :: "destination \<Rightarrow> posting_identity \<Rightarrow> inbound list \<Rightarrow> bool" where
  "pa_trigger dest ident valid \<longleftrightarrow>
     list_ex (\<lambda>m. \<not> im_fromMe m \<and> im_group m \<and> dt_qualified dest \<and> im_mentions m \<and> ident = ClientIdentity
       \<and> (\<exists>s \<in> set_option (dt_owner dest). sh_status s = Enabled)) valid"

definition turn_query :: "posting_identity \<Rightarrow> inbound list \<Rightarrow> string option" where
  "turn_query ident valid =
     (if ident = ClientIdentity then formatBatchClientEnvelope valid
      else Some (join_with nl (map (\<lambda>m. the (promptQlQuery m)) valid)))"

definition first_operator_dm :: "deps \<Rightarrow> inbound \<Rightarrow> posting_identity \<Rightarrow> world \<Rightarrow> bool" where
  "first_operator_dm d m ident w \<longleftrightarrow> \<not> im_fromMe m \<and> \<not> im_group m \<and>
     (case ident of
        ShopperIdentity ShopperRole s \<Rightarrow> dp_welcome d \<and> \<not> isWelcomeSent s (Some (im_connection m)) (w_welcome w)
      | _ \<Rightarrow> False)"

text \<open>From the claims to the files; an error here is not yet a failed media ask.\<close>

definition prepare :: "deps \<Rightarrow> inbound list \<Rightarrow> nat \<Rightarrow> inbound list \<Rightarrow> destination \<Rightarrow> posting_identity \<Rightarrow> turn act" where
  "prepare d ms epoch valid dest ident =
     (let m = hd ms in
      andThen (available (im_key m) (im_group m) epoch) (\<lambda>ok.
      if \<not> ok then raise Raised
      else andThen (read_db (\<lambda>w. Inr (first_operator_dm d m ident w) :: unit + bool)) (\<lambda>first.
        case turn_query ident valid of
          None \<Rightarrow> raise Raised
        | Some query \<Rightarrow>
           (case collect_files valid of
              None \<Rightarrow> raise Raised
            | Some files \<Rightarrow>
                let greeting = (first \<and> isPureGreeting query); trig = shopper_trigger ident valid
                in done_with \<lparr>tn_valid = valid, tn_dest = dest, tn_identity = ident, tn_query = query, tn_files = files,
                     tn_shopper = trig, tn_pa = pa_trigger dest ident valid, tn_greeting = greeting,
                     tn_request = (first \<and> \<not> greeting),
                     tn_media = (is_shopper ident \<and> files \<noteq> [] \<and> \<not> im_fromMe m),
                     tn_mode = (if trig \<and> \<not> greeting then ForceRespond else ForceSkip)\<rparr>))))"

section \<open>The asks of a turn\<close>

text \<open>A run in flight: a bare re-tag becomes context, another follow-up may wait.\<close>

definition settle_flight :: "deps \<Rightarrow> inbound \<Rightarrow> turn \<Rightarrow> bool act" where
  "settle_flight d m t =
     andThen (read_db (\<lambda>w. Inr (w_flight w (im_key m)) :: unit + nat option)) (\<lambda>running.
       if tn_mode t = ForceRespond \<and> running \<noteq> None then
         if isBareRetag (tn_valid t) then done_with True
         else
           let cap = max (dp_inFlightWait d)
                 (if list_ex (\<lambda>m. im_type m = ''image'') (tn_valid t) then dp_mediaBurst d else 0)
           in andThen (if 0 < cap then await d else done_with ()) (\<lambda>u. done_with False)
       else done_with False)"

definition ground :: "deps \<Rightarrow> inbound list \<Rightarrow> ask_file list \<Rightarrow> string \<Rightarrow> voice_turn act" where
  "ground d ms files query w =
     andThen (await d) (\<lambda>u. done_with (groundVoiceTurn (dp_heard d (w_awaits w)) ms files query)) w"

record asked =
  as_retag :: bool
  as_hold :: bool
  as_query :: string
  as_voice :: bool
  as_result :: ask_result

definition voice_hold :: "turn \<Rightarrow> voice_turn \<Rightarrow> bool \<Rightarrow> bool" where
  "voice_hold t g retag \<longleftrightarrow> vt_voice g \<and> \<not> vt_ready g \<and> vt_only g \<and> (tn_shopper t \<or> tn_pa t) \<and> \<not> retag"

definition ask_turn :: "deps \<Rightarrow> inbound \<Rightarrow> turn \<Rightarrow> asked act" where
  "ask_turn d m t =
     andThen (settle_flight d m t) (\<lambda>retag.
     andThen (ground d (tn_valid t) (map normalizePromptQlFile (tn_files t)) (tn_query t)) (\<lambda>g.
       let hold = voice_hold t g retag;
           mode = (if retag \<or> hold then ForceSkip else tn_mode t)
       in andThen (submitMediaAsk d m (tn_dest t) (tn_identity t) (vt_query g) mode (vt_files g) (vt_voice g)) (\<lambda>a.
          andThen (each (\<lambda>v. relay_message (im_connection v) (im_chat v) (im_id v)) (tn_valid t)) (\<lambda>u.
            done_with \<lparr>as_retag = retag, as_hold = hold, as_query = vt_query g, as_voice = vt_voice g, as_result = a\<rparr>))))"

text \<open>The assistant answers for the shopper when a client mentions it in a qualified group.\<close>

definition pa_turn :: "deps \<Rightarrow> inbound \<Rightarrow> nat \<Rightarrow> turn \<Rightarrow> asked \<Rightarrow> (posting_identity \<times> ask_result) act" where
  "pa_turn d m epoch t a =
     (if tn_pa t \<and> \<not> as_retag a then
        andThen (available (im_key m) (im_group m) epoch) (\<lambda>ok.
          if ok then
            (case dt_owner (tn_dest t) of
               None \<Rightarrow> raise Raised
             | Some s \<Rightarrow>
                 let ident = ShopperIdentity PaRole (sh_id s)
                 in andThen (submit d m (tn_dest t) ident (paPrompt (sh_name s)) ForceRespond [] True None (as_voice a)) (\<lambda>r.
                    done_with (ident, r)))
          else done_with (tn_identity t, as_result a))
      else done_with (tn_identity t, as_result a))"

section \<open>Settling the claims\<close>

definition relay_claims :: "claims \<Rightarrow> unit act" where
  "relay_claims cs = each (\<lambda>(m, token). relay_key (im_connection m, im_id m) token (im_chat m)) cs"

definition fail_claims :: "claims \<Rightarrow> unit act" where
  "fail_claims cs = each (\<lambda>(m, token). fail_key (im_connection m, im_id m) token) cs"

definition triggering :: "inbound list \<Rightarrow> inbound list \<Rightarrow> inbound" where
  "triggering ms valid = (case find im_mentions (rev valid) of Some m \<Rightarrow> m | None \<Rightarrow> last ms)"

definition primary_claim :: "inbound \<Rightarrow> claims \<Rightarrow> inbound \<times> string" where
  "primary_claim trig cs =
     (case find (\<lambda>(m, token). im_id m = im_id trig) cs of Some c \<Rightarrow> c | None \<Rightarrow> last cs)"

definition notify :: "deps \<Rightarrow> string \<times> string \<Rightarrow> string \<Rightarrow> unit act" where
  "notify d k text = andThen (emit (Notified k text)) (\<lambda>u. await d)"

definition new_workflow :: "deps \<Rightarrow> inbound \<Rightarrow> string \<Rightarrow> string \<Rightarrow> string \<Rightarrow> string act" where
  "new_workflow d m shopper inboundId thread =
     andThen (fresh d) (\<lambda>uid.
     andThen (write_db (\<lambda>w. map_sum id (\<lambda>r. w\<lparr>w_flows := fst r\<rparr>)
       (createWorkflow (w_now w) uid (im_connection m) (im_chat m) shopper inboundId (Some thread) (w_flows w)))) (\<lambda>u.
     done_with uid))"

text \<open>The start of a dispatch; the run is in flight until its end is delivered.\<close>

definition start_dispatch :: "dispatch \<Rightarrow> unit act" where
  "start_dispatch ds = update_world (\<lambda>w. w\<lparr>w_out := w_out w @ [Dispatched ds],
     w_flight := (w_flight w)(ds_chat ds := Some (length (w_out w)))\<rparr>)"

definition hand_over :: "deps \<Rightarrow> inbound list \<Rightarrow> turn \<Rightarrow> asked \<Rightarrow> claims \<Rightarrow> role \<Rightarrow> string \<Rightarrow> ask_result \<Rightarrow> unit act" where
  "hand_over d ms t a cs r shopper res =
     (let m = hd ms; trig = triggering ms (tn_valid t); prim = primary_claim trig cs in
      andThen (if dp_react d then emit (Reacted (im_key trig) (im_id trig)) else done_with ()) (\<lambda>u.
      andThen (new_workflow d m shopper (im_id trig) (ar_thread res)) (\<lambda>wf.
      andThen (relay_claims (filter (\<lambda>(x, token). im_id x \<noteq> im_id (fst prim)) cs)) (\<lambda>u.
        if tn_greeting t then emit (WelcomeText (im_key m) wf shopper (im_id (fst prim)) (snd prim))
        else start_dispatch \<lparr>ds_workflow = wf, ds_chat = im_key m, ds_shopper = shopper, ds_role = r,
               ds_key = im_id (fst prim), ds_token = snd prim, ds_thread = ar_thread res, ds_event = ar_event res,
               ds_pa_pacing = (r = PaRole), ds_welcome = tn_request t, ds_operator_text = as_query a\<rparr>))))"

definition settle_turn ::
  "deps \<Rightarrow> inbound list \<Rightarrow> nat \<Rightarrow> turn \<Rightarrow> claims \<Rightarrow> asked \<Rightarrow> posting_identity \<times> ask_result \<Rightarrow> unit act" where
  "settle_turn d ms epoch t cs a res =
     (let m = hd ms in
      andThen (if as_retag a \<or> (\<not> tn_shopper t \<and> \<not> tn_pa t \<and> \<not> tn_greeting t) then done_with False
               else available (im_key m) (im_group m) epoch) (\<lambda>go.
        if \<not> go then relay_claims cs
        else (case fst res of
            ClientIdentity \<Rightarrow> done_with ()
          | ShopperIdentity r s \<Rightarrow> hand_over d ms t a cs r s (snd res))))"

definition run_turn :: "deps \<Rightarrow> inbound list \<Rightarrow> nat \<Rightarrow> turn \<Rightarrow> claims \<Rightarrow> unit act" where
  "run_turn d ms epoch t cs =
     andThen (ask_turn d (hd ms) t) (\<lambda>a.
       if as_hold a then
         andThen (notify d (im_key (hd ms)) VOICE_UNAVAILABLE_NOTICE) (\<lambda>u. relay_claims cs)
       else andThen (pa_turn d (hd ms) epoch t a) (\<lambda>res. settle_turn d ms epoch t cs a res))"

definition upload_notice :: string where
  "upload_notice = ''Got your photo, but I couldn't upload it just now. Please resend it once and I'll pick it up.''"

definition snag_notice :: string where
  "snag_notice = ''I hit a snag sending that to my workspace. Please resend and I'll try again.''"

definition failure_notice :: "turn \<Rightarrow> inbound \<Rightarrow> failure \<Rightarrow> unit act" where
  "failure_notice t m e =
     (case e of
        SubmissionFailed st r \<Rightarrow>
          if tn_media t \<and> st = ''upload_failed'' then emit (Notified (im_key m) upload_notice)
          else if tn_media t \<and> st = ''sent_message_failed'' then emit (Notified (im_key m) snag_notice)
          else done_with ()
      | Raised \<Rightarrow> done_with ())"

section \<open>The live handler\<close>

text \<open>The rest of the handler once messages are claimed: an error fails every claim.\<close>

definition work_on ::
  "deps \<Rightarrow> inbound list \<Rightarrow> nat \<Rightarrow> inbound list \<Rightarrow> destination \<Rightarrow> posting_identity \<Rightarrow> claims \<Rightarrow> world \<Rightarrow> world" where
  "work_on d ms epoch valid dest ident cs w =
     (case prepare d ms epoch valid dest ident w of
        (w1, Inl e) \<Rightarrow> fst (fail_claims cs w1)
      | (w1, Inr t) \<Rightarrow>
          (case run_turn d ms epoch t cs w1 of
             (w2, Inl e) \<Rightarrow> fst (andThen (fail_claims cs) (\<lambda>u. failure_notice t (hd ms) e) w2)
           | (w2, Inr u) \<Rightarrow> w2))"

definition processBatch :: "deps \<Rightarrow> inbound list \<Rightarrow> nat \<Rightarrow> world \<Rightarrow> world" where
  "processBatch d ms epoch w =
     (if ms = [] then w
      else
        (case gate d ms epoch w of
           (w1, Inr (Some (valid, dest, ident))) \<Rightarrow>
             (case claim_all d valid w1 of
                (w2, Inr cs) \<Rightarrow> if cs = [] then w2 else work_on d ms epoch valid dest ident cs w2
              | (w2, Inl e) \<Rightarrow> w2)
         | (w1, r) \<Rightarrow> w1))"

section \<open>The history handler\<close>

definition history_msg :: "string \<times> string \<Rightarrow> inbound" where
  "history_msg k = \<lparr>im_connection = fst k, im_chat = snd k, im_sender = [], im_phone = None, im_id = [], im_ts = 0,
     im_text = [], im_type = [], im_push = None, im_file = None, im_ptt = False, im_status = MsNone,
     im_media = None, im_group = True, im_fromMe = False, im_mentions = False\<rparr>"

definition history_rows :: "string \<times> string \<Rightarrow> stored list act" where
  "history_rows k = read_db (\<lambda>w. listUnrelayedHistory (fst k) (snd k) (w_store w))"

definition relay_row :: "deps \<Rightarrow> inbound \<Rightarrow> destination \<Rightarrow> nat \<Rightarrow> stored \<Rightarrow> unit act" where
  "relay_row d m dest epoch row w =
     (case dp_history d (w_awaits w) row of
        None \<Rightarrow> andThen (await d) (\<lambda>u. raise Raised) w
      | Some None \<Rightarrow> andThen (await d) (\<lambda>u. done_with ()) w
      | Some (Some r) \<Rightarrow>
          andThen (await d) (\<lambda>u.
          andThen (available (im_key m) (im_group m) epoch) (\<lambda>ok.
          if \<not> ok then done_with ()
          else andThen registry (\<lambda>db.
            let ident = posting_as r dest db in
            case collect_files [r] of
              None \<Rightarrow> raise Raised
            | Some files \<Rightarrow>
                if ident = ClientIdentity \<and> clientQuery r = None then raise Raised
                else
                  (case (if ident = ClientIdentity then clientQuery r else promptQlQuery r) of
                     None \<Rightarrow> done_with ()
                   | Some query \<Rightarrow>
                       andThen (ground d [r] (map normalizePromptQlFile files) query) (\<lambda>g.
                       andThen (submitTurn d m dest ident (vt_query g) ForceSkip (vt_files g) False (Some (im_id r)) (vt_voice g)) (\<lambda>a.
                         relay_message (cm_connection row) (cm_chat row) (cm_message row))))))) w)"

primrec relay_rows :: "deps \<Rightarrow> inbound \<Rightarrow> destination \<Rightarrow> nat \<Rightarrow> stored list \<Rightarrow> bool act" where
  "relay_rows d m dest epoch [] = done_with True"
| "relay_rows d m dest epoch (row # rows) =
     andThen (available (im_key m) (im_group m) epoch) (\<lambda>ok.
       if \<not> ok then done_with False
       else andThen (orElse (relay_row d m dest epoch row) (\<lambda>e. done_with ())) (\<lambda>u.
         relay_rows d m dest epoch rows))"

definition history_header :: "nat \<Rightarrow> string" where
  "history_header n = ''Replaying '' @ show_nat n @ '' messages from group history, oldest first''"

definition replay :: "deps \<Rightarrow> inbound \<Rightarrow> destination \<Rightarrow> nat \<Rightarrow> stored list \<Rightarrow> unit act" where
  "replay d m dest epoch rows =
     andThen (submit d m dest ClientIdentity (history_header (length rows)) ForceSkip [] False None False) (\<lambda>a.
     andThen (relay_rows d m dest epoch rows) (\<lambda>go.
       if \<not> go then done_with ()
       else andThen (available (im_key m) (im_group m) epoch) (\<lambda>ok.
         if ok then andThen (submit d m dest ClientIdentity ''End of history'' ForceSkip [] False None False) (\<lambda>a. done_with ())
         else done_with ())))"

definition replay_all :: "deps \<Rightarrow> inbound \<Rightarrow> destination \<Rightarrow> nat \<Rightarrow> stored list \<Rightarrow> unit act" where
  "replay_all d m dest epoch rows =
     andThen (bot_of (im_key m)) (\<lambda>existing.
       if promotes existing dest then
         andThen (retryPending d m dest) (\<lambda>u.
         andThen (available (im_key m) (im_group m) epoch) (\<lambda>ok.
           if \<not> ok then done_with ()
           else andThen (history_rows (im_key m)) (\<lambda>rows'.
             if rows' = [] then done_with () else replay d m dest epoch rows')))
       else replay d m dest epoch rows)"

definition onHistoryBatch :: "deps \<Rightarrow> string \<times> string \<Rightarrow> nat \<Rightarrow> unit act" where
  "onHistoryBatch d k epoch =
     (let m = history_msg k in
      andThen (history_rows k) (\<lambda>rows.
      if rows = [] then done_with ()
      else andThen (available k True epoch) (\<lambda>ok.
        if \<not> ok then done_with ()
        else andThen (clientReady d k) (\<lambda>ready.
          if \<not> ready then done_with ()
          else andThen (destination d m) (\<lambda>dest.
            case dest of
              None \<Rightarrow> done_with ()
            | Some dest \<Rightarrow> andThen (available k True epoch) (\<lambda>ok.
                if \<not> ok then done_with ()
                else orElse (replay_all d m dest epoch rows) (\<lambda>e. done_with ())))))))"

end
