(* ===== verification/BatchFacts.thy ===== *)
theory BatchFacts
  imports Batch
begin

text \<open>
  What the handlers of the inbound router promise: which asks they make and as whom, that audio is
  never uploaded and that a message the gateway must not relay changes nothing.
\<close>

section \<open>Files\<close>

lemma no_audio_staged:
  assumes "no_audio files" shows "no_audio (stagePromptQlFiles codec files budget)"
proof -
  have "no_audio gs" if "list_all2 staged_as fs gs" "no_audio fs" for fs gs
    using that by (induction rule: list_all2_induct) (auto simp: no_audio_def isAudioFile_def staged_as_def)
  then show ?thesis using staging_files assms by blast
qed

lemma no_audio_smaller:
  "no_audio files \<Longrightarrow> no_audio (map (\<lambda>f. if isImagePromptQlFile f then recompressForBridge codec f else f) files)"
  by (auto simp: no_audio_def isAudioFile_def bridge_audio)

lemma no_audio_normalized: "no_audio (map normalizePromptQlFile files) = no_audio files"
  by (auto simp: no_audio_def isAudioFile_def audio_normalize)

section \<open>Actions of the handlers\<close>

lemma keeps_andThen_result:
  assumes "keeps p a" "\<And>w w' x. a w = (w', Inr x) \<Longrightarrow> keeps p (f x)"
  shows "keeps p (andThen a f)"
  using assms unfolding keeps_def andThen_def by (auto split: prod.splits sum.splits)

lemma ground_result:
  "ground d ms files query w = (w', Inr g) \<Longrightarrow> \<exists>h. g = groundVoiceTurn h ms files query"
  by (auto simp: ground_def andThen_def await_def done_with_def Let_def)

lemma prepare_result:
  assumes "prepare d ms epoch valid dest ident w = (w', Inr t)"
  shows "tn_valid t = valid \<and> tn_dest t = dest \<and> tn_identity t = ident
    \<and> (tn_mode t = ForceRespond \<longrightarrow> tn_shopper t \<and> is_shopper ident)
    \<and> tn_shopper t = shopper_trigger ident valid \<and> tn_pa t = pa_trigger dest ident valid
    \<and> (tn_greeting t \<longrightarrow> is_shopper ident)"
  using assms
  by (auto simp: prepare_def andThen_def read_db_def raise_def done_with_def Let_def shopper_trigger_def list_ex_iff
      first_operator_dm_def is_shopper_def
      split: prod.splits sum.splits if_splits option.splits posting_identity.splits role.splits)

context ask_observer
begin

text \<open>Every ask of a turn is the turn's own identity, in its mode or as context, without audio.\<close>

lemma keeps_ladder:
  assumes "\<And>existing q mode' fs v. mode' = ForceSkip \<or> mode' = mode \<Longrightarrow> no_audio fs \<Longrightarrow>
      ok (ask_of d m dest existing ident q mode' fs v)"
    and "no_audio files"
  shows "keeps p (submitMediaAsk d m dest ident query mode files voice)"
proof -
  have t: "keeps p (submitTurn d m dest ident query mode fs rf mid voice)" if "no_audio fs" for fs rf mid
    using that assms(1) by (intro keeps_turn) (auto simp: no_audio_def)
  show ?thesis
    unfolding submitMediaAsk_def Let_def
    by (intro keep_intros keeps_basic t no_audio_smaller no_audio_staged assms(2))
qed

lemma keeps_flight: "keeps p (settle_flight d m t)"
  unfolding settle_flight_def Let_def by (intro keep_intros keeps_basic)

lemma keeps_ground: "keeps p (ground d ms files query)"
proof -
  have "keeps p (andThen (await d) (\<lambda>u. done_with g))" for g :: voice_turn
    by (intro keep_intros keeps_basic)
  then show ?thesis by (simp add: keeps_def ground_def)
qed

lemma keeps_prepare: "keeps p (prepare d ms epoch valid dest ident)"
  unfolding prepare_def Let_def by (intro keep_intros keeps_basic keeps_available)

lemma keeps_ask_turn:
  assumes "\<And>existing q mode fs v. mode = ForceSkip \<or> mode = tn_mode t \<Longrightarrow> no_audio fs \<Longrightarrow>
      ok (ask_of d m (tn_dest t) existing (tn_identity t) q mode fs v)"
  shows "keeps p (ask_turn d m t)"
proof -
  have "keeps p (let hold = voice_hold t g retag; mode = (if retag \<or> hold then ForceSkip else tn_mode t)
       in andThen (submitMediaAsk d m (tn_dest t) (tn_identity t) (vt_query g) mode (vt_files g) (vt_voice g)) (\<lambda>a.
          andThen (each (\<lambda>v. relay_message (im_connection v) (im_chat v) (im_id v)) (tn_valid t)) (\<lambda>u.
            done_with \<lparr>as_retag = retag, as_hold = hold, as_query = vt_query g, as_voice = vt_voice g, as_result = a\<rparr>)))"
    if "no_audio (vt_files g)" for g retag
    unfolding Let_def
    by (intro keep_intros keeps_basic keeps_ladder assms that) (auto split: if_splits)
  then show ?thesis
    unfolding ask_turn_def
    by (intro keeps_andThen keeps_flight keeps_andThen_result keeps_ground)
      (auto dest!: ground_result simp: grounded_files)
qed

lemma keeps_pa:
  assumes "\<And>existing q v s. ok (ask_of d m (tn_dest t) existing (ShopperIdentity PaRole s) q ForceRespond [] v)"
  shows "keeps p (pa_turn d m epoch t a)"
  unfolding pa_turn_def Let_def
  by (intro keep_intros keeps_basic keeps_available keeps_submit assms)

text \<open>The history handler: every ask is context without audio.\<close>

lemma keeps_relay_row:
  assumes "\<And>m existing dest ident q fs v. no_audio fs \<Longrightarrow> ok (ask_of d m dest existing ident q ForceSkip fs v)"
  shows "keeps p (relay_row d m dest epoch row)"
proof -
  have t: "keeps p (submitTurn d m dest ident q ForceSkip fs rf mid v)" if "no_audio fs" for ident q fs rf mid v
    using that assms by (intro keeps_turn) (auto simp: no_audio_def)
  have g: "keeps p (andThen (ground d ms files q) (\<lambda>g.
      andThen (submitTurn d m dest ident (vt_query g) ForceSkip (vt_files g) False mid (vt_voice g)) (\<lambda>a.
        relay_message c k i)))" for ms files q ident mid c k i
    by (intro keeps_andThen_result keeps_ground keeps_andThen t keeps_relay_message)
      (auto dest!: ground_result simp: grounded_files)
  have l: "keeps p (andThen (await d) f)" if "\<And>u. keeps p (f u)" for f :: "unit \<Rightarrow> unit act"
    using that by (intro keep_intros keeps_basic)
  show ?thesis
    unfolding keeps_def relay_row_def Let_def
    by (intro allI impI)
      (auto simp: keeps_def [symmetric] split: option.split
        intro!: keepsD [OF l] keep_intros keeps_available keeps_registry g)
qed

lemma keeps_relay_rows:
  assumes "\<And>m existing dest ident q fs v. no_audio fs \<Longrightarrow> ok (ask_of d m dest existing ident q ForceSkip fs v)"
  shows "keeps p (relay_rows d m dest epoch rows)"
  by (induction rows) (auto intro!: keep_intros keeps_available keeps_relay_row assms)

lemma keeps_history_with:
  assumes "\<And>m existing dest ident q fs v. no_audio fs \<Longrightarrow> ok (ask_of d m dest existing ident q ForceSkip fs v)"
    and r: "\<And>m dest. keeps p (retryPending d m dest)"
  shows "keeps p (onHistoryBatch d k epoch)"
proof -
  have s: "keeps p (submit d m dest ident q ForceSkip [] rf mid v)" for m dest ident q rf mid v
    by (rule keeps_submit) (simp add: assms(1) no_audio_def)
  have h: "keeps p (history_rows k)" for k
    unfolding history_rows_def by (rule keeps_read)
  have p: "keeps p (replay d m dest epoch rows)" for m dest rows
    unfolding replay_def by (intro keep_intros keeps_available s keeps_relay_rows assms(1))
  have a: "keeps p (replay_all d m dest epoch rows)" for m dest rows
    unfolding replay_all_def by (intro keep_intros keeps_basic keeps_available r h p)
  show ?thesis
    unfolding onHistoryBatch_def Let_def
    by (intro keep_intros keeps_available keeps_clientReady keeps_destination h a)
qed

end

context log_blind
begin

lemma keeps_gate:
  assumes "\<And>existing dest ident query. ok (ask_of d (hd ms) dest existing ident query ForceSkip [] False)"
  shows "keeps p (gate d ms epoch)"
  unfolding gate_def Let_def
  by (intro keep_intros keeps_basic keeps_available keeps_destination keeps_clientReady keeps_retry assms)

lemma keeps_history:
  assumes "\<And>m existing dest ident q fs v. no_audio fs \<Longrightarrow> ok (ask_of d m dest existing ident q ForceSkip fs v)"
  shows "keeps p (onHistoryBatch d k epoch)"
  by (rule keeps_history_with) (simp_all add: assms keeps_retry no_audio_def)

lemma keeps_claim_all: "keeps p (claim_all d ms)"
  by (induction ms) (auto intro!: keep_intros keeps_claim)

lemma keeps_relay_claims: "keeps p (relay_claims cs)"
  unfolding relay_claims_def by (rule keeps_each) (auto intro!: keeps_relay_key)

lemma keeps_fail_claims: "keeps p (fail_claims cs)"
  unfolding fail_claims_def by (rule keeps_each) (auto intro!: keeps_fail_key)

end

context ask_only
begin

lemma keeps_notify: "keeps p (notify d k text)"
  unfolding notify_def by (intro keep_intros keeps_basic keeps_emit)

lemma keeps_failure_notice: "keeps p (failure_notice t m e)"
  unfolding failure_notice_def by (cases e) (auto intro!: keep_intros keeps_emit)

lemma keeps_workflow: "keeps p (new_workflow d m s i thread)"
  unfolding new_workflow_def
  by (intro keep_intros keeps_basic) (erule Inr_split, erule frame, simp_all)

lemma keeps_start: "keeps p (start_dispatch ds)"
proof -
  have "p (w\<lparr>w_out := w_out w @ [e], w_flight := fl\<rparr>)" if "p w" for w e fl
    by (rule frame [OF emitted [OF that, of e]]) simp_all
  then show ?thesis unfolding start_dispatch_def by (intro keeps_update)
qed

lemma keeps_hand_over: "keeps p (hand_over d ms t a cs r s res)"
  unfolding hand_over_def Let_def
  by (intro keep_intros keeps_emit keeps_workflow keeps_relay_claims keeps_start)

lemma keeps_settle_turn: "keeps p (settle_turn d ms epoch t cs a res)"
  unfolding settle_turn_def Let_def
  by (cases "fst res") (auto intro!: keep_intros keeps_available keeps_relay_claims keeps_hand_over)

lemma keeps_run_turn:
  assumes "\<And>existing q mode fs v. mode = ForceSkip \<or> mode = tn_mode t \<Longrightarrow> no_audio fs \<Longrightarrow>
      ok (ask_of d (hd ms) (tn_dest t) existing (tn_identity t) q mode fs v)"
    "\<And>existing q v s. ok (ask_of d (hd ms) (tn_dest t) existing (ShopperIdentity PaRole s) q ForceRespond [] v)"
  shows "keeps p (run_turn d ms epoch t cs)"
  unfolding run_turn_def
  by (intro keep_intros keeps_ask_turn keeps_pa keeps_settle_turn keeps_notify keeps_relay_claims assms)

text \<open>The whole handler: asks of recovery, of the turn, and of the assistant.\<close>

lemma keeps_work:
  assumes w: "p w"
    and pa: "\<And>m existing dest q v s. ok (ask_of d m dest existing (ShopperIdentity PaRole s) q ForceRespond [] v)"
    and turn: "\<And>m existing dest ident q mode fs v. mode = ForceSkip \<or> ident \<noteq> ClientIdentity \<Longrightarrow> no_audio fs \<Longrightarrow>
      ok (ask_of d m dest existing ident q mode fs v)"
  shows "p (work_on d ms epoch valid dest ident cs w)"
proof -
  obtain w1 q where q: "prepare d ms epoch valid dest ident w = (w1, q)"
    by (cases "prepare d ms epoch valid dest ident w")
  have "p (fst (prepare d ms epoch valid dest ident w))" by (rule keepsD [OF keeps_prepare w])
  then have p1: "p w1" using q by simp
  show ?thesis
  proof (cases q)
    case (Inl e)
    then show ?thesis using q keepsD [OF keeps_fail_claims p1] by (simp add: work_on_def)
  next
    case (Inr t)
    have "keeps p (run_turn d ms epoch t cs)"
      using prepare_result [OF q [unfolded Inr]] pa turn
      by (intro keeps_run_turn) (auto, (metis is_shopper_code(1) response_mode.exhaust)+)
    from keepsD [OF this p1] have "p (fst (run_turn d ms epoch t cs w1))" .
    moreover have "keeps p (andThen (fail_claims cs) (\<lambda>u. failure_notice t (hd ms) e))" for e
      by (intro keep_intros keeps_fail_claims keeps_failure_notice)
    ultimately show ?thesis
      using q Inr by (auto simp: work_on_def keeps_def split: prod.split sum.split)
  qed
qed

lemma keeps_batch:
  assumes "p w"
    and "\<And>m existing dest ident query. ok (ask_of d m dest existing ident query ForceSkip [] False)"
    and "\<And>m existing dest q v s. ok (ask_of d m dest existing (ShopperIdentity PaRole s) q ForceRespond [] v)"
    and "\<And>m existing dest ident q mode fs v. mode = ForceSkip \<or> ident \<noteq> ClientIdentity \<Longrightarrow> no_audio fs \<Longrightarrow>
      ok (ask_of d m dest existing ident q mode fs v)"
  shows "p (processBatch d ms epoch w)"
proof (cases "ms = []")
  case False
  obtain w1 r where g: "gate d ms epoch w = (w1, r)" by (cases "gate d ms epoch w")
  have "p (fst (gate d ms epoch w))" by (rule keepsD [OF keeps_gate assms(1)]) (rule assms(2))
  then have p1: "p w1" using g by simp
  obtain valid dest ident where r: "r = Inr (Some (valid, dest, ident)) \<or> (\<forall>x. r \<noteq> Inr (Some x))"
    by (cases "\<exists>x. r = Inr (Some x)") auto
  then show ?thesis
  proof
    assume r: "r = Inr (Some (valid, dest, ident))"
    obtain w2 c where c: "claim_all d valid w1 = (w2, c)" by (cases "claim_all d valid w1")
    have "p (fst (claim_all d valid w1))" by (rule keepsD [OF keeps_claim_all p1])
    then have p2: "p w2" using c by simp
    show ?thesis
      using False g r c p2 keeps_work [OF p2 assms(3, 4)]
      by (auto simp: processBatch_def split: sum.splits prod.splits)
  next
    assume "\<forall>x. r \<noteq> Inr (Some x)"
    then show ?thesis using False g p1 by (auto simp: processBatch_def split: sum.splits option.splits)
  qed
qed (simp add: processBatch_def assms(1))

end

interpretation new_asks: ask_only "\<lambda>w. \<exists>new. w_asks w = A @ new \<and> list_all P new" P for A P
  by unfold_locales auto

section \<open>Properties\<close>

text \<open>C22: Handling a burst never asks the agent to respond to a post made as the client: whatever the
  environment answers and whatever happens meanwhile, every ask the handler adds as the client is
  context only.\<close>

theorem client_posts_never_trigger:
  "\<exists>new. w_asks (processBatch d ms epoch w) = w_asks w @ new
     \<and> list_all (\<lambda>c. \<not> (ak_identity c = ClientIdentity \<and> ak_mode c = ForceRespond)) new"
  by (rule new_asks.keeps_batch) (auto simp: ask_of_def)

text \<open>C23: No ask of a burst or of a history replay carries an audio file, whatever the transcriber and
  the image codec do.\<close>

theorem audio_is_never_uploaded:
  "(\<exists>new. w_asks (processBatch d ms epoch w) = w_asks w @ new \<and> list_all (\<lambda>c. no_audio (ak_files c)) new)
   \<and> (\<exists>new. w_asks (fst (onHistoryBatch d k epoch w)) = w_asks w @ new \<and> list_all (\<lambda>c. no_audio (ak_files c)) new)"
  by (intro conjI new_asks.keeps_batch keepsD [OF new_asks.keeps_history]) (auto simp: ask_of_def no_audio_def)


text \<open>The echo of a message the gateway sent, and a message of a group it has left or left and
  rejoined since the message came in, change nothing at all.\<close>

theorem ignored_messages_change_nothing:
  assumes "(im_fromMe (hd ms) \<and> isGatewayMessage (im_connection (hd ms)) (im_chat (hd ms)) (im_id (hd ms)) (w_log w) = Inr True)
    \<or> (\<not> im_fromMe (hd ms) \<and> im_group (hd ms)
       \<and> (epoch \<noteq> w_epochs w (im_key (hd ms))
          \<or> (\<exists>r. membership_of (im_key (hd ms)) (w_chat w) = Inr (Some r) \<and> \<not> mb_present r)))"
  shows "processBatch d ms epoch w = w"
proof (cases "ms = []")
  case False
  have "gate d ms epoch w = (w, Inr None)"
    using assms
    by (auto simp: gate_def Let_def andThen_def read_db_def done_with_def available_def present_of_def)
  then show ?thesis using False by (simp add: processBatch_def)
qed (simp add: processBatch_def)

text \<open>A quiet environment: nothing happens at an \<open>await\<close>, and every ask is answered in one thread.\<close>

definition quiet_deps :: deps where
  "quiet_deps = \<lparr>dp_relayUnregistered = False, dp_instruction = None, dp_inFlightWait = 0, dp_mediaBurst = 0,
     dp_welcome = False, dp_react = False,
     dp_codec = \<lparr>jpeg_decode = (\<lambda>b. None), jpeg_encode = (\<lambda>b w h q. None)\<rparr>, dp_vault = None,
     dp_ask = (\<lambda>n c. Answered \<lparr>ar_thread = ''thread'', ar_event = None\<rparr>), dp_group = (\<lambda>n c. Some None),
     dp_heard = (\<lambda>n k f. None), dp_history = (\<lambda>n r. Some None), dp_during = (\<lambda>n. []), dp_pause = (\<lambda>n. 0),
     dp_uuid = (\<lambda>n. replicate (n + 1) (CHR ''u'')), dp_iv = (\<lambda>n. [])\<rparr>"

definition empty_world :: world where
  "empty_world = \<lparr>w_chat = \<lparr>cd_bots = [], cd_members = []\<rparr>, w_log = [], w_store = [], w_flows = [], w_audit = [],
     w_welcome = [], w_identity = \<lparr>id_shoppers = [], id_mappings = [], id_credentials = []\<rparr>, w_settings = None,
     w_epochs = (\<lambda>k. 0), w_flight = (\<lambda>k. None), w_asks = [], w_out = [], w_now = 0, w_awaits = 0, w_uuids = 0\<rparr>"

definition group_message :: inbound where
  "group_message = \<lparr>im_connection = ''c'', im_chat = ''1@g.us'', im_sender = ''2@lid'', im_phone = None, im_id = ''m'',
     im_ts = 0, im_text = ''hi'', im_type = ''text'', im_push = None, im_file = None, im_ptt = False, im_status = MsNone,
     im_media = None, im_group = True, im_fromMe = False, im_mentions = True\<rparr>"

theorem ignored_messages_change_nothing_witness:
  "processBatch quiet_deps [group_message] 1 empty_world = empty_world"
  by (rule ignored_messages_change_nothing) (simp add: group_message_def empty_world_def)

end
