(* ===== verification/Settling.thy ===== *)
theory Settling
  imports BatchFacts
begin

text \<open>
  The claims of a burst in the outbound log: a claim that the router takes is relayed, failed, or
  handed to exactly one dispatch, on every path of \<open>processBatch\<close>.
\<close>

section \<open>Pending rows\<close>

text \<open>Every pending row is one of \<open>L0\<close> or has a key and token of \<open>K\<close>.\<close>

definition pend_ok :: "out_row list \<Rightarrow> ((string \<times> string) \<times> string option) set \<Rightarrow> out_row list \<Rightarrow> bool" where
  "pend_ok L0 K rows \<longleftrightarrow>
     (\<forall>r \<in> set rows. ol_status r = Pending \<longrightarrow> r \<in> set L0 \<or> (row_key r, ol_token r) \<in> K)"

definition claimed_keys :: "claims \<Rightarrow> ((string \<times> string) \<times> string option) set" where
  "claimed_keys cs = (\<lambda>(m, token). ((im_connection m, im_id m), Some token)) ` set cs"

lemma claimed_keys_Cons:
  "K - {((im_connection m, im_id m), Some token)} - claimed_keys cs = K - claimed_keys ((m, token) # cs)"
  by (auto simp: claimed_keys_def)

lemma pend_mono: "pend_ok L0 K rows \<Longrightarrow> K \<subseteq> K' \<Longrightarrow> pend_ok L0 K' rows"
  by (auto simp: pend_ok_def)

lemma pend_claim: "pend_ok L0 K rows \<Longrightarrow> pend_ok L0 (insert (k, Some token) K) (fst (claim now token k rows))"
  by (auto simp: pend_ok_def claim_def row_key_def set_sql_update split: option.split)

lemma claim_unclaimed: "snd (claim now token k rows) \<noteq> Claimed token \<Longrightarrow> fst (claim now token k rows) = rows"
  by (auto simp: claim_def split: option.splits if_splits)

lemma claim_token: "snd (claim now token k rows) = Claimed t \<Longrightarrow> t = token"
  by (auto simp: claim_def split: option.splits if_splits)

lemma row_key_record [simp]:
  "row_key (r\<lparr>ol_status := s, ol_updated := u\<rparr>) = row_key r"
  "row_key (r\<lparr>ol_status := s, ol_chat := c, ol_ref := f, ol_updated := u\<rparr>) = row_key r"
  by (simp_all add: row_key_def)

lemma pend_update:
  assumes "pend_ok L0 K rows" "\<And>r. ol_status (f r) \<noteq> Pending"
  shows "pend_ok L0 (K - {(k, Some token)}) (sql_update (holds_claim k token) f rows)"
  unfolding pend_ok_def ball_update
proof (intro ballI impI)
  fix r assume "r \<in> set rows" "ol_status (if holds_claim k token r then f r else r) = Pending"
  then have "\<not> holds_claim k token r" "ol_status r = Pending" using assms(2) by (auto split: if_splits)
  with assms(1) \<open>r \<in> set rows\<close> show "(if holds_claim k token r then f r else r) \<in> set L0
      \<or> (row_key (if holds_claim k token r then f r else r), ol_token (if holds_claim k token r then f r else r))
        \<in> K - {(k, Some token)}"
    by (auto simp: pend_ok_def holds_claim_def)
qed

lemma pend_relay:
  assumes "pend_ok L0 K rows" "markRelayed now k token chat rows = Inr (rows', b)"
  shows "pend_ok L0 (K - {(k, Some token)}) rows'"
  using assms by (auto simp: markRelayed_def intro!: pend_update split: if_splits)

lemma pend_fail:
  "pend_ok L0 K rows \<Longrightarrow> pend_ok L0 (K - {(k, Some token)}) (fst (markFailed now k token rows))"
  by (simp add: markFailed_def pend_update)

interpretation pend: ask_observer "\<lambda>w. pend_ok L0 K (w_log w)" "\<lambda>c. True" for L0 K
  by unfold_locales auto

interpretation same_out: log_blind "\<lambda>w. w_out w = out" "\<lambda>c. True" for out
  by unfold_locales auto

interpretation out_grows: ask_only "\<lambda>w. prefix out (w_out w)" "\<lambda>c. True" for out
  by unfold_locales auto

lemma same_out_asks:
  "w_out (fst (ask_turn d m t w)) = w_out w" "w_out (fst (pa_turn d m epoch t a w)) = w_out w"
  "w_out (fst (await d w)) = w_out w" "w_out (fst (gate d ms epoch w)) = w_out w"
  "w_out (fst (prepare d ms epoch valid dest ident w)) = w_out w"
  by (rule keepsD [OF same_out.keeps_ask_turn] keepsD [OF same_out.keeps_pa] keepsD [OF same_out.keeps_await]
      keepsD [OF same_out.keeps_gate] keepsD [OF same_out.keeps_prepare]; simp)+

lemma pend_asks:
  assumes "pend_ok L0 K (w_log w)"
  shows "pend_ok L0 K (w_log (fst (ask_turn d m t w)))" "pend_ok L0 K (w_log (fst (pa_turn d m epoch t a w)))"
    "pend_ok L0 K (w_log (fst (prepare d ms epoch valid dest ident w)))"
  by (rule keepsD [OF pend.keeps_ask_turn] keepsD [OF pend.keeps_pa] keepsD [OF pend.keeps_prepare]; simp add: assms)+

section \<open>Claiming\<close>

lemma claim_key_eq:
  "claim_key d k w = (w\<lparr>w_uuids := w_uuids w + 1, w_log := fst (claim (w_now w) (dp_uuid d (w_uuids w)) k (w_log w))\<rparr>,
     Inr (snd (claim (w_now w) (dp_uuid d (w_uuids w)) k (w_log w))))"
  by (simp add: claim_key_def andThen_def fresh_def split: prod.split)

text \<open>A key whose row is pending and fresh is not claimed again.\<close>

definition busy :: "string \<times> string \<Rightarrow> world \<Rightarrow> bool" where
  "busy k w \<longleftrightarrow> (\<exists>r. out_get k (w_log w) = Some r \<and> ol_status r = Pending \<and> w_now w - ol_updated r \<le> STALE_PENDING_MS)"

lemma busy_not_claimed: "busy k w \<Longrightarrow> claim (w_now w) token k (w_log w) = (w_log w, InFlight)"
  by (auto simp: busy_def claim_def)

lemma out_get_claim_other:
  "j \<noteq> k \<Longrightarrow> out_get j (fst (claim now token k rows)) = out_get j rows"
proof -
  assume "j \<noteq> k"
  then have "sql_get (\<lambda>r. row_key r = j) (sql_update (\<lambda>r. row_key r = k) f rows) = sql_get (\<lambda>r. row_key r = j) rows"
    if "\<And>r. row_key (f r) = row_key r" for f
    using sql_get_update_at [of row_key f j k rows] that by simp
  with \<open>j \<noteq> k\<close> show ?thesis
    by (auto simp: claim_def out_get_def sql_get_append sql_get_Cons row_key_def split: option.splits)
qed

lemma out_get_claimed:
  assumes "snd (claim now token k rows) = Claimed t"
  shows "\<exists>r. out_get k (fst (claim now token k rows)) = Some r \<and> ol_status r = Pending \<and> ol_updated r = now"
proof (cases "out_get k rows")
  case None
  then show ?thesis
    by (auto simp: claim_def out_get_def sql_get_append sql_get_Cons row_key_def)
next
  case (Some r)
  then have "out_get k (sql_update (\<lambda>r. row_key r = k) (\<lambda>r. r\<lparr>ol_status := Pending, ol_token := Some token, ol_updated := now\<rparr>) rows)
      = Some (r\<lparr>ol_status := Pending, ol_token := Some token, ol_updated := now\<rparr>)"
    using sql_get_update_at [of row_key "\<lambda>r. r\<lparr>ol_status := Pending, ol_token := Some token, ol_updated := now\<rparr>" k k rows]
    by (simp add: out_get_def row_key_def)
  then show ?thesis using assms Some by (auto simp: claim_def split: if_splits)
qed

lemma claim_keeps_busy:
  "busy j w \<Longrightarrow> busy j (fst (claim_key d k w))"
  by (cases "j = k") (auto simp: claim_key_eq busy_not_claimed busy_def out_get_claim_other)

definition claim_name :: "inbound \<times> string \<Rightarrow> string \<times> string" where
  "claim_name c = (im_connection (fst c), im_id (fst c))"

lemma claim_all_result:
  assumes "claim_all d ms w = (w', r)" "pend_ok L0 K (w_log w)"
  shows "\<exists>cs. r = Inr cs \<and> pend_ok L0 (K \<union> claimed_keys cs) (w_log w') \<and> w_out w' = w_out w
    \<and> distinct (map claim_name cs) \<and> (\<forall>c \<in> set cs. \<not> busy (claim_name c) w \<and> fst c \<in> set ms)"
  using assms
proof (induction ms arbitrary: w w' r K)
  case Nil
  then show ?case by (auto simp: done_with_def claimed_keys_def)
next
  case (Cons m ms)
  define k where "k = (im_connection m, im_id m)"
  define token where "token = dp_uuid d (w_uuids w)"
  define c where "c = claim (w_now w) token k (w_log w)"
  define w1 where "w1 = w\<lparr>w_uuids := w_uuids w + 1, w_log := fst c\<rparr>"
  have c1: "claim_key d k w = (w1, Inr (snd c))" by (simp add: claim_key_eq w1_def c_def token_def)
  obtain w2 r2 where c2: "claim_all d ms w1 = (w2, r2)" by (cases "claim_all d ms w1")
  have busy1: "busy j w1" if "busy j w" for j using claim_keeps_busy [OF that, of d k] c1 by simp
  show ?case
  proof (cases "snd c = Claimed token")
    case True
    have "pend_ok L0 (insert (k, Some token) K) (w_log w1)"
      using pend_claim [OF Cons.prems(2)] by (simp add: w1_def c_def)
    from Cons.IH [OF c2 this] obtain cs where cs: "r2 = Inr cs"
      "pend_ok L0 (insert (k, Some token) K \<union> claimed_keys cs) (w_log w2)" "w_out w2 = w_out w1"
      "distinct (map claim_name cs)" "\<forall>c \<in> set cs. \<not> busy (claim_name c) w1 \<and> fst c \<in> set ms" by blast
    have "busy k w1" using out_get_claimed [OF True [unfolded c_def]] by (auto simp: busy_def w1_def c_def)
    moreover have "\<not> busy k w" using True busy_not_claimed [of k w token] by (auto simp: c_def)
    moreover have r: "w' = w2 \<and> r = Inr ((m, token) # cs)"
      using Cons.prems(1) c1 c2 cs(1) True by (simp add: andThen_def done_with_def k_def)
    moreover have "pend_ok L0 (K \<union> claimed_keys ((m, token) # cs)) (w_log w2)"
      using cs(2) by (simp add: claimed_keys_def k_def insert_commute)
    moreover have "claim_name (m, token) = k" by (simp add: claim_name_def k_def)
    moreover have "w_out w1 = w_out w" by (simp add: w1_def)
    moreover have "\<forall>c \<in> set cs. \<not> busy (claim_name c) w" using cs(5) busy1 by blast
    ultimately show ?thesis
      using cs by (intro exI [of _ "(m, token) # cs"]) auto
  next
    case False
    have log: "w_log w1 = w_log w" using claim_unclaimed False by (simp add: w1_def c_def)
    have "snd c \<noteq> Claimed t" for t using claim_token False by (metis c_def)
    moreover from Cons.IH [OF c2, of K] log Cons.prems(2) obtain cs where cs: "r2 = Inr cs"
      "pend_ok L0 (K \<union> claimed_keys cs) (w_log w2)" "w_out w2 = w_out w1"
      "distinct (map claim_name cs)" "\<forall>c \<in> set cs. \<not> busy (claim_name c) w1 \<and> fst c \<in> set ms" by auto
    ultimately have "w' = w2 \<and> r = Inr cs"
      using Cons.prems(1) c1 c2 by (auto simp: andThen_def done_with_def k_def split: claim_result.splits)
    moreover have "\<forall>c \<in> set cs. \<not> busy (claim_name c) w" using cs(5) busy1 by blast
    moreover have "w_out w1 = w_out w" by (simp add: w1_def)
    ultimately show ?thesis using cs by auto
  qed
qed

section \<open>Releasing\<close>

lemma keeps_relay_pend: "keeps (\<lambda>w. pend_ok L0 K (w_log w)) (relay_key k token chat)"
  unfolding relay_key_def
proof (rule keeps_write)
  fix w w'
  assume p: "pend_ok L0 K (w_log w)"
    and "map_sum id (\<lambda>r. w\<lparr>w_log := fst r\<rparr>) (markRelayed (w_now w) k token chat (w_log w)) = Inr w'"
  then obtain rows b where r: "markRelayed (w_now w) k token chat (w_log w) = Inr (rows, b)"
    and w': "w' = w\<lparr>w_log := rows\<rparr>" by (auto simp: map_sum_Inr)
  show "pend_ok L0 K (w_log w')"
    using pend_mono [OF pend_relay [OF p r], of K] w' by auto
qed

lemma relay_claims_result:
  "relay_claims cs w = (w', Inr ()) \<Longrightarrow> pend_ok L0 K (w_log w) \<Longrightarrow>
     pend_ok L0 (K - claimed_keys cs) (w_log w') \<and> w_out w' = w_out w"
proof (induction cs arbitrary: w K)
  case Nil
  then show ?case by (simp add: relay_claims_def done_with_def claimed_keys_def)
next
  case (Cons c cs)
  obtain m token where c: "c = (m, token)" by (cases c)
  from Cons.prems(1) obtain w1 where w1: "relay_key (im_connection m, im_id m) token (im_chat m) w = (w1, Inr ())"
    and r: "relay_claims cs w1 = (w', Inr ())"
    by (auto simp: relay_claims_def andThen_def c split: prod.splits sum.splits)
  then have "pend_ok L0 (K - {((im_connection m, im_id m), Some token)}) (w_log w1) \<and> w_out w1 = w_out w"
    using pend_relay [OF Cons.prems(2)]
    by (auto simp: relay_key_def write_db_def map_sum_Inr split: sum.splits)
  with Cons.IH [OF r, of "K - {((im_connection m, im_id m), Some token)}"] show ?case
    by (simp add: claimed_keys_Cons c)
qed

lemma fail_claims_result:
  "pend_ok L0 K (w_log w) \<Longrightarrow> \<exists>w'. fail_claims cs w = (w', Inr ()) \<and> pend_ok L0 (K - claimed_keys cs) (w_log w') \<and> w_out w' = w_out w"
proof (induction cs arbitrary: w K)
  case Nil
  then show ?case by (simp add: fail_claims_def done_with_def claimed_keys_def)
next
  case (Cons c cs)
  obtain m token where c: "c = (m, token)" by (cases c)
  let ?w = "w\<lparr>w_log := fst (markFailed (w_now w) (im_connection m, im_id m) token (w_log w))\<rparr>"
  have "pend_ok L0 (K - {((im_connection m, im_id m), Some token)}) (w_log ?w)"
    using pend_fail [OF Cons.prems] by simp
  from Cons.IH [OF this] obtain w' where "fail_claims cs ?w = (w', Inr ())"
    "pend_ok L0 (K - claimed_keys (c # cs)) (w_log w')" "w_out w' = w_out w"
    by (auto simp: claimed_keys_Cons c)
  moreover have "fail_claims (c # cs) w = fail_claims cs ?w"
    by (simp add: fail_claims_def andThen_def fail_key_def update_world_def c)
  ultimately show ?case by simp
qed

lemma keeps_relay_claims_pend: "keeps (\<lambda>w. pend_ok L0 K (w_log w)) (relay_claims cs)"
  unfolding relay_claims_def by (rule keeps_each) (auto intro!: keeps_relay_pend)

lemma keeps_emit_pend: "keeps (\<lambda>w. pend_ok L0 K (w_log w)) (emit e)"
  unfolding emit_def by (rule keeps_update) simp

lemma keeps_notify_pend: "keeps (\<lambda>w. pend_ok L0 K (w_log w)) (notify d k text)"
  unfolding notify_def by (intro keep_intros keeps_emit_pend pend.keeps_await)

lemma workflow_frame:
  "w_log (fst (new_workflow d m s i thread w)) = w_log w \<and> w_out (fst (new_workflow d m s i thread w)) = w_out w"
  by (auto simp: new_workflow_def andThen_def fresh_def write_db_def map_sum_Inr done_with_def split: sum.splits prod.splits)

lemma keeps_hand_over_pend: "keeps (\<lambda>w. pend_ok L0 K (w_log w)) (hand_over d ms t a cs r s res)"
proof -
  have "keeps (\<lambda>w. pend_ok L0 K (w_log w)) (new_workflow d m s i thread)" for m i thread
    using workflow_frame by (simp add: keeps_def)
  moreover have "keeps (\<lambda>w. pend_ok L0 K (w_log w)) (start_dispatch ds)" for ds
    unfolding start_dispatch_def by (rule keeps_update) simp
  ultimately show ?thesis
    unfolding hand_over_def Let_def
    by (intro keep_intros keeps_emit_pend keeps_relay_claims_pend)
qed

lemma keeps_run_turn_pend: "keeps (\<lambda>w. pend_ok L0 K (w_log w)) (run_turn d ms epoch t cs)"
proof -
  have "keeps (\<lambda>w. pend_ok L0 K (w_log w)) (settle_turn d ms epoch t cs a res)" for a res
    unfolding settle_turn_def Let_def
    by (cases "fst res")
      (auto intro!: keep_intros pend.keeps_available keeps_relay_claims_pend keeps_hand_over_pend)
  moreover have "keeps (\<lambda>w. pend_ok L0 K (w_log w)) (pa_turn d m epoch t a)" for m a
    by (rule pend.keeps_pa) simp
  moreover have "keeps (\<lambda>w. pend_ok L0 K (w_log w)) (ask_turn d m t)" for m
    by (rule pend.keeps_ask_turn) simp
  ultimately show ?thesis
    unfolding run_turn_def
    by (intro keep_intros keeps_relay_claims_pend keeps_notify_pend)
qed

section \<open>The end of a turn\<close>

text \<open>The claim an effect took over.\<close>

fun carries :: "effect \<Rightarrow> (string \<times> string) \<times> string option \<Rightarrow> bool" where
  "carries (Dispatched ds) kt \<longleftrightarrow> kt = ((fst (ds_chat ds), ds_key ds), Some (ds_token ds))"
| "carries (WelcomeText k flow s key token) kt \<longleftrightarrow> kt = ((fst k, key), Some token)"
| "carries e kt \<longleftrightarrow> False"

text \<open>Every pending row is old or taken over by an effect after \<open>out\<close>.\<close>

definition settled_from :: "out_row list \<Rightarrow> effect list \<Rightarrow> world \<Rightarrow> bool" where
  "settled_from L0 out w \<longleftrightarrow> (\<exists>new. w_out w = out @ new
     \<and> pend_ok L0 {kt. \<exists>e \<in> set new. carries e kt} (w_log w))"

lemma andThen_Inr:
  "andThen a f w = (w', Inr y) \<longleftrightarrow> (\<exists>w1 x. a w = (w1, Inr x) \<and> f x w1 = (w', Inr y))"
  by (auto simp: andThen_def split: prod.splits sum.splits)

lemma settled_none: "pend_ok L0 {} (w_log w) \<Longrightarrow> w_out w = out @ new \<Longrightarrow> settled_from L0 out w"
  unfolding settled_from_def by (metis empty_subsetI pend_mono)

lemma primary_in: "cs \<noteq> [] \<Longrightarrow> primary_claim trig cs \<in> set cs"
  by (auto simp: primary_claim_def find_Some_iff split: option.split) (metis nth_mem)

text \<open>The claims that are neither relayed nor the primary one: none.\<close>

lemma rest_is_primary:
  assumes "distinct (map claim_name cs)" "\<forall>c \<in> set cs. im_connection (fst c) = conn" "prim \<in> set cs"
  shows "claimed_keys cs - claimed_keys (filter (\<lambda>(x, token). im_id x \<noteq> im_id (fst prim)) cs)
    \<subseteq> {((conn, im_id (fst prim)), Some (snd prim))}"
proof
  fix kt
  assume kt: "kt \<in> claimed_keys cs - claimed_keys (filter (\<lambda>(x, token). im_id x \<noteq> im_id (fst prim)) cs)"
  then obtain m token where c: "(m, token) \<in> set cs" "kt = ((im_connection m, im_id m), Some token)"
    by (auto simp: claimed_keys_def)
  with kt have "im_id m = im_id (fst prim)" by (force simp: claimed_keys_def)
  then have "claim_name (m, token) = claim_name prim" using assms(2, 3) c(1) by (fastforce simp: claim_name_def)
  then have "(m, token) = prim" using assms(1, 3) c(1) by (metis distinct_map inj_on_def)
  then show "kt \<in> {((conn, im_id (fst prim)), Some (snd prim))}" using c assms(2) by auto
qed

lemma hand_over_result:
  assumes run: "hand_over d ms t a cs r s res w = (w', Inr ())"
    and L: "pend_ok L0 (claimed_keys cs) (w_log w)" and cs: "cs \<noteq> []" "distinct (map claim_name cs)"
    and conn: "\<forall>c \<in> set cs. im_connection (fst c) = im_connection (hd ms)"
  shows "settled_from L0 (w_out w) w'"
proof -
  define trig where "trig = triggering ms (tn_valid t)"
  define prim where "prim = primary_claim trig cs"
  obtain w1 w2 w3 flow where
    w1: "(if dp_react d then emit (Reacted (im_key trig) (im_id trig)) else done_with ()) w = (w1, Inr ())"
    and w2: "new_workflow d (hd ms) s (im_id trig) (ar_thread res) w1 = (w2, Inr flow)"
    and w3: "relay_claims (filter (\<lambda>(x, token). im_id x \<noteq> im_id (fst prim)) cs) w2 = (w3, Inr ())"
    and w': "(if tn_greeting t then emit (WelcomeText (im_key (hd ms)) flow s (im_id (fst prim)) (snd prim))
        else start_dispatch \<lparr>ds_workflow = flow, ds_chat = im_key (hd ms), ds_shopper = s, ds_role = r,
               ds_key = im_id (fst prim), ds_token = snd prim, ds_thread = ar_thread res, ds_event = ar_event res,
               ds_pa_pacing = (r = PaRole), ds_welcome = tn_request t, ds_operator_text = as_query a\<rparr>) w3 = (w', Inr ())"
    using run unfolding hand_over_def Let_def andThen_Inr trig_def [symmetric] prim_def [symmetric] by auto
  have o1: "\<exists>x. w_out w1 = w_out w @ x" "w_log w1 = w_log w"
    using w1 by (auto simp: emit_def update_world_def done_with_def split: if_splits)
  have f2: "w_out w2 = w_out w1" "w_log w2 = w_log w1"
    using workflow_frame [of d "hd ms" s "im_id trig" "ar_thread res" w1] w2 by simp_all
  have p3: "pend_ok L0 {((im_connection (hd ms), im_id (fst prim)), Some (snd prim))} (w_log w3)" "w_out w3 = w_out w2"
    using relay_claims_result [OF w3, of L0 "claimed_keys cs"] L o1 f2
      rest_is_primary [OF cs(2) conn, of prim] primary_in [OF cs(1)] prim_def pend_mono by auto
  obtain x e where "w_out w' = w_out w @ x @ [e]" "w_log w' = w_log w3"
    "carries e = (\<lambda>kt. kt = ((im_connection (hd ms), im_id (fst prim)), Some (snd prim)))"
    using w' o1(1) f2 p3(2)
    by (cases "tn_greeting t") (auto simp: emit_def start_dispatch_def update_world_def im_key_def fun_eq_iff)
  then show ?thesis
    unfolding settled_from_def using p3(1) by (intro exI [of _ "x @ [e]"]) (auto elim!: pend_mono)
qed

lemma settle_turn_result:
  assumes run: "settle_turn d ms epoch t cs a (ShopperIdentity r s, res) w = (w', Inr ()) \<or>
      settle_turn d ms epoch t cs a (ident, res) w = (w', Inr ()) \<and> \<not> tn_shopper t \<and> \<not> tn_greeting t
        \<and> (tn_pa t \<and> \<not> as_retag a \<longrightarrow> available (im_key (hd ms)) (im_group (hd ms)) epoch w = (w, Inr False))"
    and L: "pend_ok L0 (claimed_keys cs) (w_log w)" and cs: "cs \<noteq> []" "distinct (map claim_name cs)"
    and conn: "\<forall>c \<in> set cs. im_connection (fst c) = im_connection (hd ms)"
  shows "settled_from L0 (w_out w) w'"
proof -
  have relay: "settled_from L0 (w_out w) w'" if r: "relay_claims cs w = (w', Inr ())"
    using relay_claims_result [OF r L] by (intro settled_none [of _ _ _ "[]"]) simp_all
  have av: "available k g epoch w = (w1, Inr b) \<Longrightarrow> w1 = w" for k g w1 b
    by (auto simp: available_def andThen_def read_db_def done_with_def present_of_def
        split: if_splits prod.splits sum.splits)
  show ?thesis
    using run relay hand_over_result [OF _ L cs conn]
    by (auto simp: settle_turn_def Let_def andThen_Inr done_with_def split: if_splits posting_identity.splits dest!: av)
qed

text \<open>What the assistant's turn leaves: its own identity, or the state in which it was refused.\<close>

lemma pa_turn_result:
  assumes "pa_turn d m epoch t a w = (w', Inr res)"
  shows "(\<exists>s. fst res = ShopperIdentity PaRole s) \<or>
    fst res = tn_identity t \<and> (tn_pa t \<and> \<not> as_retag a \<longrightarrow> available (im_key m) (im_group m) epoch w' = (w', Inr False))"
proof (cases "tn_pa t \<and> \<not> as_retag a")
  case True
  obtain w1 b where b: "available (im_key m) (im_group m) epoch w = (w1, Inr b)"
    using assms True by (auto simp: pa_turn_def andThen_Inr)
  then have w1: "w1 = w"
    by (auto simp: available_def andThen_def read_db_def done_with_def present_of_def
        split: if_splits prod.splits sum.splits)
  show ?thesis
    using assms True b w1
    by (cases b) (auto simp: pa_turn_def andThen_Inr Let_def done_with_def raise_def split: option.splits)
qed (use assms in \<open>auto simp: pa_turn_def done_with_def\<close>)

lemma run_turn_result:
  assumes run: "run_turn d ms epoch t cs w = (w', Inr ())"
    and L: "pend_ok L0 (claimed_keys cs) (w_log w)" and cs: "cs \<noteq> []" "distinct (map claim_name cs)"
    and conn: "\<forall>c \<in> set cs. im_connection (fst c) = im_connection (hd ms)"
    and t: "tn_shopper t \<or> tn_greeting t \<longrightarrow> is_shopper (tn_identity t)"
  shows "settled_from L0 (w_out w) w'"
proof -
  obtain w1 a where a: "ask_turn d (hd ms) t w = (w1, Inr a)"
    using run by (auto simp: run_turn_def andThen_Inr)
  have o1: "w_out w1 = w_out w" and L1: "pend_ok L0 (claimed_keys cs) (w_log w1)"
    using same_out_asks(1) [of d "hd ms" t w] pend_asks(1) [OF L, of d "hd ms" t] a by simp_all
  show ?thesis
  proof (cases "as_hold a")
    case True
    then obtain w2 where n: "notify d (im_key (hd ms)) VOICE_UNAVAILABLE_NOTICE w1 = (w2, Inr ())"
      and r: "relay_claims cs w2 = (w', Inr ())"
      using run a by (auto simp: run_turn_def andThen_Inr)
    have "w_out w2 = w_out w1 @ [Notified (im_key (hd ms)) VOICE_UNAVAILABLE_NOTICE]"
    proof -
      let ?w = "w1\<lparr>w_out := w_out w1 @ [Notified (im_key (hd ms)) VOICE_UNAVAILABLE_NOTICE]\<rparr>"
      have "fst (await d ?w) = w2"
        using n by (auto simp: notify_def andThen_def emit_def update_world_def split: prod.splits sum.splits)
      then show ?thesis using same_out_asks(3) [of d ?w] by simp
    qed
    moreover have "pend_ok L0 (claimed_keys cs) (w_log w2)"
      using keepsD [OF keeps_notify_pend L1] n by (metis fst_conv)
    ultimately show ?thesis
      using relay_claims_result [OF r, of L0 "claimed_keys cs"] o1 by (intro settled_none) auto
  next
    case False
    then obtain w2 res where r: "pa_turn d (hd ms) epoch t a w1 = (w2, Inr res)"
      and s: "settle_turn d ms epoch t cs a res w2 = (w', Inr ())"
      using run a by (auto simp: run_turn_def andThen_Inr)
    have o2: "w_out w2 = w_out w1" and L2: "pend_ok L0 (claimed_keys cs) (w_log w2)"
      using same_out_asks(2) [of d "hd ms" epoch t a w1] pend_asks(2) [OF L1, of d "hd ms" epoch t a] r by simp_all
    obtain ident ask where res: "res = (ident, ask)" by (cases res)
    show ?thesis
    proof (cases ident)
      case (ShopperIdentity r s)
      then show ?thesis
        using settle_turn_result [OF disjI1 L2 cs conn, of d epoch t a r s ask w'] s res o1 o2 by simp
    next
      case ClientIdentity
      then have "\<not> tn_shopper t \<and> \<not> tn_greeting t
          \<and> (tn_pa t \<and> \<not> as_retag a \<longrightarrow> available (im_key (hd ms)) (im_group (hd ms)) epoch w2 = (w2, Inr False))"
        using pa_turn_result [OF r] res t by auto
      then show ?thesis
        using settle_turn_result [OF disjI2 L2 cs conn, of d epoch t a ident ask w'] s res o1 o2 by simp
    qed
  qed
qed

section \<open>The recovery of a pending post\<close>

lemma keeps_recovery:
  assumes "\<And>n. dp_uuid d n \<noteq> []"
  shows "keeps (\<lambda>w. pend_ok L0 {} (w_log w)) (andThen (relay_message c g i) (\<lambda>u.
      andThen (claim_key d (c, i)) (\<lambda>r. case r of Claimed token \<Rightarrow> relay_key (c, i) token g | _ \<Rightarrow> done_with ())))"
proof (unfold keeps_def, intro allI impI)
  fix w :: world assume w: "pend_ok L0 {} (w_log w)"
  show "pend_ok L0 {} (w_log (fst (andThen (relay_message c g i) (\<lambda>u.
      andThen (claim_key d (c, i)) (\<lambda>r. case r of Claimed token \<Rightarrow> relay_key (c, i) token g | _ \<Rightarrow> done_with ())) w)))"
  proof (cases "message_key_ok (c, g, i)")
    case False
    then show ?thesis
      using w by (simp add: andThen_def relay_message_def write_db_def markMessageRelayed_def)
  next
    case True
    then obtain w1 where w1: "relay_message c g i w = (w1, Inr ())" "w_log w1 = w_log w"
      by (simp add: relay_message_def write_db_def markMessageRelayed_def)
    define token where "token = dp_uuid d (w_uuids w1)"
    define cl where "cl = claim (w_now w1) token (c, i) (w_log w1)"
    define w2 where "w2 = w1\<lparr>w_uuids := w_uuids w1 + 1, w_log := fst cl\<rparr>"
    have ck: "claim_key d (c, i) w1 = (w2, Inr (snd cl))" by (simp add: claim_key_eq w2_def cl_def token_def)
    show ?thesis
    proof (cases "snd cl = Claimed token")
      case True
      have "pend_ok L0 {((c, i), Some token)} (w_log w2)"
        using pend_claim [OF w, of "(c, i)" token "w_now w1"] w1(2) by (simp add: w2_def cl_def)
      moreover obtain rows b where r: "markRelayed (w_now w2) (c, i) token g (w_log w2) = Inr (rows, b)"
        using assms \<open>message_key_ok (c, g, i)\<close> by (simp add: markRelayed_def message_key_ok_def token_def)
      ultimately have "pend_ok L0 ({((c, i), Some token)} - {((c, i), Some token)}) rows" by (rule pend_relay)
      then have "pend_ok L0 {} rows" by simp
      then show ?thesis
        using w1 ck True r by (simp add: andThen_def relay_key_def write_db_def)
    next
      case False
      have "snd cl \<noteq> Claimed t" for t using claim_token False by (metis cl_def)
      moreover have "w_log w2 = w_log w" using claim_unclaimed False w1(2) by (simp add: w2_def cl_def)
      ultimately show ?thesis
        using w w1 ck by (cases "snd cl") (auto simp: andThen_def done_with_def)
    qed
  qed
qed

lemma keeps_retry_pend:
  assumes "\<And>n. dp_uuid d n \<noteq> []"
  shows "keeps (\<lambda>w. pend_ok L0 {} (w_log w)) (retryPending d m dest)"
  unfolding retryPending_def Let_def
  by (intro keep_intros pend.keeps_basic pend.keeps_clientReady pend.keeps_submit keeps_recovery assms TrueI)

lemma keeps_gate_pend:
  assumes "\<And>n. dp_uuid d n \<noteq> []"
  shows "keeps (\<lambda>w. pend_ok L0 {} (w_log w)) (gate d ms epoch)"
  unfolding gate_def Let_def
  by (intro keep_intros pend.keeps_basic pend.keeps_available pend.keeps_destination pend.keeps_clientReady
      keeps_retry_pend assms)

section \<open>Property\<close>

text \<open>After the claims: on an error every claim is failed, otherwise the turn settles them.\<close>

lemma work_on_settles:
  assumes L: "pend_ok L0 (claimed_keys cs) (w_log w)" and cs: "cs \<noteq> []" "distinct (map claim_name cs)"
    and conn: "\<forall>c \<in> set cs. im_connection (fst c) = im_connection (hd ms)"
  shows "settled_from L0 (w_out w) (work_on d ms epoch valid dest ident cs w)"
proof -
  obtain w1 q where q: "prepare d ms epoch valid dest ident w = (w1, q)"
    by (cases "prepare d ms epoch valid dest ident w")
  have o1: "w_out w1 = w_out w" and L1: "pend_ok L0 (claimed_keys cs) (w_log w1)"
    using same_out_asks(5) [of d ms epoch valid dest ident w] pend_asks(3) [OF L, of d ms epoch valid dest ident] q
    by simp_all
  have fail: "\<exists>w3. fail_claims cs w2 = (w3, Inr ()) \<and> pend_ok L0 {} (w_log w3) \<and> w_out w3 = w_out w2"
    if "pend_ok L0 (claimed_keys cs) (w_log w2)" for w2
    using fail_claims_result [OF that, of cs] by simp
  show ?thesis
  proof (cases q)
    case (Inl e)
    obtain w3 where "fail_claims cs w1 = (w3, Inr ())" "pend_ok L0 {} (w_log w3)" "w_out w3 = w_out w1"
      using fail [OF L1] by blast
    then show ?thesis
      using q Inl o1 by (intro settled_none [of _ _ _ "[]"]) (simp_all add: work_on_def)
  next
    case (Inr t)
    have t: "tn_shopper t \<or> tn_greeting t \<longrightarrow> is_shopper (tn_identity t)"
      using prepare_result [OF q [unfolded Inr]] by (auto simp: shopper_trigger_def list_ex_iff)
    obtain w2 r where r: "run_turn d ms epoch t cs w1 = (w2, r)" by (cases "run_turn d ms epoch t cs w1")
    show ?thesis
    proof (cases r)
      case (Inr u)
      then show ?thesis
        using run_turn_result [of d ms epoch t cs w1 w2, OF _ L1 cs conn t] r q \<open>q = Inr t\<close> o1
        by (simp add: work_on_def)
    next
      case (Inl e)
      have "pend_ok L0 (claimed_keys cs) (w_log w2)"
        using keepsD [OF keeps_run_turn_pend L1] r by (metis fst_conv)
      from fail [OF this] obtain w3 where w3: "fail_claims cs w2 = (w3, Inr ())" "pend_ok L0 {} (w_log w3)" by blast
      have "pend_ok L0 {} (w_log (fst (failure_notice t (hd ms) e w3)))"
        using w3(2) by (cases e) (auto simp: failure_notice_def emit_def update_world_def done_with_def)
      moreover have "prefix (w_out w) (w_out (work_on d ms epoch valid dest ident cs w))"
        by (rule out_grows.keeps_work) simp_all
      ultimately show ?thesis
        using q r Inl \<open>q = Inr t\<close> w3(1)
        by (auto simp: work_on_def andThen_def prefix_def intro!: settled_none)
    qed
  qed
qed

lemma batch_settles:
  assumes "\<And>n. dp_uuid d n \<noteq> []" "\<forall>m \<in> set ms. im_connection m = im_connection (hd ms)"
  shows "settled_from (w_log w) (w_out w) (processBatch d ms epoch w)"
proof (cases "ms = []")
  case True
  then show ?thesis by (auto simp: processBatch_def settled_from_def pend_ok_def)
next
  case False
  obtain w1 g where g: "gate d ms epoch w = (w1, g)" by (cases "gate d ms epoch w")
  have "pend_ok (w_log w) {} (w_log w)" by (simp add: pend_ok_def)
  from keepsD [OF keeps_gate_pend [OF assms(1)] this] have L1: "pend_ok (w_log w) {} (w_log w1)" by (metis g fst_conv)
  have o1: "w_out w1 = w_out w" using same_out_asks(4) [of d ms epoch w] g by simp
  have early: ?thesis if "processBatch d ms epoch w = w1"
    using that L1 o1 by (intro settled_none [of _ _ _ "[]"]) simp_all
  show ?thesis
  proof (cases "\<exists>valid dest ident. g = Inr (Some (valid, dest, ident))")
    case True
    then obtain valid dest ident where v: "g = Inr (Some (valid, dest, ident))" by blast
    have sub: "set valid \<subseteq> set ms"
      using g v by (auto simp: gate_def Let_def andThen_Inr done_with_def split: if_splits option.splits)
    obtain w2 c where c: "claim_all d valid w1 = (w2, c)" by (cases "claim_all d valid w1")
    from claim_all_result [OF c L1] obtain cs where cs: "c = Inr cs"
      "pend_ok (w_log w) (claimed_keys cs) (w_log w2)" "w_out w2 = w_out w1" "distinct (map claim_name cs)"
      "\<forall>c \<in> set cs. fst c \<in> set valid" by auto
    have "\<forall>c \<in> set cs. im_connection (fst c) = im_connection (hd ms)" using cs(5) sub assms(2) by blast
    then show ?thesis
      using False g v c cs o1 work_on_settles [OF cs(2) _ cs(4)]
      by (auto simp: processBatch_def claimed_keys_def intro: settled_none [of _ _ _ "[]"])
  next
    case False
    then show ?thesis
      using early g \<open>ms \<noteq> []\<close> by (auto simp: processBatch_def split: sum.splits option.splits)
  qed
qed

text \<open>C2: Handling a burst of one connection leaves no claim behind: whatever throws and whenever, a
  pending row of the outbound log is one that was there before, or the dispatch or the welcome text
  that the handler started holds its key and token.\<close>

theorem claims_are_settled:
  assumes "\<And>n. dp_uuid d n \<noteq> []" "\<forall>m \<in> set ms. im_connection m = im_connection (hd ms)"
  shows "\<exists>new. w_out (processBatch d ms epoch w) = w_out w @ new
    \<and> (\<forall>r \<in> set (w_log (processBatch d ms epoch w)). ol_status r = Pending \<longrightarrow>
         r \<in> set (w_log w) \<or> (\<exists>e \<in> set new. carries e (row_key r, ol_token r)))"
  using batch_settles [OF assms, of w epoch] by (auto simp: settled_from_def pend_ok_def)

theorem claims_are_settled_witness:
  "\<exists>new. w_out (processBatch quiet_deps [group_message] 0 empty_world) = w_out empty_world @ new
     \<and> list_all (\<lambda>r. if ol_status r = Pending then list_ex (\<lambda>e. carries e (row_key r, ol_token r)) new else True)
          (w_log (processBatch quiet_deps [group_message] 0 empty_world))"
proof -
  have "w_log empty_world = []" by (simp add: empty_world_def)
  then show ?thesis
    using claims_are_settled [of quiet_deps "[group_message]" 0 empty_world]
    by (auto simp: quiet_deps_def list_all_iff list_ex_iff)
qed

end
