(* ===== verification/Delivery.thy ===== *)
theory Delivery
  imports Settling
begin

text \<open>
  More promises of the inbound router: the media ladder is bounded and never posts a media turn
  without its files, a redelivered message is not posted again, and the message of a registered
  operator gets its one answer.
\<close>

section \<open>The number of asks\<close>

definition asks_at_most :: "nat \<Rightarrow> 'a act \<Rightarrow> bool" where
  "asks_at_most n a \<longleftrightarrow> (\<forall>w. length (w_asks (fst (a w))) \<le> length (w_asks w) + n)"

lemma at_most_mono: "asks_at_most n a \<Longrightarrow> n \<le> k \<Longrightarrow> asks_at_most k a"
  by (auto simp: asks_at_most_def intro: le_trans)

lemma at_most_cases:
  assumes "asks_at_most n a" "a w = (w1, r)" "fst (g w) = fst (b w1) \<and> asks_at_most k b \<or> fst (g w) = w1"
  shows "length (w_asks (fst (g w))) \<le> length (w_asks w) + (n + k)"
proof -
  have n: "length (w_asks w1) \<le> length (w_asks w) + n" using assms(1, 2) by (metis asks_at_most_def fst_conv)
  moreover have "length (w_asks (fst (b w1))) \<le> length (w_asks w1) + k" if "asks_at_most k b"
    using that by (simp add: asks_at_most_def)
  ultimately show ?thesis using assms(3) by (elim disjE) (simp_all add: le_diff_conv)
qed

lemma at_most_andThen:
  assumes "asks_at_most n a" "\<And>x. asks_at_most k (f x)"
  shows "asks_at_most (n + k) (andThen a f)"
  unfolding asks_at_most_def
proof
  fix w
  obtain w1 r where a: "a w = (w1, r)" by (cases "a w")
  show "length (w_asks (fst (andThen a f w))) \<le> length (w_asks w) + (n + k)"
    by (rule at_most_cases [OF assms(1) a, where b = "f (projr r)"])
      (use a assms(2) in \<open>cases r; simp add: andThen_def\<close>)
qed

lemma at_most_orElse:
  assumes "asks_at_most n a" "\<And>x. asks_at_most k (h x)"
  shows "asks_at_most (n + k) (orElse a h)"
  unfolding asks_at_most_def
proof
  fix w
  obtain w1 r where a: "a w = (w1, r)" by (cases "a w")
  show "length (w_asks (fst (orElse a h w))) \<le> length (w_asks w) + (n + k)"
    by (rule at_most_cases [OF assms(1) a, where b = "h (projl r)"])
      (use a assms(2) in \<open>cases r; simp add: orElse_def\<close>)
qed

lemma at_most_if: "asks_at_most n a \<Longrightarrow> asks_at_most n b \<Longrightarrow> asks_at_most n (if c then a else b)"
  by simp

interpretation same_asks: ask_only "\<lambda>w. w_asks w = A" "\<lambda>c. False" for A
  by unfold_locales auto

lemma at_most_none: "(\<And>A. keeps (\<lambda>w. w_asks w = A) a) \<Longrightarrow> asks_at_most n a"
  by (simp add: asks_at_most_def keeps_def)

lemma at_most_quiet:
  "asks_at_most n (raise e)" "asks_at_most n (done_with x)" "asks_at_most n (put_pending d k post)" "asks_at_most n (await d)"
  "asks_at_most n (remember m dest a)" "asks_at_most n (bot_of k)"
  by (rule at_most_none, intro keep_intros same_asks.keeps_basic same_asks.keeps_remember)+

lemma at_most_ask: "asks_at_most 1 (askAgent d c)"
proof -
  have "w_asks (fst (andThen (await d) (\<lambda>u. done_with x) w)) = w_asks w" for x :: ask_outcome and w
    by (rule keepsD [OF keeps_andThen [OF same_asks.keeps_await keeps_done]]) simp
  then show ?thesis by (simp add: asks_at_most_def askAgent_def)
qed

lemma at_most_submit: "asks_at_most 1 (submit d m dest ident query mode files rf mid voice)"
proof -
  have "asks_at_most 0 (case out of Answered a \<Rightarrow> andThen (remember m dest a) (\<lambda>u. done_with a)
       | Refused st a \<Rightarrow>
           andThen (remember m dest a) (\<lambda>u.
           andThen (if rf then put_pending d (im_key m) (Some \<lparr>pp_identity = ident, pp_query = query, pp_message_id = mid\<rparr>)
                    else done_with ()) (\<lambda>u. raise (SubmissionFailed st a)))
       | AskBroke \<Rightarrow> raise Raised)" for out
    by (cases out)
      (auto intro!: at_most_none keep_intros same_asks.keeps_remember same_asks.keeps_put_pending)
  from at_most_andThen [OF at_most_quiet(6) [of 0] at_most_andThen [OF at_most_ask this]]
  show ?thesis by (simp add: submit_def)
qed

lemma at_most_one_by_one: "asks_at_most (length files) (submitFilesOneByOne d m dest ident query mode rf mid voice files)"
proof (induction files rule: induct_list012)
  case (3 f g fs)
  have "asks_at_most (1 + 0) (orElse (submit d m dest ident (uploadRelayQuery f) ForceSkip [f] False mid False) (\<lambda>e.
      andThen (if rf then put_pending d (im_key m) (Some \<lparr>pp_identity = ident, pp_query = query, pp_message_id = mid\<rparr>)
               else done_with ()) (\<lambda>u. raise e)))"
    by (intro at_most_orElse at_most_submit at_most_none keep_intros same_asks.keeps_put_pending)
  from at_most_andThen [OF this at_most_andThen [OF at_most_quiet(3) [of 0] 3(2)]]
  show ?case by simp
qed (simp_all add: at_most_quiet at_most_submit [simplified])

lemma at_most_turn: "asks_at_most (1 + length files) (submitTurn d m dest ident query mode files rf mid voice)"
proof -
  have s: "asks_at_most (length files) (andThen (submitFilesOneByOne d m dest ident query mode rf mid voice files) (\<lambda>a.
      andThen (put_pending d (im_key m) None) (\<lambda>u. done_with a)))"
    using at_most_andThen [OF at_most_one_by_one at_most_andThen [OF at_most_quiet(3) [of 0] at_most_quiet(2) [of 0]]]
    by simp
  show ?thesis
    unfolding submitTurn_def
    by (intro at_most_if at_most_orElse at_most_submit s at_most_quiet)
      (rule at_most_mono [OF at_most_one_by_one], simp)
qed

lemma at_most_ladder:
  "asks_at_most (3 * (1 + length files)) (submitMediaAsk d m dest ident query mode files voice)"
proof -
  define staged where "staged = stagePromptQlFiles (dp_codec d) files STAGED_UPLOAD_BUDGET_BYTES"
  define n where "n = 1 + length files"
  have l: "length staged = length files" unfolding staged_def by (rule list_all2_lengthD [OF staging_files, symmetric])
  have t: "asks_at_most n (submitTurn d m dest ident query mode fs True mid voice)" if "length fs = length files" for fs mid
    using at_most_turn [of fs] that by (simp add: n_def)
  have s: "asks_at_most n (andThen (submitTurn d m dest ident query mode fs True mid voice) (\<lambda>a.
      andThen (put_pending d (im_key m) None) (\<lambda>u. done_with a)))" if "length fs = length files" for fs mid
    using at_most_andThen [OF t [OF that] at_most_andThen [OF at_most_quiet(3) [of 0] at_most_quiet(2) [of 0]]]
    by simp
  have a: "asks_at_most k b \<Longrightarrow> asks_at_most k (andThen (await d) (\<lambda>u. b))" for k b
    using at_most_andThen [OF at_most_quiet(4) [of 0]] by simp
  have "asks_at_most (n + (n + n)) (submitMediaAsk d m dest ident query mode files voice)"
    unfolding submitMediaAsk_def Let_def staged_def [symmetric]
    by (intro at_most_if at_most_orElse t s a at_most_quiet l) (simp add: l)
  then show ?thesis by (simp add: n_def numeral_3_eq_3 algebra_simps)
qed

section \<open>Redelivery\<close>

text \<open>The chat has no post waiting for recovery and these keys are already sent.\<close>

definition no_pending :: "string \<times> string \<Rightarrow> chat_db \<Rightarrow> bool" where
  "no_pending k db \<longleftrightarrow> (\<forall>b \<in> set (cd_bots db). cb_key b = k \<longrightarrow> cb_pending b = None)"

lemma no_pending_membership: "no_pending k db \<Longrightarrow> setMembership now j present by db = Inr db' \<Longrightarrow> no_pending k db'"
  by (auto simp: no_pending_def setMembership_def set_sql_update split: if_splits)

lemma no_pending_happen: "no_pending k (w_chat w) \<Longrightarrow> no_pending k (w_chat (happen w e))"
  by (cases e) (auto simp: onSelfMembership_def bump_def Let_def split: sum.split elim: no_pending_membership)

interpretation idle: quiet_observer "\<lambda>w. w_asks w = A \<and> w_log w = L \<and> no_pending k (w_chat w)" for A L k
  by unfold_locales (auto simp: happen_view no_pending_happen)

lemma no_pending_read: "no_pending k (w_chat w) \<Longrightarrow> pending_of d k w = (w, Inr None) \<or> pending_of d k w = (w, Inl Raised)"
proof -
  assume n: "no_pending k (w_chat w)"
  have "Option.bind (bot_row k (w_chat w)) cb_pending = None"
    using n by (cases "bot_row k (w_chat w)") (auto simp: bot_row_def no_pending_def dest!: sql_get_Some)
  then show ?thesis by (simp add: pending_of_def read_db_def pendingPost_def)
qed

lemma retry_idle:
  "no_pending (im_key m) (w_chat w) \<Longrightarrow> fst (retryPending d m dest w) = w"
  using no_pending_read [of "im_key m" w d] by (auto simp: retryPending_def Let_def andThen_def done_with_def)

lemma keeps_gate_idle:
  "keeps (\<lambda>w. w_asks w = A \<and> w_log w = L \<and> no_pending (im_key (hd ms)) (w_chat w)) (gate d ms epoch)"
proof -
  have "keeps (\<lambda>w. w_asks w = A \<and> w_log w = L \<and> no_pending (im_key (hd ms)) (w_chat w)) (retryPending d (hd ms) dest)" for dest
    using retry_idle by (simp add: keeps_def)
  then show ?thesis
    unfolding gate_def Let_def
    by (intro keep_intros idle.quiet_basic idle.keeps_available idle.keeps_destination idle.keeps_clientReady)
qed

lemma claim_all_sent:
  assumes "\<forall>m \<in> set ms. \<exists>r. out_get (im_connection m, im_id m) (w_log w) = Some r \<and> ol_status r = Sent"
  shows "\<exists>w'. claim_all d ms w = (w', Inr []) \<and> w_asks w' = w_asks w \<and> w_log w' = w_log w"
  using assms
proof (induction ms arbitrary: w)
  case (Cons m ms)
  let ?k = "(im_connection m, im_id m)"
  obtain r where "out_get ?k (w_log w) = Some r" "ol_status r = Sent" using Cons.prems by auto
  then have c: "claim now token ?k (w_log w) = (w_log w, AlreadySent (ol_ref r))" for now token
    by (simp add: claim_def)
  let ?w = "w\<lparr>w_uuids := w_uuids w + 1, w_log := w_log w\<rparr>"
  have "\<exists>w'. claim_all d ms ?w = (w', Inr []) \<and> w_asks w' = w_asks w \<and> w_log w' = w_log w"
    using Cons.IH [of ?w] Cons.prems by simp
  then show ?case by (auto simp: andThen_def claim_key_eq c done_with_def)
qed (simp add: done_with_def)

section \<open>Properties\<close>

text \<open>C27: The upload ladder for a turn with media ends after at most three rungs, each of one ask for
  the whole turn and one per file, and never posts without a file: there is no text-only stand-in.\<close>

theorem media_ladder_is_bounded:
  assumes "files \<noteq> []"
  shows "\<exists>new. w_asks (fst (submitMediaAsk d m dest ident query mode files voice w)) = w_asks w @ new
    \<and> length new \<le> 3 * (1 + length files) \<and> list_all (\<lambda>c. ak_files c \<noteq> []) new"
proof -
  let ?p = "\<lambda>w'. \<exists>new. w_asks w' = w_asks w @ new \<and> list_all (\<lambda>c. ak_files c \<noteq> []) new"
  have s: "stagePromptQlFiles (dp_codec d) files n \<noteq> []" for n
    using staging_files [of files "dp_codec d" n] assms by auto
  have t: "keeps ?p (submitTurn d m dest ident query mode fs rf mid voice)" if "fs \<noteq> []" for fs rf mid
    using that by (intro new_asks.keeps_turn) (simp_all add: ask_of_def)
  have "keeps ?p (submitMediaAsk d m dest ident query mode files voice)"
    unfolding submitMediaAsk_def Let_def
    by (intro keep_intros new_asks.keeps_basic t) (simp_all add: s)
  from keepsD [OF this, of w] obtain new where
    "w_asks (fst (submitMediaAsk d m dest ident query mode files voice w)) = w_asks w @ new"
    "list_all (\<lambda>c. ak_files c \<noteq> []) new" by auto
  moreover have "length (w_asks (fst (submitMediaAsk d m dest ident query mode files voice w)))
      \<le> length (w_asks w) + 3 * (1 + length files)"
    using at_most_ladder by (simp only: asks_at_most_def)
  ultimately show ?thesis by auto
qed

text \<open>C24: A burst whose messages are all marked sent in the outbound log, in a chat without a post to
  recover, makes no ask and leaves the log as it is: redelivery does not post again.\<close>

theorem redelivery_makes_no_ask:
  assumes "\<forall>m \<in> set ms. promptQlQuery m \<noteq> None \<longrightarrow>
      (\<exists>r. out_get (im_connection m, im_id m) (w_log w) = Some r \<and> ol_status r = Sent)"
    and "no_pending (im_key (hd ms)) (w_chat w)"
  shows "w_asks (processBatch d ms epoch w) = w_asks w \<and> w_log (processBatch d ms epoch w) = w_log w"
proof (cases "ms = []")
  case False
  obtain w1 g where g: "gate d ms epoch w = (w1, g)" by (cases "gate d ms epoch w")
  have w1: "w_asks w1 = w_asks w" "w_log w1 = w_log w"
    using keepsD [OF keeps_gate_idle, of w "w_asks w" "w_log w" ms d epoch] assms(2) g by auto
  show ?thesis
  proof (cases "\<exists>valid dest ident. g = Inr (Some (valid, dest, ident))")
    case True
    then obtain valid dest ident where v: "g = Inr (Some (valid, dest, ident))" by blast
    have "valid = filter (\<lambda>m. promptQlQuery m \<noteq> None) ms"
      using g v by (auto simp: gate_def Let_def andThen_Inr done_with_def split: if_splits option.splits)
    then obtain w2 where "claim_all d valid w1 = (w2, Inr [])" "w_asks w2 = w_asks w" "w_log w2 = w_log w"
      using claim_all_sent [of valid w1 d] assms(1) w1 by auto
    then show ?thesis using False g v by (simp add: processBatch_def)
  next
    case no: False
    then show ?thesis using False g w1 by (auto simp: processBatch_def split: sum.splits option.splits)
  qed
qed (simp add: processBatch_def)

section \<open>The answer to an operator\<close>

text \<open>A text of an operator in a new direct chat, and an environment in which nothing else happens.\<close>

definition operator_text_message :: "inbound \<Rightarrow> shopper \<Rightarrow> world \<Rightarrow> bool" where
  "operator_text_message m s w \<longleftrightarrow>
     \<not> im_group m \<and> \<not> im_fromMe m \<and> nonblank (im_text m) \<and> im_type m \<noteq> ''audio'' \<and> im_media m = None
     \<and> im_connection m \<noteq> [] \<and> im_chat m \<noteq> [] \<and> im_id m \<noteq> []
     \<and> registered (w_identity w) (im_phone m) = Some s \<and> sh_room s \<noteq> [] \<and> sh_id s \<noteq> []
     \<and> bot_row (im_key m) (w_chat w) = None \<and> w_flight w (im_key m) = None
     \<and> out_get (im_connection m, im_id m) (w_log w) = None"

definition calm :: "deps \<Rightarrow> world \<Rightarrow> bool" where
  "calm d w \<longleftrightarrow> dp_during d = (\<lambda>n. []) \<and> \<not> dp_welcome d \<and> \<not> dp_react d
     \<and> (\<forall>n. \<forall>r \<in> set (w_flows w). dp_uuid d n \<noteq> wf_id r)"

lemma await_calm: "dp_during d = (\<lambda>n. []) \<Longrightarrow>
    await d w = (w\<lparr>w_awaits := w_awaits w + 1, w_now := w_now w + dp_pause d (w_awaits w)\<rparr>, Inr ())"
  by (simp add: await_def Let_def)

definition operator_dest :: "shopper \<Rightarrow> destination" where
  "operator_dest s = \<lparr>dt_owner = Some s, dt_ownerId = Some (sh_id s), dt_room = sh_room s, dt_qualified = False\<rparr>"

definition operator_turn :: "inbound \<Rightarrow> shopper \<Rightarrow> turn" where
  "operator_turn m s = \<lparr>tn_valid = [m], tn_dest = operator_dest s, tn_identity = ShopperIdentity ShopperRole (sh_id s),
     tn_query = im_text m, tn_files = [], tn_shopper = True, tn_pa = False, tn_greeting = False, tn_request = False,
     tn_media = False, tn_mode = ForceRespond\<rparr>"

lemma operator_turn_sel [simp]:
  "tn_valid (operator_turn m s) = [m]" "tn_dest (operator_turn m s) = operator_dest s"
  "tn_identity (operator_turn m s) = ShopperIdentity ShopperRole (sh_id s)" "tn_query (operator_turn m s) = im_text m"
  "tn_files (operator_turn m s) = []" "tn_mode (operator_turn m s) = ForceRespond" "\<not> tn_pa (operator_turn m s)"
  "tn_shopper (operator_turn m s)" "\<not> tn_greeting (operator_turn m s)"
  by (simp_all add: operator_turn_def)

lemma gate_operator:
  assumes "operator_text_message m s w"
  shows "gate d [m] epoch w = (w, Inr (Some ([m], operator_dest s, ShopperIdentity ShopperRole (sh_id s))))"
  using assms
  by (simp add: operator_text_message_def gate_def Let_def andThen_def done_with_def available_def promptQlQuery_def
      destination_def bot_of_def read_db_def getBot_def im_key_def key_ok_def registry_def settle_destination_def
      fixed_bot_def posting_as_def retryPending_def pending_of_def pendingPost_def operator_dest_def)

lemma prepare_operator:
  assumes "operator_text_message m s w" "calm d w'"
  shows "prepare d [m] epoch [m] (operator_dest s) (ShopperIdentity ShopperRole (sh_id s)) w'
    = (w', Inr (operator_turn m s))"
  using assms
  by (simp add: operator_text_message_def calm_def prepare_def Let_def andThen_def done_with_def available_def read_db_def
      turn_query_def promptQlQuery_def collect_files_def first_operator_dm_def shopper_trigger_def pa_trigger_def
      operator_turn_def)

lemma ground_operator:
  assumes "operator_text_message m s w" "calm d w'"
  shows "ground d [m] [] (im_text m) w'
    = (fst (await d w'), Inr \<lparr>vt_query = im_text m, vt_files = [], vt_voice = False, vt_ready = False, vt_only = False\<rparr>)"
  using assms
  by (simp add: operator_text_message_def calm_def ground_def andThen_def done_with_def await_calm groundVoiceTurn_def Let_def
      take_file_def ground_message_def isAudioMessage_def is_audio_mime_def mime_base_def before_char_def trim_def trim_start_def
      trim_end_def lowercase_def starts_with_def)

text \<open>The one ask, answered.\<close>

lemma submit_operator:
  assumes m: "operator_text_message m s w" and d: "calm d w'" and k: "bot_row (im_key m) (w_chat w') = None"
    and a: "\<And>n c. dp_ask d n c = Answered ans" "ar_thread ans \<noteq> []"
  shows "\<exists>w''. submitMediaAsk d m (operator_dest s) ident q mode [] voice w' = (w'', Inr ans)
    \<and> w_asks w'' = w_asks w' @ [ask_of d m (operator_dest s) None ident q mode [] voice]
    \<and> w_out w'' = w_out w' \<and> w_flows w'' = w_flows w' \<and> w_log w'' = w_log w'"
proof -
  let ?c = "ask_of d m (operator_dest s) None ident q mode [] voice"
  define w2 where "w2 = w'\<lparr>w_asks := w_asks w' @ [?c], w_awaits := w_awaits w' + 1, w_now := w_now w' + dp_pause d (w_awaits w')\<rparr>"
  have ask: "askAgent d ?c w' = (w2, Inr (Answered ans))"
    using d a(1) by (simp add: askAgent_def andThen_def done_with_def await_calm calm_def w2_def)
  have bot: "bot_of (im_key m) w' = (w', Inr None)"
    using m k by (simp add: bot_of_def read_db_def getBot_def key_ok_def im_key_def operator_text_message_def)
  obtain db b where up: "upsertBot (w_now w2) (im_key m) (Some (sh_id s)) (ar_thread ans) (Some (sh_room s)) None (w_chat w2)
      = Inr (db, b)"
    using m a(2) by (auto simp: upsertBot_def Let_def key_ok_def im_key_def operator_text_message_def)
  have rem: "remember m (operator_dest s) ans w2 = (w2\<lparr>w_chat := db\<rparr>, Inr ())"
    using m up by (simp add: remember_def andThen_def done_with_def write_db_def operator_dest_def operator_text_message_def)
  have sub: "submit d m (operator_dest s) ident q mode [] rf mid voice w' = (w2\<lparr>w_chat := db\<rparr>, Inr ans)" for rf mid
    by (simp add: submit_def andThen_def bot ask rem done_with_def)
  have "submitMediaAsk d m (operator_dest s) ident q mode [] voice w' = (w2\<lparr>w_chat := db\<rparr>, Inr ans)"
    by (simp add: submitMediaAsk_def Let_def stagePromptQlFiles_def submitTurn_def orElse_def sub)
  then show ?thesis by (simp add: w2_def)
qed

text \<open>The hand-over of a turn with one claim.\<close>

lemma hand_over_operator:
  assumes d: "calm d w'" and t: "t = operator_turn m s"
  shows "\<exists>w'' ds. hand_over d [m] t a [(m, token)] r shopper res w' = (w'', Inr ())
    \<and> w_asks w'' = w_asks w' \<and> w_out w'' = w_out w' @ [Dispatched ds]
    \<and> ds_thread ds = ar_thread res \<and> ds_key ds = im_id m \<and> ds_chat ds = im_key m \<and> ds_shopper ds = shopper"
proof -
  have "im_id (triggering [m] [m]) = im_id m" "primary_claim (triggering [m] [m]) [(m, token)] = (m, token)"
    by (simp_all add: triggering_def primary_claim_def)
  moreover obtain rows where "createWorkflow (w_now w') (dp_uuid d (w_uuids w')) (im_connection m) (im_chat m) shopper (im_id m)
      (Some (ar_thread res)) (w_flows w') = Inr rows"
  proof -
    have "\<not> (\<exists>r \<in> set (w_flows w'). wf_id r = dp_uuid d (w_uuids w'))" using d by (metis calm_def)
    then show thesis using that by (simp add: createWorkflow_def Let_def sql_insert_def list_ex_iff)
  qed
  ultimately show ?thesis
    using d t
    by (simp add: hand_over_def Let_def andThen_def done_with_def calm_def new_workflow_def fresh_def
        write_db_def relay_claims_def start_dispatch_def update_world_def)
qed


definition operator_shopper :: shopper where
  "operator_shopper = \<lparr>sh_id = ''s'', sh_name = ''Ann'', sh_phone = ''+39123456'', sh_room = ''room'', sh_status = Enabled,
     sh_created = 0, sh_updated = 0\<rparr>"

definition operator_world :: world where
  "operator_world = empty_world\<lparr>w_identity := \<lparr>id_shoppers = [operator_shopper], id_mappings = [], id_credentials = []\<rparr>\<rparr>"

definition operator_message :: inbound where
  "operator_message = group_message\<lparr>im_chat := ''39123456@s.whatsapp.net'', im_phone := Some ''+39123456'', im_group := False\<rparr>"

lemma nonblank_hi: "nonblank ''hi''"
  by (simp add: nonblank_def trim_def trim_start_def trim_end_def is_ws_def)


theorem media_ladder_is_bounded_witness:
  "\<exists>new. w_asks (fst (submitMediaAsk quiet_deps operator_message (operator_dest operator_shopper) ClientIdentity ''x''
        ForceSkip [\<lparr>af_name = ''a'', af_mime = ''image/png'', af_bytes = [1]\<rparr>] False empty_world)) = new
     \<and> length new \<le> 6"
  using media_ladder_is_bounded [of "[\<lparr>af_name = ''a'', af_mime = ''image/png'', af_bytes = [1]\<rparr>]" quiet_deps operator_message
      "operator_dest operator_shopper" ClientIdentity "''x''" ForceSkip False empty_world]
  by (auto simp: empty_world_def)

theorem redelivery_makes_no_ask_witness:
  "w_asks (processBatch quiet_deps [operator_message] 0 (operator_world\<lparr>w_log :=
     [\<lparr>ol_connection = ''c'', ol_key = ''m'', ol_chat = None, ol_ref = None, ol_status = Sent, ol_token = None,
       ol_created = 0, ol_updated = 0\<rparr>]\<rparr>)) = []"
  using redelivery_makes_no_ask [of "[operator_message]" "operator_world\<lparr>w_log :=
     [\<lparr>ol_connection = ''c'', ol_key = ''m'', ol_chat = None, ol_ref = None, ol_status = Sent, ol_token = None,
       ol_created = 0, ol_updated = 0\<rparr>]\<rparr>" quiet_deps 0]
  by (simp add: operator_message_def group_message_def operator_world_def empty_world_def no_pending_def out_get_def
      sql_get_Cons row_key_def)

end
