(* ===== verification/Bursts.thy ===== *)
theory Bursts
  imports Delivery
begin

text \<open>
  The queues of \<open>src/routing/inboundRouter.ts\<close>: a buffer per sender that collects a burst until it is
  quiet, and a chain per chat on which batches run one after the other. The event loop is a
  sequence of events; a job of a chain starts only when the one before it has settled, however it
  settled. The keys are the arrays that the code prints as JSON, which is one-to-one.
\<close>

section \<open>State\<close>

type_synonym chat_key = "string \<times> string"
datatype buf_key = BufKey string string string

datatype job =
    EchoJob inbound nat
  | BatchJob "inbound list" nat
  | HistoryJob chat_key nat

record buffer =
  bf_items :: "(inbound \<times> nat) list"
  bf_due :: time

text \<open>The last two fields are the messages accepted and the batches run so far.\<close>

record system =
  sy_world :: world
  sy_buffers :: "buf_key \<Rightarrow> buffer option"
  sy_chain :: "chat_key \<Rightarrow> job list"
  sy_running :: "chat_key \<Rightarrow> bool"
  sy_accepted :: "inbound list"
  sy_finished :: "job list"

record burst_config =
  bc_debounce :: nat
  bc_media :: nat

section \<open>Operations\<close>

definition senderBufferKey :: "inbound \<Rightarrow> buf_key" where
  "senderBufferKey m =
     BufKey (im_connection m) (im_chat m)
       (if isGroupJid (im_chat m) then (case im_phone m of Some p \<Rightarrow> p | None \<Rightarrow> im_sender m) else im_chat m)"

definition burstQuietMs :: "burst_config \<Rightarrow> buffer option \<Rightarrow> string \<Rightarrow> nat" where
  "burstQuietMs c buf msgType =
     (if msgType = ''image'' \<or> (\<exists>b \<in> set_option buf. list_ex (\<lambda>i. im_type (fst i) = ''image'') (bf_items b))
      then max (bc_debounce c) (bc_media c) else bc_debounce c)"

definition epoch_of :: "chat_key \<Rightarrow> system \<Rightarrow> nat" where
  "epoch_of k s = w_epochs (sy_world s) k"

definition push_job :: "chat_key \<Rightarrow> job \<Rightarrow> system \<Rightarrow> system" where
  "push_job k j s = s\<lparr>sy_chain := (sy_chain s)(k := sy_chain s k @ [j])\<rparr>"

definition is_echo :: "inbound \<Rightarrow> system \<Rightarrow> db_error + bool" where
  "is_echo m s =
     (if im_fromMe m
      then isGatewayMessage (im_connection m) (im_chat m) (im_id m) (w_log (sy_world s)) else Inr False)"

text \<open>\<open>touchBurst\<close>: only the quiet window of an existing buffer restarts.\<close>

definition touchBurst :: "burst_config \<Rightarrow> inbound \<Rightarrow> system \<Rightarrow> system \<times> (db_error + bool)" where
  "touchBurst c m s =
     (case is_echo m s of
        Inl e \<Rightarrow> (s, Inl e)
      | Inr True \<Rightarrow> (s, Inr False)
      | Inr False \<Rightarrow>
          (let k = senderBufferKey m in
           case sy_buffers s k of
             None \<Rightarrow> (s, Inr False)
           | Some b \<Rightarrow>
               let quiet = burstQuietMs c (Some b) ''image'' in
               if quiet = 0 then (s, Inr False)
               else (s\<lparr>sy_buffers := (sy_buffers s)(k \<mapsto> b\<lparr>bf_due := w_now (sy_world s) + quiet\<rparr>)\<rparr>, Inr True)))"

definition handle :: "burst_config \<Rightarrow> inbound \<Rightarrow> system \<Rightarrow> system" where
  "handle c m s =
     (let k = im_key m; epoch = epoch_of k s in
      case is_echo m s of
        Inl e \<Rightarrow> s
      | Inr True \<Rightarrow> push_job k (EchoJob m epoch) s
      | Inr False \<Rightarrow>
          (let b = senderBufferKey m; quiet = burstQuietMs c (sy_buffers s b) (im_type m);
               s' = s\<lparr>sy_accepted := sy_accepted s @ [m]\<rparr>
           in if quiet = 0 then push_job k (BatchJob [m] epoch) s'
              else
                (case sy_buffers s b of
                   None \<Rightarrow> s'\<lparr>sy_buffers := (sy_buffers s)(b \<mapsto>
                       \<lparr>bf_items = [(m, epoch)], bf_due = w_now (sy_world s) + quiet\<rparr>)\<rparr>
                 | Some buf \<Rightarrow>
                     let buf' = buf\<lparr>bf_items := bf_items buf @ [(m, epoch)]\<rparr> in
                     s'\<lparr>sy_buffers := (sy_buffers s)(b \<mapsto> buf'\<lparr>bf_due := w_now (sy_world s)
                       + burstQuietMs c (Some buf') (im_type m)\<rparr>)\<rparr>)))"

definition flushBuffer :: "buf_key \<Rightarrow> system \<Rightarrow> system" where
  "flushBuffer b s =
     (case sy_buffers s b of
        None \<Rightarrow> s
      | Some buf \<Rightarrow>
          if bf_due buf \<le> w_now (sy_world s) then
            push_job (im_key (fst (hd (bf_items buf))))
              (BatchJob (map fst (bf_items buf)) (snd (last (bf_items buf))))
              (s\<lparr>sy_buffers := (sy_buffers s)(b := None)\<rparr>)
          else s)"

definition history_event :: "chat_key \<Rightarrow> system \<Rightarrow> system" where
  "history_event k s =
     (if membership_schema \<lparr>me_connection = fst k, me_group = snd k, me_added_by = None\<rparr>
      then push_job k (HistoryJob k (epoch_of k s)) s else s)"

section \<open>The event loop\<close>

datatype event =
    Arrives inbound
  | Downloading inbound
  | QuietEnds buf_key
  | HistoryArrives chat_key
  | Outside outside
  | Passes nat
  | Starts chat_key
  | Settles chat_key

definition run_job :: "deps \<Rightarrow> job \<Rightarrow> world \<Rightarrow> world" where
  "run_job d j w =
     (case j of
        EchoJob m epoch \<Rightarrow> processBatch d [m] epoch w
      | BatchJob ms epoch \<Rightarrow> processBatch d ms epoch w
      | HistoryJob k epoch \<Rightarrow> fst (onHistoryBatch d k epoch w))"

fun sys_step :: "deps \<Rightarrow> burst_config \<Rightarrow> system \<Rightarrow> event \<Rightarrow> system" where
  "sys_step d c s (Arrives m) = handle c m s"
| "sys_step d c s (Downloading m) = fst (touchBurst c m s)"
| "sys_step d c s (QuietEnds b) = flushBuffer b s"
| "sys_step d c s (HistoryArrives k) = history_event k s"
| "sys_step d c s (Outside e) = s\<lparr>sy_world := happen (sy_world s) e\<rparr>"
| "sys_step d c s (Passes n) = s\<lparr>sy_world := (sy_world s)\<lparr>w_now := w_now (sy_world s) + n\<rparr>\<rparr>"
| "sys_step d c s (Starts k) =
     (if sy_chain s k \<noteq> [] \<and> \<not> sy_running s k then s\<lparr>sy_running := (sy_running s)(k := True)\<rparr> else s)"
| "sys_step d c s (Settles k) =
     (if sy_running s k then
        (case sy_chain s k of
           [] \<Rightarrow> s
         | j # js \<Rightarrow> s\<lparr>sy_world := run_job d j (sy_world s), sy_chain := (sy_chain s)(k := js),
             sy_running := (sy_running s)(k := False), sy_finished := sy_finished s @ [j]\<rparr>)
      else s)"

definition start_system :: "world \<Rightarrow> system" where
  "start_system w = \<lparr>sy_world = w, sy_buffers = (\<lambda>b. None), sy_chain = (\<lambda>k. []), sy_running = (\<lambda>k. False),
     sy_accepted = [], sy_finished = []\<rparr>"

section \<open>What the queues keep\<close>

fun job_messages :: "job \<Rightarrow> inbound list" where
  "job_messages (BatchJob ms epoch) = ms"
| "job_messages j = []"

fun chat_of :: "buf_key \<Rightarrow> chat_key" where
  "chat_of (BufKey conn chat party) = (conn, chat)"

text \<open>The messages of one sender, in order: those in batches of a list of jobs.\<close>

definition of_sender :: "buf_key \<Rightarrow> inbound list \<Rightarrow> inbound list" where
  "of_sender b ms = filter (\<lambda>m. senderBufferKey m = b) ms"

definition in_jobs :: "buf_key \<Rightarrow> job list \<Rightarrow> inbound list" where
  "in_jobs b js = of_sender b (concat (map job_messages js))"

definition in_buffer :: "buf_key \<Rightarrow> system \<Rightarrow> inbound list" where
  "in_buffer b s = (case sy_buffers s b of None \<Rightarrow> [] | Some buf \<Rightarrow> map fst (bf_items buf))"

definition job_ok :: "chat_key \<Rightarrow> job \<Rightarrow> bool" where
  "job_ok k j \<longleftrightarrow>
     (case j of
        BatchJob ms epoch \<Rightarrow> ms \<noteq> [] \<and> (\<exists>b. chat_of b = k \<and> (\<forall>m \<in> set ms. senderBufferKey m = b))
      | EchoJob m epoch \<Rightarrow> im_key m = k
      | HistoryJob k' epoch \<Rightarrow> k' = k)"

definition buf_ok :: "burst_config \<Rightarrow> buf_key \<Rightarrow> buffer \<Rightarrow> bool" where
  "buf_ok c b buf \<longleftrightarrow> bf_items buf \<noteq> [] \<and> (\<forall>i \<in> set (bf_items buf). senderBufferKey (fst i) = b)
     \<and> burstQuietMs c (Some buf) [] \<noteq> 0"

definition kept_in_order :: "system \<Rightarrow> buf_key \<Rightarrow> bool" where
  "kept_in_order s b \<longleftrightarrow> of_sender b (sy_accepted s)
     = in_jobs b (sy_finished s) @ in_jobs b (sy_chain s (chat_of b)) @ in_buffer b s"

definition sys_inv :: "burst_config \<Rightarrow> system \<Rightarrow> bool" where
  "sys_inv c s \<longleftrightarrow> (\<forall>b buf. sy_buffers s b = Some buf \<longrightarrow> buf_ok c b buf)
     \<and> (\<forall>k. \<forall>j \<in> set (sy_chain s k). job_ok k j)
     \<and> (\<forall>j \<in> set (sy_finished s). \<exists>k. job_ok k j) \<and> (\<forall>b. kept_in_order s b)"

lemma chat_of_sender [simp]: "chat_of (senderBufferKey m) = im_key m"
  by (simp add: senderBufferKey_def im_key_def)

lemma of_sender_simps [simp]:
  "of_sender b [] = []" "of_sender b (xs @ ys) = of_sender b xs @ of_sender b ys"
  "of_sender b (m # ms) = (if senderBufferKey m = b then m # of_sender b ms else of_sender b ms)"
  by (simp_all add: of_sender_def)

lemma in_jobs_simps [simp]:
  "in_jobs b [] = []" "in_jobs b (xs @ ys) = in_jobs b xs @ in_jobs b ys"
  "in_jobs b (j # js) = of_sender b (job_messages j) @ in_jobs b js"
  by (simp_all add: in_jobs_def)

lemma of_sender_all: "\<forall>m \<in> set ms. senderBufferKey m = b \<Longrightarrow> of_sender b ms = ms"
  by (simp add: of_sender_def)

lemma of_sender_none: "\<forall>m \<in> set ms. senderBufferKey m \<noteq> b \<Longrightarrow> of_sender b ms = []"
  by (simp add: of_sender_def)

lemma of_sender_other: "\<forall>m \<in> set ms. senderBufferKey m = b' \<Longrightarrow> b' \<noteq> b \<Longrightarrow> of_sender b ms = []"
  by (rule of_sender_none) auto

lemma job_ok_other: "job_ok k j \<Longrightarrow> chat_of b \<noteq> k \<Longrightarrow> of_sender b (job_messages j) = []"
  by (cases j) (auto simp: job_ok_def intro!: of_sender_none)

lemma quiet_mono: "burstQuietMs c (Some buf) [] \<noteq> 0 \<Longrightarrow> burstQuietMs c (Some buf) t \<noteq> 0"
  by (auto simp: burstQuietMs_def split: if_splits)

lemma quiet_due [simp]: "burstQuietMs c (Some (buf\<lparr>bf_due := d\<rparr>)) t = burstQuietMs c (Some buf) t"
  by (simp add: burstQuietMs_def)

lemma quiet_items: "burstQuietMs c (Some buf) [] \<noteq> 0 \<Longrightarrow> set (bf_items buf) \<subseteq> set (bf_items buf') \<Longrightarrow>
    burstQuietMs c (Some buf') [] \<noteq> 0"
  by (auto simp: burstQuietMs_def list_ex_iff split: if_splits)

lemma quiet_first: "burstQuietMs c None (im_type m) \<noteq> 0 \<Longrightarrow> (m, n) \<in> set (bf_items buf) \<Longrightarrow> burstQuietMs c (Some buf) [] \<noteq> 0"
  by (auto simp: burstQuietMs_def list_ex_iff split: if_splits)

text \<open>A buffer that is put takes in the messages that are accepted with it.\<close>

lemma inv_put:
  assumes s: "sys_inv c s" and b: "buf_ok c b buf" and ms: "\<forall>m \<in> set ms. senderBufferKey m = b"
    and items: "map fst (bf_items buf) = in_buffer b s @ ms"
  shows "sys_inv c (s\<lparr>sy_accepted := sy_accepted s @ ms, sy_buffers := (sy_buffers s)(b \<mapsto> buf)\<rparr>)"
proof -
  have "kept_in_order (s\<lparr>sy_accepted := sy_accepted s @ ms, sy_buffers := (sy_buffers s)(b \<mapsto> buf)\<rparr>) b'" for b'
    using s items of_sender_all [OF ms] of_sender_other [OF ms, of b']
    by (cases "b' = b") (auto simp: sys_inv_def kept_in_order_def in_buffer_def)
  then show ?thesis using s b by (auto simp: sys_inv_def)
qed

text \<open>A job is pushed on its chat's chain with the messages its sender had buffered.\<close>

lemma inv_push:
  assumes s: "sys_inv c s" and j: "job_ok k j" and m: "\<forall>m \<in> set (job_messages j). senderBufferKey m = b"
    and new: "in_buffer b s @ ms = job_messages j" "\<forall>m \<in> set ms. senderBufferKey m = b"
  shows "sys_inv c (push_job k j (s\<lparr>sy_accepted := sy_accepted s @ ms, sy_buffers := (sy_buffers s)(b := None)\<rparr>))"
proof -
  let ?s = "push_job k j (s\<lparr>sy_accepted := sy_accepted s @ ms, sy_buffers := (sy_buffers s)(b := None)\<rparr>)"
  have "kept_in_order ?s b'" for b'
  proof (cases "b' = b")
    case True
    have "job_messages j \<noteq> [] \<Longrightarrow> chat_of b = k"
      using j m by (cases j) (auto simp: job_ok_def neq_Nil_conv)
    then show ?thesis
      using s True new(1) of_sender_all [OF m] of_sender_all [OF new(2)]
      by (cases "job_messages j = []") (auto simp: sys_inv_def kept_in_order_def in_buffer_def push_job_def)
  next
    case False
    then show ?thesis
      using s of_sender_other [OF m, of b'] of_sender_other [OF new(2), of b']
      by (auto simp: sys_inv_def kept_in_order_def in_buffer_def push_job_def)
  qed
  then show ?thesis using s j by (auto simp: sys_inv_def push_job_def)
qed

lemma inv_push_other:
  assumes s: "sys_inv c s" and j: "job_ok k j" "job_messages j = []"
  shows "sys_inv c (push_job k j s)"
proof -
  have "kept_in_order (push_job k j s) b" for b
    using s j(2) by (auto simp: sys_inv_def kept_in_order_def in_buffer_def push_job_def)
  then show ?thesis using s j by (auto simp: sys_inv_def push_job_def)
qed

lemma inv_world: "sys_inv c (s\<lparr>sy_world := w\<rparr>) = sys_inv c s" "sys_inv c (s\<lparr>sy_running := r\<rparr>) = sys_inv c s"
  by (simp_all add: sys_inv_def kept_in_order_def in_buffer_def)

lemma touch_inv: "sys_inv c s \<Longrightarrow> sys_inv c (fst (touchBurst c m s))"
proof (cases "is_echo m s = Inr False")
  case True
  assume s: "sys_inv c s"
  show ?thesis
  proof (cases "sy_buffers s (senderBufferKey m)")
    case (Some buf)
    have "buf_ok c (senderBufferKey m) (buf\<lparr>bf_due := t\<rparr>)" for t
      using s Some by (auto simp: sys_inv_def buf_ok_def)
    from inv_put [OF s this, of "[]"] Some show ?thesis
      using True s by (simp add: touchBurst_def Let_def in_buffer_def)
  qed (use True s in \<open>simp add: touchBurst_def\<close>)
qed (auto simp: touchBurst_def split: sum.split bool.split)

lemma handle_inv:
  assumes s: "sys_inv c s"
  shows "sys_inv c (handle c m s)"
proof (cases "is_echo m s")
  case (Inr echo)
  define b where "b = senderBufferKey m"
  define e where "e = epoch_of (im_key m) s"
  show ?thesis
  proof (cases echo)
    case True
    then show ?thesis using Inr inv_push_other [OF s, of "im_key m" "EchoJob m e"] by (simp add: handle_def job_ok_def e_def Let_def)
  next
    case False
    consider (direct) "burstQuietMs c (sy_buffers s b) (im_type m) = 0"
      | (first) "burstQuietMs c (sy_buffers s b) (im_type m) \<noteq> 0" "sy_buffers s b = None"
      | (more) buf where "burstQuietMs c (sy_buffers s b) (im_type m) \<noteq> 0" "sy_buffers s b = Some buf" by fastforce
    then show ?thesis
    proof cases
      case direct
      have n: "sy_buffers s b = None"
      proof (cases "sy_buffers s b")
        case (Some buf)
        then have "burstQuietMs c (Some buf) [] \<noteq> 0" using s unfolding sys_inv_def buf_ok_def by blast
        from quiet_mono [OF this, of "im_type m"] show ?thesis using direct Some by simp
      qed
      have "job_ok (im_key m) (BatchJob [m] e)"
        by (simp add: job_ok_def)
      from inv_push [OF s this, of b "[m]"] n show ?thesis
        using Inr False direct by (simp add: handle_def Let_def b_def [symmetric] e_def [symmetric] in_buffer_def fun_upd_idem push_job_def)
    next
      case first
      have "buf_ok c b \<lparr>bf_items = [(m, e)], bf_due = d\<rparr>" for d
        using first quiet_first [of c m e "\<lparr>bf_items = [(m, e)], bf_due = d\<rparr>"] by (simp add: buf_ok_def b_def)
      from inv_put [OF s this, of "[m]"] first show ?thesis
        using Inr False by (simp add: handle_def Let_def b_def [symmetric] e_def [symmetric] in_buffer_def)
    next
      case more
      have "buf_ok c b (buf\<lparr>bf_items := bf_items buf @ [(m, e)], bf_due := d\<rparr>)" for d
        using s more(2) quiet_items [of c buf "buf\<lparr>bf_items := bf_items buf @ [(m, e)]\<rparr>"]
        by (auto simp: sys_inv_def buf_ok_def b_def)
      from inv_put [OF s this, of "[m]"] more show ?thesis
        using Inr False by (simp add: handle_def Let_def b_def [symmetric] e_def [symmetric] in_buffer_def)
    qed
  qed
qed (simp add: handle_def s)

lemma flush_inv:
  assumes s: "sys_inv c s"
  shows "sys_inv c (flushBuffer b s)"
proof (cases "\<exists>buf. sy_buffers s b = Some buf \<and> bf_due buf \<le> w_now (sy_world s)")
  case True
  then obtain buf where buf: "sy_buffers s b = Some buf" "bf_due buf \<le> w_now (sy_world s)" by blast
  let ?k = "im_key (fst (hd (bf_items buf)))" and ?j = "BatchJob (map fst (bf_items buf)) (snd (last (bf_items buf)))"
  have ok: "bf_items buf \<noteq> []" "\<forall>i \<in> set (bf_items buf). senderBufferKey (fst i) = b"
    using s buf(1) by (auto simp: sys_inv_def buf_ok_def)
  then have "senderBufferKey (fst (hd (bf_items buf))) = b" by simp
  then have "chat_of b = ?k" by (metis chat_of_sender)
  then have j: "job_ok ?k ?j" using ok by (auto simp: job_ok_def)
  show ?thesis
    using inv_push [OF s j, of b "[]"] ok buf by (simp add: flushBuffer_def in_buffer_def)
next
  case False
  then show ?thesis using s by (auto simp: flushBuffer_def split: option.split)
qed

lemma chain_job_ok: "sys_inv c s \<Longrightarrow> j \<in> set (sy_chain s k) \<Longrightarrow> job_ok k j"
  unfolding sys_inv_def by blast

lemma settles_inv:
  assumes s: "sys_inv c s"
  shows "sys_inv c (sys_step d c s (Settles k))"
proof (cases "sy_running s k \<and> sy_chain s k \<noteq> []")
  case True
  then obtain j js where j: "sy_chain s k = j # js" by (cases "sy_chain s k") auto
  have ok: "job_ok k j" using chain_job_ok [OF s] j by simp
  have "kept_in_order (sys_step d c s (Settles k)) b" for b
    using s True j job_ok_other [OF ok, of b]
    by (cases "chat_of b = k") (auto simp: sys_inv_def kept_in_order_def in_buffer_def)
  moreover have "\<exists>k. job_ok k j" using ok by blast
  ultimately show ?thesis using s True j by (auto simp: sys_inv_def)
next
  case False
  then show ?thesis using s by (auto split: list.split)
qed

lemma step_inv: "sys_inv c s \<Longrightarrow> sys_inv c (sys_step d c s e)"
proof (cases e)
  case (HistoryArrives k)
  moreover assume "sys_inv c s"
  ultimately show ?thesis by (simp add: history_event_def inv_push_other job_ok_def)
next
  case (Settles k)
  moreover assume "sys_inv c s"
  ultimately show ?thesis using settles_inv by metis
qed (simp_all add: handle_inv touch_inv flush_inv inv_world)

interpretation queues: machine "sys_step d c" "sys_inv c" for d c
  by unfold_locales (rule step_inv)

lemma start_inv: "sys_inv c (start_system w)"
  by (simp add: sys_inv_def start_system_def kept_in_order_def in_buffer_def)

section \<open>Claims of the whole system\<close>

text \<open>Every pending row belongs to an effect.\<close>

definition claims_held :: "world \<Rightarrow> bool" where
  "claims_held w \<longleftrightarrow> (\<forall>r \<in> set (w_log w). ol_status r = Pending \<longrightarrow>
     (\<exists>e \<in> set (w_out w). carries e (row_key r, ol_token r)))"

lemma held_settled: "claims_held w \<Longrightarrow> settled_from (w_log w) (w_out w) w' \<Longrightarrow> claims_held w'"
  by (fastforce simp: claims_held_def settled_from_def pend_ok_def)

lemma history_settles:
  assumes "\<And>n. dp_uuid d n \<noteq> []"
  shows "settled_from (w_log w) (w_out w) (fst (onHistoryBatch d k epoch w))"
proof -
  have "keeps (\<lambda>w'. pend_ok (w_log w) {} (w_log w')) (onHistoryBatch d k epoch)"
    by (rule pend.keeps_history_with) (simp_all add: keeps_retry_pend assms)
  from keepsD [OF this, of w] have "pend_ok (w_log w) {} (w_log (fst (onHistoryBatch d k epoch w)))"
    by (simp add: pend_ok_def)
  moreover have "w_out (fst (onHistoryBatch d k epoch w)) = w_out w"
    by (rule keepsD [OF same_out.keeps_history]) simp_all
  ultimately show ?thesis
    by (intro settled_none [of _ _ _ "[]"]) simp_all
qed

lemma job_settles:
  assumes "\<And>n. dp_uuid d n \<noteq> []" "job_ok k j"
  shows "settled_from (w_log w) (w_out w) (run_job d j w)"
proof (cases j)
  case (BatchJob ms epoch)
  have "im_connection m = im_connection (hd ms)" if "m \<in> set ms" for m
  proof -
    have "senderBufferKey m = senderBufferKey (hd ms)"
      using assms(2) that BatchJob by (auto simp: job_ok_def)
    then show ?thesis by (simp add: senderBufferKey_def)
  qed
  then show ?thesis using BatchJob by (simp add: run_job_def batch_settles assms(1))
qed (simp_all add: run_job_def batch_settles history_settles assms(1))

lemma step_claims:
  assumes "\<And>n. dp_uuid d n \<noteq> []" "sys_inv c s" "claims_held (sy_world s)"
  shows "claims_held (sy_world (sys_step d c s e))"
proof (cases e)
  case (Settles k)
  show ?thesis
  proof (cases "sy_running s k \<and> sy_chain s k \<noteq> []")
    case True
    then obtain j js where j: "sy_chain s k = j # js" by (cases "sy_chain s k") auto
    then have "job_ok k j" using chain_job_ok [OF assms(2)] by simp
    from held_settled [OF assms(3) job_settles [OF assms(1) this]] show ?thesis
      using Settles True j by simp
  qed (use Settles assms(3) in \<open>auto split: list.split\<close>)
qed (use assms(3) in \<open>auto simp: claims_held_def happen_view handle_def touchBurst_def flushBuffer_def history_event_def
      push_job_def Let_def split: sum.split bool.split option.split\<close>)

interpretation claims: machine "sys_step d c" "\<lambda>s. sys_inv c s \<and> (dp_uuid d = u \<and> (\<forall>n. u n \<noteq> []) \<longrightarrow> claims_held (sy_world s))"
  for d c u
  by unfold_locales (auto intro: step_inv step_claims)

section \<open>A burst of photos\<close>

definition photo_events :: "buf_key \<Rightarrow> nat \<times> inbound \<Rightarrow> event list" where
  "photo_events b p = [Passes (fst p), QuietEnds b, Arrives (snd p)]"

definition photo_of :: "buf_key \<Rightarrow> inbound \<Rightarrow> bool" where
  "photo_of b m \<longleftrightarrow> im_type m = ''image'' \<and> senderBufferKey m = b \<and> \<not> im_fromMe m"

definition window :: "burst_config \<Rightarrow> nat" where
  "window c = max (bc_debounce c) (bc_media c)"

definition collecting :: "burst_config \<Rightarrow> buf_key \<Rightarrow> inbound list \<Rightarrow> nat \<Rightarrow> (chat_key \<Rightarrow> job list) \<Rightarrow> system \<Rightarrow> bool" where
  "collecting c b ms epoch chain s \<longleftrightarrow>
     sy_buffers s b = Some \<lparr>bf_items = map (\<lambda>m. (m, epoch)) ms, bf_due = w_now (sy_world s) + window c\<rparr>
     \<and> sy_chain s = chain \<and> w_epochs (sy_world s) (chat_of b) = epoch"

lemma echo_not_mine: "\<not> im_fromMe m \<Longrightarrow> is_echo m s = Inr False"
  by (simp add: is_echo_def)

lemma photo_window: "burstQuietMs c buf ''image'' = window c"
  by (simp add: burstQuietMs_def window_def)

lemma first_photo:
  assumes "photo_of b m" "sy_buffers s b = None" "window c \<noteq> 0" "w_epochs (sy_world s) (chat_of b) = epoch"
  shows "collecting c b [m] epoch (sy_chain s) (handle c m s)"
  using assms
  by (auto simp: collecting_def handle_def photo_of_def Let_def echo_not_mine photo_window epoch_of_def)

lemma next_photo:
  assumes "photo_of b (snd p)" "fst p < window c" "collecting c b ms epoch chain s"
  shows "collecting c b (ms @ [snd p]) epoch chain (foldl (sys_step d c) s (photo_events b p))"
proof -
  have "flushBuffer b (sys_step d c s (Passes (fst p))) = sys_step d c s (Passes (fst p))"
    using assms(2,3) by (simp add: flushBuffer_def collecting_def)
  then show ?thesis using assms
    by (auto simp: collecting_def photo_events_def handle_def photo_of_def Let_def echo_not_mine photo_window epoch_of_def)
qed

lemma more_photos:
  "\<forall>p \<in> set ps. photo_of b (snd p) \<and> fst p < window c \<Longrightarrow> collecting c b ms epoch chain s \<Longrightarrow>
     collecting c b (ms @ map snd ps) epoch chain (foldl (sys_step d c) s (concat (map (photo_events b) ps)))"
proof (induction ps arbitrary: ms s)
  case (Cons p ps)
  have "collecting c b (ms @ [snd p]) epoch chain (foldl (sys_step d c) s (photo_events b p))"
    using Cons.prems by (intro next_photo) auto
  from Cons.IH [OF _ this] Cons.prems(1) show ?case by simp
qed simp

section \<open>Properties\<close>

text \<open>C1: No message is lost, duplicated or reordered on its way to a batch: whatever arrives and
  happens, and however batches settle, the messages accepted from a sender are, in their order, those
  of the batches run, then those of the batches waiting on the chat's chain, then those in the
  sender's buffer.\<close>

theorem messages_kept_in_order:
  "of_sender b (sy_accepted (foldl (sys_step d c) (start_system w) es))
   = in_jobs b (sy_finished (foldl (sys_step d c) (start_system w) es))
     @ in_jobs b (sy_chain (foldl (sys_step d c) (start_system w) es) (chat_of b))
     @ in_buffer b (foldl (sys_step d c) (start_system w) es)"
  using queues.run_inv [OF start_inv] by (simp add: sys_inv_def kept_in_order_def)



text \<open>C26: Photos of one sender that follow each other faster than the quiet window leave as one batch, in
  their order, once the window has passed: an album is one ask, however many times the timer would
  have fired in between.\<close>

theorem album_is_one_batch:
  assumes "photo_of b m" "\<forall>p \<in> set ps. photo_of b (snd p) \<and> fst p < window c" "window c \<noteq> 0"
    and "sy_buffers s b = None"
  shows "sy_chain (foldl (sys_step d c) s (Arrives m # concat (map (photo_events b) ps) @ [Passes (window c), QuietEnds b])) (chat_of b)
    = sy_chain s (chat_of b) @ [BatchJob (m # map snd ps) (w_epochs (sy_world s) (chat_of b))]"
proof -
  let ?s = "foldl (sys_step d c) (handle c m s) (concat (map (photo_events b) ps))"
  have "collecting c b ([m] @ map snd ps) (w_epochs (sy_world s) (chat_of b)) (sy_chain s) ?s"
    using assms by (intro more_photos first_photo) simp_all
  moreover have "im_key m = chat_of b" using assms(1) by (auto simp: photo_of_def)
  ultimately show ?thesis
    by (auto simp: collecting_def flushBuffer_def push_job_def comp_def last_map)
qed

theorem album_is_one_batch_witness:
  "sy_chain (foldl (sys_step quiet_deps \<lparr>bc_debounce = 0, bc_media = 5\<rparr>) (start_system empty_world)
       (Arrives (operator_message\<lparr>im_type := ''image''\<rparr>) # concat (map (photo_events (senderBufferKey operator_message))
          [(4, operator_message\<lparr>im_type := ''image'', im_id := ''m2''\<rparr>)])
        @ [Passes (window \<lparr>bc_debounce = 0, bc_media = 5\<rparr>), QuietEnds (senderBufferKey operator_message)]))
     (chat_of (senderBufferKey operator_message))
   = [BatchJob [operator_message\<lparr>im_type := ''image''\<rparr>, operator_message\<lparr>im_type := ''image'', im_id := ''m2''\<rparr>] 0]"
proof -
  have s: "photo_of (senderBufferKey operator_message) (operator_message\<lparr>im_type := ''image''\<rparr>)"
    "photo_of (senderBufferKey operator_message) (operator_message\<lparr>im_type := ''image'', im_id := ''m2''\<rparr>)"
    by (simp_all add: photo_of_def senderBufferKey_def) (simp_all add: operator_message_def group_message_def)
  show ?thesis
    using album_is_one_batch [OF s(1), of "[(4, operator_message\<lparr>im_type := ''image'', im_id := ''m2''\<rparr>)]"
        "\<lparr>bc_debounce = 0, bc_media = 5\<rparr>" "start_system empty_world" quiet_deps] s
    by (simp add: window_def start_system_def empty_world_def)
qed

end
