(* ===== verification/Regex.thy ===== *)
theory Regex
  imports Prelude
begin

text \<open>
  Regular expressions as JavaScript matches them: a backtracking matcher that lists the ways a
  pattern matches at a position in the order in which it tries them, so the match is the first of
  the list. Case-insensitive patterns are written with classes closed under case. A look-behind is a test of the
  character before the position, which is all the gateway uses; a look-ahead binds no groups.
  A code unit above 255 of a pattern is left out of it: no represented text has one.
\<close>

section \<open>Patterns\<close>

datatype rx =
    Eps
  | Cls "char \<Rightarrow> bool"
  | Seq rx rx
  | Alt rx rx
  | Rep bool nat "nat option" rx
  | Grp nat rx
  | Bref nat
  | Asrt "string \<Rightarrow> string \<Rightarrow> bool"
  | Ahead bool rx

text \<open>A position: the text before it in reverse, the text from it on, and the groups bound.\<close>

datatype mstate = At (text_before: string) (rest_of: string) (caps_of: "(nat \<times> string) list")

text \<open>The text between two positions.\<close>

definition between :: "mstate \<Rightarrow> mstate \<Rightarrow> string" where
  "between x y = take (length (rest_of x) - length (rest_of y)) (rest_of x)"

definition clear :: "nat list \<Rightarrow> mstate \<Rightarrow> mstate" where
  "clear gs x = At (text_before x) (rest_of x) (filter (\<lambda>c. fst c \<notin> set gs) (caps_of x))"

primrec groups_of :: "rx \<Rightarrow> nat list" where
  "groups_of Eps = []"
| "groups_of (Cls p) = []"
| "groups_of (Seq r s) = groups_of r @ groups_of s"
| "groups_of (Alt r s) = groups_of r @ groups_of s"
| "groups_of (Rep g lo hi r) = groups_of r"
| "groups_of (Grp n r) = n # groups_of r"
| "groups_of (Bref n) = []"
| "groups_of (Asrt p) = []"
| "groups_of (Ahead b r) = groups_of r"

section \<open>Matching\<close>

text \<open>
  A repetition: an iteration past the least number that consumes nothing is refused. The fuel is
  more than the iterations that are due plus the characters left, so it never runs out (lemma
  \<open>rep_fuel\<close>).
\<close>

primrec rep :: "nat \<Rightarrow> (mstate \<Rightarrow> mstate list) \<Rightarrow> nat list \<Rightarrow> bool \<Rightarrow> nat \<Rightarrow> nat option \<Rightarrow> mstate \<Rightarrow> mstate list" where
  "rep 0 m gs greedy lo hi x = []"
| "rep (Suc n) m gs greedy lo hi x =
     (if hi = Some 0 then [x]
      else
        (let more = concat (map (\<lambda>y.
               if lo = 0 \<and> length (rest_of y) = length (rest_of x) then []
               else rep n m gs greedy (lo - 1) (map_option (\<lambda>h. h - 1) hi) y) (m (clear gs x)))
         in if 0 < lo then more else if greedy then more @ [x] else x # more))"

definition drop_prefix :: "string \<Rightarrow> mstate \<Rightarrow> mstate list" where
  "drop_prefix w x =
     (if starts_with w (rest_of x)
      then [At (rev w @ text_before x) (drop (length w) (rest_of x)) (caps_of x)] else [])"

primrec ways :: "rx \<Rightarrow> mstate \<Rightarrow> mstate list" where
  "ways Eps x = [x]"
| "ways (Cls p) x =
     (case rest_of x of [] \<Rightarrow> [] | c # cs \<Rightarrow> if p c then [At (c # text_before x) cs (caps_of x)] else [])"
| "ways (Seq r s) x = concat (map (ways s) (ways r x))"
| "ways (Alt r s) x = ways r x @ ways s x"
| "ways (Rep greedy lo hi r) x = rep (lo + length (rest_of x) + 1) (ways r) (groups_of r) greedy lo hi x"
| "ways (Grp n r) x = map (\<lambda>y. At (text_before y) (rest_of y) ((n, between x y) # caps_of y)) (ways r x)"
| "ways (Bref n) x = drop_prefix (case map_of (caps_of x) n of None \<Rightarrow> [] | Some w \<Rightarrow> w) x"
| "ways (Asrt p) x = (if p (text_before x) (rest_of x) then [x] else [])"
| "ways (Ahead b r) x = (if (ways r x \<noteq> []) = b then [x] else [])"

section \<open>exec, test, replace\<close>

fun find_from :: "rx \<Rightarrow> string \<Rightarrow> string \<Rightarrow> (mstate \<times> mstate) option" where
  "find_from r bef cs =
     (case ways r (At bef cs []) of
        y # ys \<Rightarrow> Some (At bef cs [], y)
      | [] \<Rightarrow> (case cs of [] \<Rightarrow> None | c # cs' \<Rightarrow> find_from r (c # bef) cs'))"

declare find_from.simps [simp del]

definition exec :: "rx \<Rightarrow> string \<Rightarrow> (mstate \<times> mstate) option" where
  "exec r s = find_from r [] s"

definition test :: "rx \<Rightarrow> string \<Rightarrow> bool" where
  "test r s \<longleftrightarrow> exec r s \<noteq> None"

text \<open>The text of group \<open>n\<close> of a match, group 0 the whole.\<close>

definition group_text :: "nat \<Rightarrow> mstate \<times> mstate \<Rightarrow> string option" where
  "group_text n m = (if n = 0 then Some (between (fst m) (snd m)) else map_of (caps_of (snd m)) n)"

definition exec_group :: "nat \<Rightarrow> rx \<Rightarrow> string \<Rightarrow> string option" where
  "exec_group n r s = Option.bind (exec r s) (group_text n)"

text \<open>All matches, left to right; after an empty one the search resumes a character on.\<close>

function matches_from :: "rx \<Rightarrow> string \<Rightarrow> string \<Rightarrow> (mstate \<times> mstate) list" where
  "matches_from r bef cs =
     (case find_from r bef cs of
        None \<Rightarrow> []
      | Some (x, y) \<Rightarrow>
          (x, y) # (if length (rest_of y) < length cs \<and> length (rest_of y) < length (rest_of x)
                    then matches_from r (text_before y) (rest_of y)
                    else (case rest_of x of
                        [] \<Rightarrow> []
                      | c # cs' \<Rightarrow> if length cs' < length cs then matches_from r (c # text_before x) cs' else [])))"
  by pat_completeness auto

termination
  by (relation "measure (\<lambda>(r, bef, cs). length cs)") auto

declare matches_from.simps [simp del]

definition match_all :: "rx \<Rightarrow> string \<Rightarrow> (mstate \<times> mstate) list" where
  "match_all r s = matches_from r [] s"

text \<open>The text outside the matches stays, each match becomes \<open>f\<close> of it.\<close>

fun rebuild :: "(mstate \<times> mstate \<Rightarrow> string) \<Rightarrow> string \<Rightarrow> (mstate \<times> mstate) list \<Rightarrow> string" where
  "rebuild f s [] = s"
| "rebuild f s ((x, y) # ms) =
     take (length s - length (rest_of x)) s @ f (x, y) @ rebuild f (rest_of y) ms"

definition replace_with :: "rx \<Rightarrow> (mstate \<times> mstate \<Rightarrow> string) \<Rightarrow> string \<Rightarrow> string" where
  "replace_with r f s = rebuild f s (match_all r s)"

definition replace_all :: "rx \<Rightarrow> string \<Rightarrow> string \<Rightarrow> string" where
  "replace_all r w s = replace_with r (\<lambda>m. w) s"

text \<open>Without the flag \<open>g\<close>.\<close>

definition replace_first :: "rx \<Rightarrow> string \<Rightarrow> string \<Rightarrow> string" where
  "replace_first r w s = rebuild (\<lambda>m. w) s (case exec r s of None \<Rightarrow> [] | Some m \<Rightarrow> [m])"

definition group_or_empty :: "nat \<Rightarrow> mstate \<times> mstate \<Rightarrow> string" where
  "group_or_empty n m = (case group_text n m of None \<Rightarrow> [] | Some w \<Rightarrow> w)"

text \<open>\<open>s.split(re)\<close> for a pattern that never matches the empty text and has no groups.\<close>

fun pieces :: "string \<Rightarrow> (mstate \<times> mstate) list \<Rightarrow> string list" where
  "pieces s [] = [s]"
| "pieces s ((x, y) # ms) = take (length s - length (rest_of x)) s # pieces (rest_of y) ms"

definition split_re :: "rx \<Rightarrow> string \<Rightarrow> string list" where
  "split_re r s = pieces s (match_all r s)"

section \<open>Writing patterns\<close>

fun sq :: "rx list \<Rightarrow> rx" where
  "sq [] = Eps"
| "sq [r] = r"
| "sq (r # s # rs) = Seq r (sq (s # rs))"

fun either :: "rx list \<Rightarrow> rx" where
  "either [] = Cls (\<lambda>c. False)"
| "either [r] = r"
| "either (r # s # rs) = Alt r (either (s # rs))"

definition star :: "rx \<Rightarrow> rx" where "star r = Rep True 0 None r"
definition plus :: "rx \<Rightarrow> rx" where "plus r = Rep True 1 None r"
definition opt :: "rx \<Rightarrow> rx" where "opt r = Rep True 0 (Some 1) r"
definition star_lazy :: "rx \<Rightarrow> rx" where "star_lazy r = Rep False 0 None r"
definition plus_lazy :: "rx \<Rightarrow> rx" where "plus_lazy r = Rep False 1 None r"
definition at_least :: "nat \<Rightarrow> rx \<Rightarrow> rx" where "at_least n r = Rep True n None r"
definition from_to :: "nat \<Rightarrow> nat \<Rightarrow> rx \<Rightarrow> rx" where "from_to lo hi r = Rep True lo (Some hi) r"

text \<open>
  A literal text, and one of ASCII characters under the flag \<open>i\<close>, where a letter matches itself in both
  cases and nothing else; the class of the characters of a text and its complement.
\<close>

definition upper_char :: "char \<Rightarrow> char" where
  "upper_char c = (if is_lower c then char_of (of_char c - 32 :: nat) else c)"

definition lit :: "string \<Rightarrow> rx" where
  "lit w = sq (map (\<lambda>c. Cls (\<lambda>d. d = c)) w)"

definition lit_i :: "string \<Rightarrow> rx" where
  "lit_i w = sq (map (\<lambda>c. let l = lower_char c; u = upper_char c in Cls (\<lambda>d. d = l \<or> d = u)) w)"

definition one_of :: "string \<Rightarrow> rx" where
  "one_of cs = Cls (\<lambda>c. c \<in> set cs)"

definition none_of :: "string \<Rightarrow> rx" where
  "none_of cs = Cls (\<lambda>c. \<not> c \<in> set cs)"

definition is_letter :: "char \<Rightarrow> bool" where
  "is_letter c \<longleftrightarrow> is_upper c \<or> is_lower c"

definition is_word :: "char \<Rightarrow> bool" where
  "is_word c \<longleftrightarrow> is_alnum c \<or> c = CHR ''_''"

definition is_eol :: "char \<Rightarrow> bool" where
  "is_eol c \<longleftrightarrow> c = CHR 10 \<or> c = CHR 13"

definition ws :: rx where "ws = Cls is_ws"
definition nonws :: rx where "nonws = Cls (\<lambda>c. \<not> is_ws c)"
definition digit :: rx where "digit = Cls is_digit"
definition wordc :: rx where "wordc = Cls is_word"
definition dot :: rx where "dot = Cls (\<lambda>c. \<not> is_eol c)"
definition anyc :: rx where "anyc = Cls (\<lambda>c. True)"
definition blank :: rx where "blank = one_of [CHR '' '', CHR 9]"
definition not_nl :: rx where "not_nl = none_of [CHR 10]"

definition next_is :: "(char \<Rightarrow> bool) \<Rightarrow> string \<Rightarrow> bool" where
  "next_is p s \<longleftrightarrow> s \<noteq> [] \<and> p (hd s)"

text \<open>\<open>\b\<close>; \<open>^\<close> and \<open>$\<close>, without and with the flag \<open>m\<close>; a look-behind \<open>(?<!p)\<close>, \<open>(?<=p)\<close>.\<close>

definition wb :: rx where
  "wb = Asrt (\<lambda>bef cs. next_is is_word bef \<noteq> next_is is_word cs)"

definition bos :: rx where "bos = Asrt (\<lambda>bef cs. bef = [])"
definition eos :: rx where "eos = Asrt (\<lambda>bef cs. cs = [])"
definition bol :: rx where "bol = Asrt (\<lambda>bef cs. bef = [] \<or> next_is is_eol bef)"
definition eol :: rx where "eol = Asrt (\<lambda>bef cs. cs = [] \<or> next_is is_eol cs)"

definition not_after :: "(char \<Rightarrow> bool) \<Rightarrow> rx" where
  "not_after p = Asrt (\<lambda>bef cs. \<not> next_is p bef)"

definition after :: "(char \<Rightarrow> bool) \<Rightarrow> rx" where
  "after p = Asrt (\<lambda>bef cs. next_is p bef)"

definition words_i :: "string list \<Rightarrow> rx" where
  "words_i vs = either (map lit_i vs)"

lemmas rx_defs = star_def plus_def opt_def star_lazy_def plus_lazy_def at_least_def from_to_def lit_def lit_i_def
  one_of_def none_of_def ws_def nonws_def digit_def wordc_def dot_def anyc_def blank_def not_nl_def wb_def bos_def
  eos_def bol_def eol_def not_after_def after_def words_i_def

section \<open>What a match is\<close>

text \<open>The classes of a pattern are admitted, a back-reference only where every class is.\<close>

primrec admitted :: "((char \<Rightarrow> bool) \<Rightarrow> bool) \<Rightarrow> rx \<Rightarrow> bool" where
  "admitted admits Eps = True"
| "admitted admits (Cls p) = admits p"
| "admitted admits (Seq r s) = (admitted admits r \<and> admitted admits s)"
| "admitted admits (Alt r s) = (admitted admits r \<and> admitted admits s)"
| "admitted admits (Rep greedy lo hi r) = admitted admits r"
| "admitted admits (Grp n r) = admitted admits r"
| "admitted admits (Bref n) = admits (\<lambda>c. True)"
| "admitted admits (Asrt p) = True"
| "admitted admits (Ahead b r) = True"

text \<open>
  A way that matches may move a position: it can stay, it composes, it does not look at the groups,
  and one character of an admitted class may be consumed. Every match of a pattern over admitted
  classes is then such a move.
\<close>

locale motion =
  fixes moves :: "mstate \<Rightarrow> mstate \<Rightarrow> bool" and admits :: "(char \<Rightarrow> bool) \<Rightarrow> bool"
  assumes stay: "rest_of y = rest_of x \<Longrightarrow> text_before y = text_before x \<Longrightarrow> moves x y"
    and go_on: "moves x y \<Longrightarrow> moves y z \<Longrightarrow> moves x z"
    and consume: "admits p \<Longrightarrow> p c \<Longrightarrow> rest_of x = c # rest_of y \<Longrightarrow> text_before y = c # text_before x \<Longrightarrow> moves x y"
begin

lemma regroup: "moves (At b cs caps) y \<Longrightarrow> moves (At b cs caps') y"
  using go_on [OF stay [of "At b cs caps" "At b cs caps'"]] by simp

lemma moves_clear: "moves (clear gs x) y \<Longrightarrow> moves x y"
  using regroup by (cases x) (auto simp: clear_def)

lemma moves_rep:
  "(\<And>x y. y \<in> set (m x) \<Longrightarrow> moves x y) \<Longrightarrow> y \<in> set (rep n m gs greedy lo hi x) \<Longrightarrow> moves x y"
proof (induction n arbitrary: lo hi x)
  case (Suc n)
  have step: "z \<in> set (m (clear gs x)) \<Longrightarrow> y \<in> set (rep n m gs greedy lo' hi' z) \<Longrightarrow> moves x y" for z lo' hi'
    using Suc.IH [OF Suc.prems(1)] Suc.prems(1) [of z "clear gs x"] moves_clear go_on by blast
  from Suc.prems(2) show ?case
    by (auto simp: Let_def stay split: if_splits intro: step)
qed simp

lemma moves_word: "admits (\<lambda>c. True) \<Longrightarrow> moves (At b (w @ cs) caps) (At (rev w @ b) cs caps)"
proof (induction w arbitrary: b)
  case (Cons c w)
  have "moves (At b (c # w @ cs) caps) (At (c # b) (w @ cs) caps)" using Cons.prems by (auto intro: consume)
  with Cons show ?case by (auto intro: go_on)
qed (simp add: stay)

lemma moves_ways: "admitted admits r \<Longrightarrow> y \<in> set (ways r x) \<Longrightarrow> moves x y"
proof (induction r arbitrary: x y)
  case (Seq r s)
  then show ?case using go_on by simp blast
next
  case (Rep greedy lo hi r)
  then have m: "\<And>x y. y \<in> set (ways r x) \<Longrightarrow> moves x y" by simp
  from Rep.prems show ?case using moves_rep [OF m] by (simp del: rep.simps)
next
  case (Cls p)
  then show ?case by (auto split: list.splits if_splits intro: consume)
next
  case (Bref n)
  then show ?case
    using moves_word by (cases x) (auto simp: drop_prefix_def str_simps prefix_def split: if_splits)
next
  case (Grp n r)
  from Grp.prems obtain z where z: "z \<in> set (ways r x)"
    "y = At (text_before z) (rest_of z) ((n, between x z) # caps_of z)" by auto
  then have "moves x z" "moves z y" using Grp stay by auto
  then show ?case by (rule go_on)
qed (auto simp: stay split: if_splits)

end

text \<open>A match moves forward: what it consumed is the difference of the two positions.\<close>

definition forward_in :: "(char \<Rightarrow> bool) \<Rightarrow> mstate \<Rightarrow> mstate \<Rightarrow> bool" where
  "forward_in p x y \<longleftrightarrow> (\<exists>u. rest_of x = u @ rest_of y \<and> text_before y = rev u @ text_before x \<and> list_all p u)"

abbreviation forward :: "mstate \<Rightarrow> mstate \<Rightarrow> bool" where
  "forward \<equiv> forward_in (\<lambda>c. True)"

lemma clear_simps [simp]: "text_before (clear gs x) = text_before x" "rest_of (clear gs x) = rest_of x"
  by (simp_all add: clear_def)

lemma forward_refl: "rest_of y = rest_of x \<Longrightarrow> text_before y = text_before x \<Longrightarrow> forward_in p x y"
  by (simp add: forward_in_def)

lemma forward_trans: "forward_in p x y \<Longrightarrow> forward_in p y z \<Longrightarrow> forward_in p x z"
  unfolding forward_in_def by (metis append.assoc list_all_append rev_append)

lemma forward_step: "p c \<Longrightarrow> rest_of x = c # rest_of y \<Longrightarrow> text_before y = c # text_before x \<Longrightarrow> forward_in p x y"
  by (simp add: forward_in_def)

lemma forward_length: "forward_in p x y \<Longrightarrow> length (rest_of y) \<le> length (rest_of x)"
  by (auto simp: forward_in_def)

lemma forward_between: "forward_in p x y \<Longrightarrow> rest_of x = between x y @ rest_of y \<and> list_all p (between x y)"
  by (auto simp: forward_in_def between_def)

lemma forward_clear: "forward_in p (clear gs x) y \<longleftrightarrow> forward_in p x y"
  by (simp add: forward_in_def)

interpretation over: motion "forward_in p" "\<lambda>q. \<forall>c. q c \<longrightarrow> p c" for p
  by unfold_locales (auto intro: forward_refl forward_trans forward_step)

lemma admitted_all: "admitted (\<lambda>q. \<forall>c. q c \<longrightarrow> True) r"
  by (induction r) simp_all

lemma ways_forward: "y \<in> set (ways r x) \<Longrightarrow> forward x y"
  by (rule over.moves_ways [OF admitted_all])

text \<open>A pattern all of whose classes lie in \<open>p\<close>.\<close>

abbreviation only :: "(char \<Rightarrow> bool) \<Rightarrow> rx \<Rightarrow> bool" where
  "only p \<equiv> admitted (\<lambda>q. \<forall>c. q c \<longrightarrow> p c)"

text \<open>More fuel makes no difference.\<close>

lemma rep_fuel:
  assumes "\<And>x y. y \<in> set (m x) \<Longrightarrow> forward x y"
  shows "lo + length (rest_of x) < n \<Longrightarrow> lo + length (rest_of x) < n' \<Longrightarrow>
    rep n m gs greedy lo hi x = rep n' m gs greedy lo hi x"
proof (induction n arbitrary: n' lo hi x)
  case (Suc n)
  then obtain k where n': "n' = Suc k" by (cases n') auto
  have "rep n m gs greedy (lo - 1) h y = rep k m gs greedy (lo - 1) h y"
    if "y \<in> set (m (clear gs x))" "\<not> (lo = 0 \<and> length (rest_of y) = length (rest_of x))" for y h
  proof (rule Suc.IH)
    have "length (rest_of y) \<le> length (rest_of x)"
      using assms [OF that(1)] forward_length by (fastforce simp: forward_clear)
    with that(2) Suc.prems n' show "lo - 1 + length (rest_of y) < n" "lo - 1 + length (rest_of y) < k" by auto
  qed
  then have "map (\<lambda>y. if lo = 0 \<and> length (rest_of y) = length (rest_of x) then []
        else rep n m gs greedy (lo - 1) (map_option (\<lambda>h. h - 1) hi) y) (m (clear gs x))
    = map (\<lambda>y. if lo = 0 \<and> length (rest_of y) = length (rest_of x) then []
        else rep k m gs greedy (lo - 1) (map_option (\<lambda>h. h - 1) hi) y) (m (clear gs x))"
    by (auto cong: map_cong)
  then show ?case by (simp only: n' rep.simps)
qed simp

lemma find_forward: "find_from r bef cs = Some (x, y) \<Longrightarrow> forward (At bef cs []) x \<and> forward x y"
proof (induction r bef cs rule: find_from.induct)
  case (1 r bef cs)
  show ?case
  proof (cases "ways r (At bef cs [])")
    case Nil
    then obtain c cs' where cs: "cs = c # cs'" "find_from r (c # bef) cs' = Some (x, y)"
      using 1(2) by (subst (asm) find_from.simps) (auto split: list.splits)
    have "forward (At bef cs []) (At (c # bef) cs' [])" by (simp add: cs forward_in_def)
    with 1(1) [OF Nil cs] show ?thesis using forward_trans by blast
  next
    case (Cons z zs)
    then have "x = At bef cs []" "y = z" using 1(2) by (simp_all add: find_from.simps [of r bef cs])
    then show ?thesis using ways_forward [of z r "At bef cs []"] Cons by (simp add: forward_refl)
  qed
qed

lemma find_way: "find_from r bef cs = Some (x, y) \<Longrightarrow> y \<in> set (ways r x)"
  by (induction r bef cs rule: find_from.induct) (subst (asm) (2) find_from.simps, auto split: list.splits)

section \<open>What replacing and splitting keep\<close>

text \<open>The matches of a text lie in it one after the other.\<close>

primrec in_order :: "string \<Rightarrow> (mstate \<times> mstate) list \<Rightarrow> bool" where
  "in_order s [] = True"
| "in_order s (m # found) = (suffix (rest_of (fst m)) s \<and> rest_of (fst m) = between (fst m) (snd m) @ rest_of (snd m)
     \<and> in_order (rest_of (snd m)) found)"

lemma in_order_suffix: "in_order s found \<Longrightarrow> suffix s t \<Longrightarrow> in_order t found"
  by (cases found) (auto intro: suffix_order.trans)

lemma matches_in_order: "in_order cs (matches_from r bef cs)"
proof (induction r bef cs rule: matches_from.induct)
  case (1 r bef cs)
  show ?case
  proof (cases "find_from r bef cs")
    case None
    then show ?thesis by (simp add: matches_from.simps [of r bef cs])
  next
    case (Some m)
    obtain x y where m: "m = (x, y)" by (cases m)
    have f: "forward (At bef cs []) x" "forward x y" using find_forward Some m by auto
    have s: "suffix (rest_of x) cs" "rest_of x = between x y @ rest_of y"
      using f(1) forward_between [OF f(2)] by (auto simp: forward_in_def suffix_def)
    show ?thesis
    proof (cases "length (rest_of y) < length (rest_of x)")
      case True
      then have "length (rest_of y) < length cs" using s(1) suffix_length_le by force
      then show ?thesis using 1(1) [OF Some m [symmetric]] True s Some
        by (simp add: m matches_from.simps [of r bef cs])
    next
      case False
      then have "rest_of y = rest_of x" using s(2) by (metis append_Nil length_append length_greater_0_conv not_add_less2 add.commute less_add_same_cancel1)
      then show ?thesis using 1(2) [OF Some m [symmetric]] s Some False
        by (auto simp: m matches_from.simps [of r bef cs] intro: in_order_suffix suffix_ConsI split: list.split)
    qed
  qed
qed

text \<open>Filtering sees only the replaced parts change.\<close>

lemma rebuild_filter:
  "in_order s found \<Longrightarrow> \<forall>m \<in> set found. filter p (f m) = filter p (between (fst m) (snd m)) \<Longrightarrow>
     filter p (rebuild f s found) = filter p s"
proof (induction found arbitrary: s)
  case (Cons m found)
  obtain x y where m: "m = (x, y)" by (cases m)
  from Cons.prems(1) obtain u where u: "s = u @ rest_of x" "rest_of x = between x y @ rest_of y"
    by (auto simp: m suffix_def)
  have "filter p (rebuild f (rest_of y) found) = filter p (rest_of y)" using Cons by (simp add: m)
  moreover have "take (length s - length (rest_of x)) s = u" by (simp add: u(1))
  moreover have "filter p s = filter p u @ filter p (between x y) @ filter p (rest_of y)"
    unfolding u(1) by (subst u(2)) simp
  ultimately show ?case using Cons.prems(2) by (simp add: m)
qed simp

lemma pieces_filter:
  "in_order s found \<Longrightarrow> \<forall>m \<in> set found. filter p (between (fst m) (snd m)) = [] \<Longrightarrow>
     filter p (concat (pieces s found)) = filter p s"
proof (induction found arbitrary: s)
  case (Cons m found)
  obtain x y where m: "m = (x, y)" by (cases m)
  from Cons.prems(1) obtain u where u: "s = u @ rest_of x" "rest_of x = between x y @ rest_of y"
    by (auto simp: m suffix_def)
  have "filter p (concat (pieces (rest_of y) found)) = filter p (rest_of y)" using Cons by (simp add: m)
  moreover have "take (length s - length (rest_of x)) s = u" by (simp add: u(1))
  moreover have "filter p s = filter p u @ filter p (between x y) @ filter p (rest_of y)"
    unfolding u(1) by (subst u(2)) simp
  ultimately show ?case using Cons.prems(2) by (simp add: m)
qed simp

lemma match_in: "m \<in> set (matches_from r bef cs) \<Longrightarrow> \<exists>b c. find_from r b c = Some m"
proof (induction r bef cs rule: matches_from.induct)
  case (1 r bef cs)
  show ?case
  proof (cases "find_from r bef cs")
    case None
    then show ?thesis using 1(3) by (simp add: matches_from.simps [of r bef cs])
  next
    case (Some z)
    obtain x y where z: "z = (x, y)" by (cases z)
    show ?thesis
    proof (cases "length (rest_of y) < length cs \<and> length (rest_of y) < length (rest_of x)")
      case True
      then show ?thesis using 1(1) [OF Some z [symmetric] True] 1(3) Some
        by (auto simp: z matches_from.simps [of r bef cs])
    next
      case False
      then have "m = z \<or> (\<exists>c cs'. rest_of x = c # cs' \<and> length cs' < length cs \<and> m \<in> set (matches_from r (c # text_before x) cs'))"
        using 1(3) Some by (auto simp: z matches_from.simps [of r bef cs] split: list.splits if_splits)
      then show ?thesis using 1(2) [OF Some z [symmetric] False] Some by blast
    qed
  qed
qed

lemma match_over: "only p r \<Longrightarrow> m \<in> set (match_all r s) \<Longrightarrow> list_all p (between (fst m) (snd m))"
proof -
  assume o: "only p r" and "m \<in> set (match_all r s)"
  then obtain b c where "find_from r b c = Some m" using match_in unfolding match_all_def by blast
  then have "snd m \<in> set (ways r (fst m))" by (metis find_way prod.collapse)
  then have "forward_in p (fst m) (snd m)" by (rule over.moves_ways [OF o])
  then show ?thesis using forward_between by blast
qed

lemma match_all_in_order: "in_order s (match_all r s)"
  by (simp add: match_all_def matches_in_order)

lemma between_none: "only p r \<Longrightarrow> (\<And>c. p c \<Longrightarrow> \<not> q c) \<Longrightarrow> m \<in> set (match_all r s) \<Longrightarrow> filter q (between (fst m) (snd m)) = []"
  using match_over [of p r m s] by (auto simp: filter_empty_conv list_all_iff)

lemma replace_filter:
  "only p r \<Longrightarrow> (\<And>c. p c \<Longrightarrow> \<not> q c) \<Longrightarrow> filter q w = [] \<Longrightarrow> filter q (replace_all r w s) = filter q s"
  unfolding replace_all_def replace_with_def
  by (rule rebuild_filter) (simp_all add: between_none match_all_in_order)

lemma split_filter:
  "only p r \<Longrightarrow> (\<And>c. p c \<Longrightarrow> \<not> q c) \<Longrightarrow> filter q (concat (split_re r s)) = filter q s"
  unfolding split_re_def by (rule pieces_filter) (simp_all add: between_none match_all_in_order)

lemma length_rebuild: "in_order s found \<Longrightarrow> length (rebuild (\<lambda>m. []) s found) \<le> length s"
proof (induction found arbitrary: s)
  case (Cons m found)
  obtain x y where m: "m = (x, y)" by (cases m)
  have "length (rebuild (\<lambda>m. []) (rest_of y) found) \<le> length (rest_of y)" using Cons by (simp add: m)
  moreover have p: "suffix (rest_of x) s" "rest_of x = between x y @ rest_of y"
    using Cons.prems by (auto simp only: m in_order.simps fst_conv snd_conv)
  moreover have "length (rest_of y) \<le> length (rest_of x)" using arg_cong [OF p(2), of length] by simp
  moreover have "length (rest_of x) \<le> length s" by (rule suffix_length_le [OF p(1)])
  ultimately show ?case by (simp add: m)
qed simp

lemma set_rebuild: "in_order s found \<Longrightarrow> set (rebuild (\<lambda>m. []) s found) \<subseteq> set s"
proof (induction found arbitrary: s)
  case (Cons m found)
  obtain x y where m: "m = (x, y)" by (cases m)
  have p: "suffix (rest_of x) s" "rest_of x = between x y @ rest_of y"
    using Cons.prems by (auto simp only: m in_order.simps fst_conv snd_conv)
  have "set (rest_of y) \<subseteq> set (rest_of x)" using arg_cong [OF p(2), of set] by auto
  moreover have "set (rest_of x) \<subseteq> set s" by (rule set_mono_suffix [OF p(1)])
  moreover have "set (rebuild (\<lambda>m. []) (rest_of y) found) \<subseteq> set (rest_of y)" using Cons by (simp add: m)
  ultimately show ?case by (auto simp: m dest: in_set_takeD)
qed simp

lemma exec_in_order: "exec r s = Some m \<Longrightarrow> in_order s [m]"
proof -
  assume e: "exec r s = Some m"
  obtain x y where m: "m = (x, y)" by (cases m)
  then have "forward (At [] s []) x" "forward x y" using e find_forward by (auto simp: exec_def)
  then have "suffix (rest_of x) s" "rest_of x = between x y @ rest_of y"
    using forward_between [of "\<lambda>c. True" x y] by (auto simp: forward_in_def suffix_def)
  then show ?thesis by (simp add: m)
qed

lemma length_replace_first: "length (replace_first r [] s) \<le> length s"
  using length_rebuild [OF exec_in_order] by (auto simp: replace_first_def split: option.split)

lemma set_replace_first: "set (replace_first r [] s) \<subseteq> set s"
  using set_rebuild [OF exec_in_order] by (auto simp: replace_first_def split: option.split)

end
