(* ===== verification/Truth.thy ===== *)
theory Truth
  imports Regex
begin

text \<open>
  \<open>src/routing/outboundTruth.ts\<close>: sentences that claim a change of approvals or settings, which the
  agent cannot make, are removed from what is sent.
\<close>

section \<open>The patterns\<close>

definition spaced :: "string list \<Rightarrow> rx" where
  "spaced vs = sq (tl (concat (map (\<lambda>w. [plus ws, lit_i w]) vs)))"

definition AUTO_APPROVE :: rx where
  "AUTO_APPROVE = sq [wb, lit_i ''auto'', opt (Cls (\<lambda>c. c = CHR ''-'' \<or> is_ws c)), lit_i ''approv'',
     words_i [''e'', ''es'', ''ed'', ''ing'', ''al'', ''als''], wb]"

definition NEGATION :: rx where
  "NEGATION = sq [wb, words_i [''not'', ''never'', ''cannot'', ''can't'', ''won't'', ''without'', ''don't'', ''do not'',
     ''did not'', ''didn't'', ''unable''], wb]"

definition plural :: "rx \<Rightarrow> rx" where
  "plural r = sq [r, opt (lit_i ''s'')]"

definition ADMIN_OBJECT :: rx where
  "ADMIN_OBJECT = sq [wb, either
     [plural (spaced [''background'', ''approval'']), plural (spaced [''approval'', ''setting'']),
      plural (spaced [''background'', ''permission'']), plural (spaced [''approval'', ''gate'']),
      sq [lit_i ''platform'', plus ws, plural (words_i [''approval'', ''permission'', ''setting''])],
      sq [lit_i ''promptql'', plus ws, plural (words_i [''approval'', ''permission'', ''setting''])]], wb]"

definition verb :: "string \<Rightarrow> string list \<Rightarrow> rx" where
  "verb stem endings = sq [lit_i stem, words_i endings]"

definition verb_opt :: "string \<Rightarrow> string list \<Rightarrow> rx" where
  "verb_opt stem endings = sq [lit_i stem, opt (words_i endings)]"

definition MUTATION :: rx where
  "MUTATION = sq [wb, either
     [verb_opt ''set'' [''ting''], verb_opt ''enable'' [''d'', ''s''], verb ''disabl'' [''e'', ''ed'', ''ing''],
      verb_opt ''turn'' [''ing'', ''ed''], verb_opt ''switch'' [''ing'', ''ed''], verb ''chang'' [''e'', ''ed'', ''ing''],
      verb ''updat'' [''e'', ''ed'', ''ing''], verb_opt ''bypass'' [''ed'', ''ing''],
      verb_opt ''grant'' [''ed'', ''ing''], verb ''configur'' [''e'', ''ed'', ''ing'']], wb]"

definition STATE_CHANGE :: rx where
  "STATE_CHANGE = sq [wb, words_i [''are'', ''is'', ''were'', ''was'', ''now'', ''been''], wb]"

definition STATE_WORD :: rx where
  "STATE_WORD = sq [wb, words_i [''enabled'', ''disabled'', ''automatic'', ''granted''], wb]"

section \<open>Removing the claims\<close>

definition isUnperformableAdminClaim :: "string \<Rightarrow> bool" where
  "isUnperformableAdminClaim sentence \<longleftrightarrow>
     (let text = trim sentence; negated = test NEGATION text in
      if text = [] then False
      else if test AUTO_APPROVE text then \<not> negated
      else if \<not> test ADMIN_OBJECT text then False
      else if negated then False
      else if test MUTATION text then True
      else test STATE_CHANGE text \<and> test STATE_WORD text)"

definition SENTENCE_GAP :: rx where
  "SENTENCE_GAP = sq [after (\<lambda>c. c \<in> set ''.!?''), plus ws]"

definition strip_line :: "string \<Rightarrow> string" where
  "strip_line line =
     join_with '' '' (filter (\<lambda>s. nonblank s \<and> \<not> isUnperformableAdminClaim s) (split_re SENTENCE_GAP line))"

definition strip_paragraph :: "string \<Rightarrow> string" where
  "strip_paragraph p = join_with nl (filter nonblank (map strip_line (split_on (CHR 10) p)))"

definition stripUnperformableAdminClaims :: "string \<Rightarrow> string" where
  "stripUnperformableAdminClaims text =
     (if text = [] then []
      else trim (replace_all (at_least 2 blank) '' ''
        (join_with (nl @ nl) (filter nonblank (map strip_paragraph (split_re (at_least 2 (lit nl)) text))))))"

section \<open>What is kept\<close>

text \<open>The sentences of a text, and its characters without the white space.\<close>

definition sentences :: "string \<Rightarrow> string list" where
  "sentences text = concat (map (split_re SENTENCE_GAP)
     (concat (map (split_on (CHR 10)) (split_re (at_least 2 (lit nl)) text))))"

definition marks :: "string \<Rightarrow> string" where
  "marks s = filter (\<lambda>c. \<not> is_ws c) s"

named_theorems marks_simps \<open>the marks of a composed text\<close>

lemma marks_basic [marks_simps]: "marks [] = []" "marks (s @ t) = marks s @ marks t" "is_ws c \<Longrightarrow> marks (c # s) = marks s"
  by (simp_all add: marks_def)

lemma marks_concat: "marks (concat xs) = concat (map marks xs)"
  by (induction xs) (simp_all add: marks_simps)

lemma marks_join: "marks w = [] \<Longrightarrow> marks (join_with w xs) = concat (map marks xs)"
  by (induction w xs rule: join_with.induct) (simp_all add: marks_simps)

lemma marks_split_on: "is_ws c \<Longrightarrow> concat (map marks (split_on c s)) = marks s"
  by (induction s) (auto simp: marks_def split: list.splits)

lemma marks_dropWhile: "marks (dropWhile is_ws s) = marks s"
  by (induction s) (auto simp: marks_def)

lemma marks_trim [marks_simps]: "marks (trim s) = marks s"
  by (simp add: trim_def trim_end_def trim_start_def marks_def rev_filter [symmetric])
     (metis marks_def marks_dropWhile rev_filter rev_rev_ident)

lemma marks_blank: "\<not> nonblank s \<Longrightarrow> marks s = []"
  using marks_trim [of s] by (simp add: nonblank_def marks_simps)

lemma marks_nonblank: "concat (map marks (filter nonblank xs)) = concat (map marks xs)"
  by (induction xs) (auto simp: marks_blank)

lemma is_ws_simps [simp]: "is_ws (CHR 10)" "is_ws (CHR '' '')" "is_ws (CHR 9)"
  by (simp_all add: is_ws_def)

lemma marks_spaces: "marks (nl @ nl) = []" "marks nl = []" "marks '' '' = []"
  by (simp_all add: nl_def marks_def)

lemma marks_split_re: "only is_ws r \<Longrightarrow> concat (map marks (split_re r s)) = marks s"
  using split_filter [of is_ws r "\<lambda>c. \<not> is_ws c" s] by (simp add: marks_concat [symmetric]) (simp add: marks_def)

lemma marks_replace: "only is_ws r \<Longrightarrow> marks w = [] \<Longrightarrow> marks (replace_all r w s) = marks s"
  using replace_filter [of is_ws r "\<lambda>c. \<not> is_ws c" w s] by (simp add: marks_def)

lemma only_ws: "only is_ws SENTENCE_GAP" "only is_ws (at_least 2 (lit nl))" "only is_ws (at_least 2 blank)"
  by (auto simp: SENTENCE_GAP_def rx_defs nl_def)

lemma marks_line:
  "\<forall>s \<in> set (split_re SENTENCE_GAP line). \<not> isUnperformableAdminClaim s \<Longrightarrow> marks (strip_line line) = marks line"
proof -
  assume "\<forall>s \<in> set (split_re SENTENCE_GAP line). \<not> isUnperformableAdminClaim s"
  then have "filter (\<lambda>s. nonblank s \<and> \<not> isUnperformableAdminClaim s) (split_re SENTENCE_GAP line)
      = filter nonblank (split_re SENTENCE_GAP line)"
    by (intro filter_cong) auto
  then show ?thesis
    by (simp add: strip_line_def marks_join marks_spaces marks_nonblank marks_split_re only_ws)
qed

lemma marks_lines:
  assumes "\<forall>line \<in> set lines. \<forall>s \<in> set (split_re SENTENCE_GAP line). \<not> isUnperformableAdminClaim s"
  shows "concat (map marks (map strip_line lines)) = concat (map marks lines)"
  using assms by (induction lines) (simp_all add: marks_line)

lemma marks_paragraphs:
  assumes "\<forall>p \<in> set ps. \<forall>line \<in> set (split_on (CHR 10) p). \<forall>s \<in> set (split_re SENTENCE_GAP line). \<not> isUnperformableAdminClaim s"
  shows "concat (map marks (map strip_paragraph ps)) = concat (map marks ps)"
  using assms
proof (induction ps)
  case (Cons p ps)
  then have "marks (strip_paragraph p) = marks p"
    by (simp add: strip_paragraph_def marks_join marks_spaces marks_nonblank marks_lines marks_split_on del: map_map)
  with Cons show ?case by simp
qed simp

section \<open>Properties\<close>

text \<open>Ordinary text is not touched: when no sentence of a text claims a change of approvals or
  settings, removing such claims keeps every character but the white space.\<close>

theorem ordinary_text_is_kept:
  assumes "\<forall>s \<in> set (sentences text). \<not> isUnperformableAdminClaim s"
  shows "marks (stripUnperformableAdminClaims text) = marks text"
proof -
  have "\<forall>p \<in> set (split_re (at_least 2 (lit nl)) text). \<forall>line \<in> set (split_on (CHR 10) p).
      \<forall>s \<in> set (split_re SENTENCE_GAP line). \<not> isUnperformableAdminClaim s"
    using assms by (auto simp: sentences_def)
  from marks_paragraphs [OF this] show ?thesis
    by (simp add: stripUnperformableAdminClaims_def marks_simps marks_replace marks_join marks_spaces marks_nonblank
        marks_split_re only_ws del: map_map)
qed

theorem ordinary_text_is_kept_witness:
  "marks (stripUnperformableAdminClaims ''Hi'') = ''Hi''"
proof -
  have "list_all (\<lambda>s. \<not> isUnperformableAdminClaim s) (sentences ''Hi'')" by code_simp
  from ordinary_text_is_kept [OF this [unfolded list_all_iff]] show ?thesis by (simp add: marks_def is_ws_def)
qed

lemma double_space_kept: "stripUnperformableAdminClaims ''Auto  approved'' = ''Auto approved''"
  by code_simp

lemma single_space_claims: "isUnperformableAdminClaim ''Auto approved''"
  by code_simp

text \<open>A claim with two spaces survives: the spaces are squeezed after the claims are removed.\<close>

theorem claim_survives_double_space:
  "stripUnperformableAdminClaims ''Auto  approved'' = ''Auto approved'' \<and> isUnperformableAdminClaim ''Auto approved''"
  using double_space_kept single_space_claims by blast

end
