(* ===== verification/Sanitizer.thy ===== *)
theory Sanitizer
  imports Truth Json
begin

text \<open>
  \<open>src/routing/sanitizer.ts\<close>: what is taken out of a text before it goes to WhatsApp, the short
  caption of a document, and the reasons that may be logged. The parts of a pattern that only
  match code units above 255 (the warning sign, the brain, long dashes, curly quotes, zero-width
  marks) are left out.
\<close>

section \<open>Constants\<close>

definition DOCUMENT_CAPTION_MAX_CHARS :: nat where "DOCUMENT_CAPTION_MAX_CHARS = 320"
definition DOCUMENT_CAPTION_MAX_LINES :: nat where "DOCUMENT_CAPTION_MAX_LINES = 4"
definition WHATSAPP_CAPTION_HARD_MAX :: nat where "WHATSAPP_CAPTION_HARD_MAX = 1024"

definition FAILURE_NOTE_RE :: rx where
  "FAILURE_NOTE_RE = sq [lit (nl @ nl), Grp 1 (sq [lit ''('', either [lit ''Attachment'', sq [plus digit, lit '' attachments'']],
     star (none_of [CHR '')'', CHR 10]), lit '')'']), eos]"

definition cancelled :: rx where
  "cancelled = sq [lit_i ''cancel'', opt (lit_i ''l''), lit_i ''ed'']"

definition run_cancelled_before :: rx where
  "run_cancelled_before = sq [wb, lit_i ''run '', opt (words_i [''was '', ''has been '']), cancelled,
     lit_i '' before it could finish'', wb]"

text \<open>The words of a phrase with white space between them.\<close>

definition phrase :: "rx list \<Rightarrow> rx" where
  "phrase rs = sq (tl (concat (map (\<lambda>r. [plus ws, r]) rs)))"

definition sept_s :: rx where "sept_s = sq [lit_i ''SEPT'', opt (lit [CHR 39]), lit_i ''s'']"

definition promptql_run_cancelled :: rx where
  "promptql_run_cancelled = sq [lit_i ''PromptQL'', plus ws, lit_i ''run'', plus ws, opt (sq [lit_i ''was'', plus ws]), cancelled]"

definition LIFECYCLE_SIGNAL :: rx where
  "LIFECYCLE_SIGNAL = either
     [lit_i ''interrupted_due_to_new_trigger'', run_cancelled_before,
      phrase [sept_s, lit_i ''run'', lit_i ''was'', cancelled], promptql_run_cancelled,
      sq [wb, lit_i ''SEPT was stopped'', wb],
      sq [either [bos, lit nl], star ws, words_i [''status'', ''run status'', ''error'', ''reason''], star ws, lit '':'', star ws,
        either [lit_i ''failed'', lit_i ''error'', cancelled, lit_i ''canceled'', lit_i ''interrupted''], wb]]"

definition SAFE_FAILURE_REASONS :: "string list" where
  "SAFE_FAILURE_REASONS = [''interrupted_due_to_new_trigger'', ''promptql_run_failed'', ''lifecycle_notice'', ''promptql_error'',
     ''promptql_envelope'', ''empty response'', ''chat_left'', ''PromptQL did not respond before the deadline.'']"

section \<open>Envelopes\<close>

definition isPromptQlEnvelopeOutbound :: "string \<Rightarrow> bool" where
  "isPromptQlEnvelopeOutbound text \<longleftrightarrow>
     (let trimmed = trim text in
      if trimmed = [] \<or> hd trimmed \<noteq> CHR ''{'' \<or> last trimmed \<noteq> CHR ''}'' then False
      else
        (case json_parse trimmed of
           Some (JObj kvs) \<Rightarrow>
             (case json_prop ''status'' kvs of
                Some (JStr st) \<Rightarrow>
                  nonblank st \<and>
                  (json_prop ''artifacts'' kvs \<noteq> None
                   \<or> (case json_prop ''project_name'' kvs of Some (JStr p) \<Rightarrow> p \<noteq> [] | _ \<Rightarrow> False)
                   \<or> json_prop ''approvals'' kvs \<noteq> None \<or> json_prop ''warnings'' kvs \<noteq> None)
              | _ \<Rightarrow> False)
         | _ \<Rightarrow> False))"

section \<open>Run identifiers and banners\<close>

definition ident_chars :: "char \<Rightarrow> bool" where
  "ident_chars c \<longleftrightarrow> is_alnum c \<or> c = CHR ''_'' \<or> c = CHR ''-''"

definition stripRunIdentifiers :: "string \<Rightarrow> string" where
  "stripRunIdentifiers text =
     replace_all (sq [wb, lit ''run_'', at_least 8 (Cls is_alnum), wb]) []
       (replace_all (sq [wb, words_i [''run_id'', ''thread_id'', ''thread_event_id'', ''run id'', ''thread id'', ''thread event id''],
          star ws, opt (one_of '':=#''), star ws, at_least 6 (Cls ident_chars), wb]) [] text)"

definition not_stop :: rx where "not_stop = none_of [CHR 10, CHR ''.'']"
definition not_end :: rx where "not_end = none_of [CHR 10, CHR ''.'', CHR ''!'', CHR ''?'']"

text \<open>In the order of the code; the two replacements that need a warning sign are left out.\<close>

definition stripLifecycleCopy :: "string \<Rightarrow> string" where
  "stripLifecycleCopy text =
     replace_all (sq [bol, words_i [''status'', ''run status'', ''error'', ''reason''], star ws, lit '':'', star ws,
        either [lit_i ''failed'', lit_i ''error'', cancelled, lit_i ''canceled'', lit_i ''interrupted'',
          lit_i ''interrupted_due_to_new_trigger''], wb, star not_nl, eol]) []
     (replace_all (sq [star not_end, run_cancelled_before, star not_end]) []
     (replace_all (sq [promptql_run_cancelled, star not_stop, opt (one_of ''.!'')]) []
     (replace_all (sq [bol, star blank, lit_i ''SEPT was stopped'', opt (lit ''.''), star blank, eol]) []
     (replace_all (sq [phrase [sept_s, lit_i ''run'', lit_i ''was'', cancelled, lit_i ''before'', lit_i ''it'', lit_i ''could'',
          lit_i ''finish''], opt (lit ''.'')]) []
     (replace_all (sq [star not_nl, lit_i ''interrupted_due_to_new_trigger'', star not_nl]) [] text)))))"

section \<open>Markdown\<close>

text \<open>Emphasis by \<open>n\<close> marks; \<open>guard\<close> is the class that may not stand beside it.\<close>

definition emphasis :: "(char \<Rightarrow> bool) \<Rightarrow> char \<Rightarrow> nat \<Rightarrow> rx" where
  "emphasis guard m n =
     (let edge = Cls (\<lambda>c. \<not> is_ws c \<and> c \<noteq> m) in
      sq [not_after guard, lit (replicate n m), Grp 1 (sq [edge, opt (sq [star_lazy (none_of [m, CHR 10]), edge])]),
        lit (replicate n m), Ahead False (Cls guard)])"

definition star_guard :: "char \<Rightarrow> bool" where "star_guard c \<longleftrightarrow> is_word c \<or> c = CHR ''*''"
definition tilde_guard :: "char \<Rightarrow> bool" where "tilde_guard c \<longleftrightarrow> c = CHR ''~''"

definition emphasis_pass :: "string \<Rightarrow> string" where
  "emphasis_pass s =
     foldl (\<lambda>s r. replace_with r (group_or_empty 1) s) s
       [emphasis star_guard (CHR ''*'') 3, emphasis star_guard (CHR ''*'') 2, emphasis star_guard (CHR ''*'') 1,
        emphasis is_word (CHR ''_'') 3, emphasis is_word (CHR ''_'') 2, emphasis is_word (CHR ''_'') 1,
        emphasis tilde_guard (CHR ''~'') 2]"

primrec emphasis_passes :: "nat \<Rightarrow> string \<Rightarrow> string" where
  "emphasis_passes 0 current = current"
| "emphasis_passes (Suc n) current =
     (let next = emphasis_pass current in if next = current then current else emphasis_passes n next)"

definition stripEmphasis :: "string \<Rightarrow> string" where
  "stripEmphasis text = emphasis_passes 3 text"

definition indent :: rx where "indent = from_to 0 3 blank"

definition fence :: rx where
  "fence = either [at_least 3 (lit ''`''), at_least 3 (lit ''~'')]"

definition closed_fence :: rx where
  "closed_fence = sq [Grp 1 (either [bos, lit nl]), indent, Grp 2 fence, star not_nl, lit nl, Grp 3 (star_lazy anyc), lit nl,
     indent, Bref 2, star blank, Ahead True (either [lit nl, eos])]"

definition unfenced :: "mstate \<times> mstate \<Rightarrow> string" where
  "unfenced m = group_or_empty 1 m @ replace_first (sq [lit nl, eos]) [] (group_or_empty 3 m)"

definition code_span :: "nat \<Rightarrow> rx" where
  "code_span n = sq [not_after (\<lambda>c. c = CHR ''`''), lit (replicate n (CHR ''`'')), Grp 1 (plus (none_of [CHR ''`'', CHR 10])),
     lit (replicate n (CHR ''`'')), Ahead False (lit ''`'')]"

definition linked :: "mstate \<times> mstate \<Rightarrow> string" where
  "linked m = group_or_empty 1 m @ '' ('' @ group_or_empty 2 m @ '')''"

definition https_i :: rx where "https_i = sq [lit_i ''http'', opt (lit_i ''s''), lit ''://'']"

text \<open>The replacements in the order of the code: blocks and code, emphasis, links.\<close>

definition strip_blocks :: "string \<Rightarrow> string" where
  "strip_blocks text =
     replace_all (sq [bol, indent, at_least 3 (one_of ''-*_''), star blank, eol]) []
     (replace_with (sq [bol, indent, from_to 1 6 (lit ''#''), plus blank, Grp 1 (plus_lazy dot), star blank, star (lit ''#''),
         star blank, eol]) (group_or_empty 1)
     (replace_all (sq [bol, indent, from_to 1 6 (lit ''#''), star blank, eol]) []
     (replace_with (code_span 1) (group_or_empty 1)
     (replace_with (code_span 2) (group_or_empty 1)
     (replace_all (sq [bol, indent, fence, star not_nl, eol]) []
     (replace_with closed_fence unfenced text))))))"

definition strip_markdown_links :: "string \<Rightarrow> string" where
  "strip_markdown_links text =
     replace_with (sq [lit ''['', Grp 1 (plus (none_of [CHR '']'', CHR 10])), lit '']('', star ws,
         Grp 2 (sq [lit ''http'', opt (lit ''s''), lit ''://'', plus (Cls (\<lambda>c. c \<noteq> CHR '')'' \<and> \<not> is_ws c))]), star ws, lit '')'']) linked
     (replace_with (sq [lit ''!['', Grp 1 (star (none_of [CHR '']'', CHR 10])), lit '']('', star (none_of [CHR '')'', CHR 10]), lit '')''])
        (group_or_empty 1) text)"

definition stripWhatsAppMarkdown :: "string \<Rightarrow> string" where
  "stripWhatsAppMarkdown text = strip_markdown_links (stripEmphasis (strip_blocks text))"

section \<open>The sanitizer\<close>

definition teach_gap :: rx where "teach_gap = star (Cls (\<lambda>c. is_ws c \<or> c = CHR ''-''))"

definition remove_teach :: "string \<Rightarrow> string" where
  "remove_teach text =
     replace_all (sq [lit_i ''teach'', teach_gap, lit_i ''sept'', wb, star not_nl]) []
     (replace_all (sq [bol, star not_nl, wb, lit_i ''teach'', either [sq [teach_gap, lit_i ''footer''], sq [teach_gap, lit_i ''sept'']], wb,
        star not_nl, eol]) []
     (replace_all (sq [lit ''['', star ws, lit_i ''teach'', teach_gap, lit_i ''sept'', star ws, lit '']('', star (none_of '')''), lit '')'']) [] text))"

definition url_rest :: "char \<Rightarrow> bool" where
  "url_rest c \<longleftrightarrow> \<not> is_ws c \<and> c \<noteq> CHR '')'' \<and> c \<noteq> CHR '']'' \<and> c \<noteq> CHR ''>''"

definition platform_host :: rx where
  "platform_host = sq [not_after (\<lambda>c. is_word c \<or> c = CHR ''.''), opt https_i,
     star (sq [plus (Cls (\<lambda>c. is_alnum c \<or> c = CHR ''-'')), lit ''.'']), lit_i ''ql.app'', opt (sq [lit ''/'', star (Cls url_rest)])]"

definition hex_i :: "char \<Rightarrow> bool" where
  "hex_i c \<longleftrightarrow> is_digit c \<or> c \<in> set ''abcdefABCDEF''"

definition remove_links :: "string \<Rightarrow> string" where
  "remove_links text =
     replace_all (sq [https_i, star (Cls url_rest), lit_i ''/api/v1/ephemeral-media/'', from_to 48 48 (Cls hex_i), wb]) []
     (replace_all platform_host []
     (replace_all (sq [lit ''['', star (none_of [CHR '']'', CHR 10]), lit '']('', star ws, star (none_of [CHR '')'', CHR 10]), lit_i ''ql.app'',
        star (none_of [CHR '')'', CHR 10]), lit '')'']) [] text))"

definition schemes :: "string list" where
  "schemes = [''wiki'', ''wiki-promptql'', ''federated-wiki'', ''thread'', ''artifact'']"

definition remove_schemes :: "string \<Rightarrow> string" where
  "remove_schemes text =
     replace_all (sq [words_i schemes, lit ''://'', plus (Cls (\<lambda>c. \<not> is_ws c \<and> c \<noteq> CHR '')''))]) []
     (replace_all (sq [lit ''<'', words_i schemes, lit ''://'', plus (none_of ''>''), lit ''>'']) []
     (replace_with (sq [lit ''['', Grp 1 (plus (none_of '']'')), lit '']('', star ws, either (map lit schemes), lit ''://'',
         plus (Cls (\<lambda>c. \<not> is_ws c \<and> c \<noteq> CHR '')'')), lit '')'']) (group_or_empty 1)
     (replace_with (sq [lit ''['', Grp 1 (plus (none_of '']'')), lit '']('', star ws, lit ''<'', plus (none_of ''>''), lit ''>'', star ws, lit '')''])
        (group_or_empty 1) text)))"

definition platform_tags :: "string list" where
  "platform_tags = [''artifact'', ''file_reference'', ''user_mention'', ''user_group_mention'', ''agent_mention'', ''room_reference'',
     ''wiki_page_reference'', ''thread_reference'', ''connect_integration'', ''connect_data_source'', ''cite'']"

definition remove_tags :: "string \<Rightarrow> string" where
  "remove_tags text =
     replace_all (sq [lit ''<'', opt (lit ''/''), words_i platform_tags, star (none_of ''>''), lit ''>'']) []
     (replace_all (sq [lit ''<'', words_i platform_tags, star (none_of ''>''), lit ''/>'']) [] text)"

definition remove_empty_links :: "string \<Rightarrow> string" where
  "remove_empty_links text =
     replace_all (sq [lit ''['', star (none_of [CHR '']'', CHR 10]), lit '']('', star ws, lit '')'']) []
     (replace_all (sq [lit ''['', star ws, lit '']('', star (none_of '')''), lit '')'']) [] text)"

definition debris :: "char \<Rightarrow> bool" where
  "debris c \<longleftrightarrow> is_ws c \<or> c \<in> set ''->:.()[]<>*#|~_''"

definition internal_marker :: rx where
  "internal_marker = sq [bos, words_i [''invoice link'', ''internal console'', ''user mention'', ''artifact tag'', ''run id'', ''thread id'',
     ''thread event id'', ''run_id'', ''thread_id'', ''thread_event_id''], star ws, opt (lit '':''), star ws, eos]"

definition keep_line :: "string \<Rightarrow> bool" where
  "keep_line line \<longleftrightarrow>
     (let trimmed = trim line in \<not> (trimmed \<noteq> [] \<and> list_all debris trimmed) \<and> \<not> test internal_marker trimmed)"

definition squeeze_lines :: "string \<Rightarrow> string" where
  "squeeze_lines s = trim (replace_all (at_least 3 (lit nl)) (nl @ nl) s)"

definition sanitizeOutboundText :: "string \<Rightarrow> string" where
  "sanitizeOutboundText text =
     (if text = [] \<or> isPromptQlEnvelopeOutbound text then []
      else
        (let s1 = replace_all (sq [lit_i ''<cite>'', star_lazy anyc, lit_i ''</cite>'']) [] text;
             s3 = stripLifecycleCopy (stripRunIdentifiers (remove_links (remove_teach s1)));
             s7 = stripWhatsAppMarkdown (remove_empty_links (remove_tags (remove_schemes s3)))
         in stripUnperformableAdminClaims (squeeze_lines (join_with nl (filter keep_line (split_on (CHR 10) s7))))))"

definition isLifecycleOnlyOutbound :: "string \<Rightarrow> bool" where
  "isLifecycleOnlyOutbound text \<longleftrightarrow>
     nonblank text \<and> test LIFECYCLE_SIGNAL text \<and> \<not> nonblank (sanitizeOutboundText text)"

definition outboundFailureReason :: "string \<Rightarrow> string" where
  "outboundFailureReason message =
     (let trimmed = trim message in
      if trimmed \<in> set SAFE_FAILURE_REASONS then trimmed
      else if test (lit_i ''interrupted_due_to_new_trigger'') trimmed then ''interrupted_due_to_new_trigger''
      else if isPromptQlEnvelopeOutbound trimmed then ''promptql_envelope''
      else if isLifecycleOnlyOutbound trimmed \<or> test LIFECYCLE_SIGNAL trimmed then ''lifecycle_notice''
      else if test (lit_i ''ql.app'') trimmed then ''promptql_run_failed''
      else if starts_with ''PromptQL error:'' trimmed \<or> starts_with ''PromptQL run '' trimmed then ''promptql_run_failed''
      else if 100 < length trimmed then ''promptql_run_failed''
      else trimmed)"

section \<open>Captions\<close>

definition splitFailureNote :: "string \<Rightarrow> string \<times> string option" where
  "splitFailureNote text =
     (case exec FAILURE_NOTE_RE text of
        None \<Rightarrow> (text, None)
      | Some m \<Rightarrow> (trim (take (length text - length (rest_of (fst m))) text), group_text 1 m))"

definition last_sentence_end :: "string \<Rightarrow> int" where
  "last_sentence_end s =
     (case rev (match_all (sq [one_of ''.!?'', Ahead True (either [ws, eos])]) s) of
        [] \<Rightarrow> - 1 | m # found \<Rightarrow> int (length s - length (rest_of (fst m))) + 1)"

definition clipAtBoundary :: "string \<Rightarrow> nat \<Rightarrow> string" where
  "clipAtBoundary text mx =
     (if length text \<le> mx then text
      else
        (let slice = take mx text; e = last_sentence_end slice;
             word = trim (replace_first (sq [plus ws, star nonws, eos]) [] slice)
         in if 40 \<le> e then trim (take (nat e) slice) else if 40 \<le> length word then word else trim slice))"

text \<open>The loop over the lines: kept so far and their number.\<close>

fun caption_lines :: "nat \<Rightarrow> string list \<Rightarrow> string list" where
  "caption_lines n [] = []"
| "caption_lines n (line # rest) =
     (if \<not> nonblank line then
        (if 0 < n \<and> n < DOCUMENT_CAPTION_MAX_LINES then [] # caption_lines n rest else caption_lines n rest)
      else if DOCUMENT_CAPTION_MAX_LINES \<le> n then []
      else trim_end line # caption_lines (n + 1) rest)"

definition shortenCaptionBody :: "string \<Rightarrow> string" where
  "shortenCaptionBody text =
     (let trimmed = trim text; lines = split_on (CHR 10) trimmed in
      if trimmed = [] then []
      else if length trimmed \<le> DOCUMENT_CAPTION_MAX_CHARS \<and> length (filter nonblank lines) \<le> DOCUMENT_CAPTION_MAX_LINES
      then trimmed
      else
        (let result = squeeze_lines (join_with nl (caption_lines 0 lines))
         in if DOCUMENT_CAPTION_MAX_CHARS < length result then clipAtBoundary result DOCUMENT_CAPTION_MAX_CHARS else result))"

definition with_note :: "string \<Rightarrow> string \<Rightarrow> string" where
  "with_note body note = (if body = [] then note else body @ nl @ nl @ note)"

definition documentCaption :: "string \<Rightarrow> string option \<Rightarrow> string" where
  "documentCaption text preservedPrefix =
     (case splitFailureNote (trim text) of
        (body, note) \<Rightarrow>
          (let prefix = (case preservedPrefix of None \<Rightarrow> [] | Some p \<Rightarrow> trim p);
               shortRest = shortenCaptionBody (trim (drop (length prefix) body));
               shortBody =
                 (if prefix \<noteq> [] \<and> (body = prefix \<or> starts_with (prefix @ nl) body)
                  then (if shortRest = [] then prefix else prefix @ nl @ nl @ shortRest)
                  else shortenCaptionBody body)
           in (case note of
                 None \<Rightarrow>
                   if length shortBody \<le> WHATSAPP_CAPTION_HARD_MAX then shortBody
                   else clipAtBoundary shortBody WHATSAPP_CAPTION_HARD_MAX
               | Some n \<Rightarrow>
                   if length (with_note shortBody n) \<le> WHATSAPP_CAPTION_HARD_MAX then with_note shortBody n
                   else
                     (let room = int WHATSAPP_CAPTION_HARD_MAX - int (length n + 2) in
                      if room < 1 then take WHATSAPP_CAPTION_HARD_MAX n
                      else with_note (clipAtBoundary shortBody (nat room)) n))))"

section \<open>The length of a caption\<close>

lemma length_trim: "length (trim s) \<le> length s"
  unfolding trim_def trim_end_def trim_start_def
  by (metis length_dropWhile_le length_rev order_trans)

lemma clip_fits: "length (clipAtBoundary s n) \<le> n"
proof -
  have "length (trim (take k (take n s))) \<le> n" for k
    using length_trim [of "take k (take n s)"] by simp
  moreover have "length (trim (replace_first r [] (take n s))) \<le> n" for r
    using length_trim [of "replace_first r [] (take n s)"] length_replace_first [of r "take n s"] by simp
  moreover have "length (trim (take n s)) \<le> n" using length_trim [of "take n s"] by simp
  ultimately show ?thesis by (simp add: clipAtBoundary_def Let_def)
qed

lemma note_fits: "length b + length n + 2 \<le> k \<Longrightarrow> length (with_note b n) \<le> k"
  by (simp add: with_note_def nl_def)

section \<open>Properties\<close>

text \<open>A document caption is never longer than what WhatsApp accepts.\<close>

theorem caption_fits: "length (documentCaption text preservedPrefix) \<le> WHATSAPP_CAPTION_HARD_MAX"
proof -
  have "length (with_note (clipAtBoundary b (nat (int WHATSAPP_CAPTION_HARD_MAX - int (length n + 2)))) n) \<le> WHATSAPP_CAPTION_HARD_MAX"
    if "\<not> int WHATSAPP_CAPTION_HARD_MAX - int (length n + 2) < 1" for b n
    using that clip_fits [of b "nat (int WHATSAPP_CAPTION_HARD_MAX - int (length n + 2))"] by (intro note_fits) linarith
  then show ?thesis
    by (auto simp: documentCaption_def Let_def clip_fits split: prod.split option.split)
qed

lemma safe_reasons: "list_all (\<lambda>r. length r \<le> 100 \<and> \<not> test (lit_i ''ql.app'') r) SAFE_FAILURE_REASONS"
  by code_simp

text \<open>A reason that may be logged is short and has no internal link, and it has no banner of a cancelled
  run unless it is one of the fixed codes.\<close>

theorem failure_reason_is_safe:
  "length (outboundFailureReason m) \<le> 100 \<and> \<not> test (lit_i ''ql.app'') (outboundFailureReason m)
   \<and> (outboundFailureReason m \<in> set SAFE_FAILURE_REASONS \<or> test LIFECYCLE_SIGNAL (outboundFailureReason m) = False)"
proof -
  have "r \<in> set SAFE_FAILURE_REASONS \<Longrightarrow> length r \<le> 100 \<and> \<not> test (lit_i ''ql.app'') r" for r
    using safe_reasons by (auto simp: list_all_iff)
  moreover have "{''interrupted_due_to_new_trigger'', ''promptql_envelope'', ''lifecycle_notice'', ''promptql_run_failed''}
      \<subseteq> set SAFE_FAILURE_REASONS"
    by (simp add: SAFE_FAILURE_REASONS_def)
  ultimately show ?thesis
    unfolding outboundFailureReason_def Let_def by (auto simp: not_less)
qed

section \<open>A link that survives\<close>

lemma stages:
  "isPromptQlEnvelopeOutbound ''ql.*app*'' = False"
  "replace_all (sq [lit_i ''<cite>'', star_lazy anyc, lit_i ''</cite>'']) [] ''ql.*app*'' = ''ql.*app*''"
  "remove_empty_links ''ql.*app*'' = ''ql.*app*''"
  by code_simp+

lemma stage_teach: "remove_teach ''ql.*app*'' = ''ql.*app*''" by code_simp
lemma stage_links: "remove_links ''ql.*app*'' = ''ql.*app*''" by code_simp
lemma stage_runs: "stripRunIdentifiers ''ql.*app*'' = ''ql.*app*''" by code_simp
lemma stage_lifecycle: "stripLifecycleCopy ''ql.*app*'' = ''ql.*app*''" by code_simp
lemma stage_schemes: "remove_schemes ''ql.*app*'' = ''ql.*app*''" by code_simp
lemma stage_tags: "remove_tags ''ql.*app*'' = ''ql.*app*''" by code_simp
lemma stage_blocks: "strip_blocks ''ql.*app*'' = ''ql.*app*''" by code_simp
lemma stage_emphasis: "emphasis_pass ''ql.*app*'' = ''ql.app''" by code_simp
lemma stage_plain: "emphasis_pass ''ql.app'' = ''ql.app''" by code_simp
lemma stage_md_links: "strip_markdown_links ''ql.app'' = ''ql.app''" by code_simp

lemma stage_markdown: "stripWhatsAppMarkdown ''ql.*app*'' = ''ql.app''"
  by (simp add: stripWhatsAppMarkdown_def stripEmphasis_def numeral_3_eq_3 stage_blocks stage_emphasis stage_plain stage_md_links)

lemma stage_lines: "squeeze_lines (join_with nl (filter keep_line (split_on (CHR 10) ''ql.app''))) = ''ql.app''" by code_simp
lemma stage_claims: "stripUnperformableAdminClaims ''ql.app'' = ''ql.app''" by code_simp
lemma host_shown: "test platform_host ''ql.app''" by code_simp

text \<open>A platform address with emphasis marks inside it leaves as a platform address: the marks are removed after
  the addresses are.\<close>

theorem emphasised_link_survives:
  "sanitizeOutboundText ''ql.*app*'' = ''ql.app'' \<and> test platform_host (sanitizeOutboundText ''ql.*app*'')"
proof -
  have "sanitizeOutboundText ''ql.*app*'' = ''ql.app''"
    by (simp only: sanitizeOutboundText_def Let_def stages stage_teach stage_links stage_runs stage_lifecycle stage_schemes
        stage_tags stage_markdown stage_lines stage_claims list.distinct simp_thms if_False)
  then show ?thesis using host_shown by simp
qed

end
