(* ===== verification/Blocks.thy ===== *)
theory Blocks
  imports Json Regex Crypto
begin

text \<open>
  The first part of \<open>src/promptql/promptqlAdapter.ts\<close>: what a tool call may return, the references
  in an answer, the bytes in its content blocks, how a PDF is told from other bytes, and how the
  state of a run is read. An unknown value is a parsed JSON value. A character of a downloaded text
  outside Latin-1 reads as \<open>CHR 26\<close>. The URL parser of the platform is the parameter \<open>parse\<close>.
\<close>

section \<open>Texts of bytes\<close>

text \<open>The decoder of \<open>toString("utf8")\<close>: a broken sequence becomes one U+FFFD.\<close>

definition REPLACEMENT :: nat where "REPLACEMENT = 65533"

definition continues :: "nat \<Rightarrow> nat \<Rightarrow> byte \<Rightarrow> bool" where
  "continues lo hi b \<longleftrightarrow> lo \<le> unat b \<and> unat b \<le> hi"

fun utf8_points :: "bytes \<Rightarrow> nat list" where
  "utf8_points [] = []"
| "utf8_points (b # bs) =
     (let n = unat b in
      if n < 128 then n # utf8_points bs
      else if 194 \<le> n \<and> n \<le> 223 then
        (case bs of
           c # cs \<Rightarrow> if continues 128 191 c then ((n - 192) * 64 + (unat c - 128)) # utf8_points cs
             else REPLACEMENT # utf8_points (c # cs)
         | [] \<Rightarrow> [REPLACEMENT])
      else if 224 \<le> n \<and> n \<le> 239 then
        (case bs of
           c # cs \<Rightarrow>
             if \<not> continues (if n = 224 then 160 else 128) (if n = 237 then 159 else 191) c then REPLACEMENT # utf8_points (c # cs)
             else (case cs of
                 d # ds \<Rightarrow> if continues 128 191 d
                   then ((n - 224) * 4096 + (unat c - 128) * 64 + (unat d - 128)) # utf8_points ds
                   else REPLACEMENT # utf8_points (d # ds)
               | [] \<Rightarrow> [REPLACEMENT])
         | [] \<Rightarrow> [REPLACEMENT])
      else if 240 \<le> n \<and> n \<le> 244 then
        (case bs of
           c # cs \<Rightarrow>
             if \<not> continues (if n = 240 then 144 else 128) (if n = 244 then 143 else 191) c then REPLACEMENT # utf8_points (c # cs)
             else (case cs of
                 d # ds \<Rightarrow>
                   if \<not> continues 128 191 d then REPLACEMENT # utf8_points (d # ds)
                   else (case ds of
                       e # es \<Rightarrow> if continues 128 191 e
                         then ((n - 240) * 262144 + (unat c - 128) * 4096 + (unat d - 128) * 64 + (unat e - 128)) # utf8_points es
                         else REPLACEMENT # utf8_points (e # es)
                     | [] \<Rightarrow> [REPLACEMENT])
               | [] \<Rightarrow> [REPLACEMENT])
         | [] \<Rightarrow> [REPLACEMENT])
      else REPLACEMENT # utf8_points bs)"

definition text_of_bytes :: "bytes \<Rightarrow> string" where
  "text_of_bytes bs = map (\<lambda>n. if n < 256 then char_of n else CHR 26) (utf8_points bs)"

definition latin1 :: "bytes \<Rightarrow> string" where
  "latin1 bs = map (\<lambda>b. char_of (unat b)) bs"

section \<open>Base64\<close>

definition base64_value :: "char \<Rightarrow> nat" where
  "base64_value c =
     (if is_upper c then of_char c - 65 else if is_lower c then of_char c - 71 else if is_digit c then of_char c + 4
      else if c = CHR ''+'' then 62 else 63)"

definition base64_char :: "char \<Rightarrow> bool" where
  "base64_char c \<longleftrightarrow> is_alnum c \<or> c = CHR ''+'' \<or> c = CHR ''/''"

definition BASE64_RE :: "string \<Rightarrow> bool" where
  "BASE64_RE s \<longleftrightarrow> (let body = takeWhile base64_char s; tail = dropWhile base64_char s in body \<noteq> [] \<and> tail \<in> {[], ''='', ''==''})"

text \<open>Full groups of four; the last one may lack one or two bytes.\<close>

fun base64_groups :: "nat list \<Rightarrow> bytes" where
  "base64_groups (a # b # c # d # vs) =
     (let n = a * 262144 + b * 4096 + c * 64 + d
      in of_nat (n div 65536) # of_nat (n div 256 mod 256) # of_nat (n mod 256) # base64_groups vs)"
| "base64_groups [a, b, c] = (let n = a * 4096 + b * 64 + c in [of_nat (n div 1024), of_nat (n div 4 mod 256)])"
| "base64_groups [a, b] = [of_nat ((a * 64 + b) div 16)]"
| "base64_groups vs = []"

definition decodeBase64 :: "string \<Rightarrow> bytes option" where
  "decodeBase64 s =
     (if \<not> BASE64_RE s \<or> length s mod 4 \<noteq> 0 then None
      else Some (base64_groups (map base64_value (takeWhile base64_char s))))"

section \<open>Content blocks\<close>

record mcp_resource =
  rs_text :: "string option"
  rs_blob :: "string option"
  rs_mime :: "string option"
  rs_uri :: "string option"

record mcp_block =
  bk_type :: "string option"
  bk_text :: "string option"
  bk_data :: "string option"
  bk_mime :: "string option"
  bk_resource :: "mcp_resource option"

fun McpResourceSchema :: "json \<Rightarrow> mcp_resource option" where
  "McpResourceSchema (JObj kvs) =
     (case (optional_text ''text'' kvs, optional_text ''blob'' kvs, optional_text ''mimeType'' kvs, optional_text ''uri'' kvs) of
        (Some t, Some b, Some m, Some u) \<Rightarrow> Some \<lparr>rs_text = t, rs_blob = b, rs_mime = m, rs_uri = u\<rparr>
      | _ \<Rightarrow> None)"
| "McpResourceSchema j = None"

fun McpContentBlockSchema :: "json \<Rightarrow> mcp_block option" where
  "McpContentBlockSchema (JObj kvs) =
     (case (optional_text ''type'' kvs, optional_text ''text'' kvs, optional_text ''data'' kvs, optional_text ''mimeType'' kvs,
         case json_prop ''resource'' kvs of None \<Rightarrow> Some None | Some j \<Rightarrow> map_option Some (McpResourceSchema j)) of
        (Some ty, Some t, Some d, Some m, Some r) \<Rightarrow>
          Some \<lparr>bk_type = ty, bk_text = t, bk_data = d, bk_mime = m, bk_resource = r\<rparr>
      | _ \<Rightarrow> None)"
| "McpContentBlockSchema j = None"

fun contentBlocks :: "json \<Rightarrow> mcp_block list" where
  "contentBlocks (JObj kvs) =
     (case json_prop ''content'' kvs of Some (JArr xs) \<Rightarrow> List.map_filter McpContentBlockSchema xs | _ \<Rightarrow> [])"
| "contentBlocks j = []"

definition first_of :: "'a option \<Rightarrow> 'a option \<Rightarrow> 'a option" where
  "first_of a b = (case a of None \<Rightarrow> b | Some x \<Rightarrow> Some x)"

text \<open>The bytes a text decodes to, if any.\<close>

definition some_bytes :: "string option \<Rightarrow> bytes option" where
  "some_bytes s =
     (case Option.bind s decodeBase64 of None \<Rightarrow> None | Some bs \<Rightarrow> if bs = [] then None else Some bs)"

definition filled :: "string option \<Rightarrow> string option" where
  "filled s = (if s = Some [] then None else s)"

definition resource_bytes :: "mcp_resource \<Rightarrow> bytes option" where
  "resource_bytes r = first_of (some_bytes (rs_blob r)) (map_option utf8_encode (filled (rs_text r)))"

definition blockBytes :: "mcp_block \<Rightarrow> (bytes \<times> string option) option" where
  "blockBytes b =
     (case some_bytes (bk_data b) of
        Some bs \<Rightarrow> Some (bs, bk_mime b)
      | None \<Rightarrow>
         (case Option.bind (bk_resource b) resource_bytes of
            Some bs \<Rightarrow> Some (bs, first_of (Option.bind (bk_resource b) rs_mime) (bk_mime b))
          | None \<Rightarrow>
              (case filled (bk_text b) of
                 Some t \<Rightarrow> if bk_type b = Some ''text'' then Some (utf8_encode t, bk_mime b) else None
               | None \<Rightarrow> None)))"

section \<open>PDF bytes\<close>

definition PDF_HEADER :: bytes where "PDF_HEADER = [0x25, 0x50, 0x44, 0x46, 0x2d]"

definition isPdfHeader :: "bytes \<Rightarrow> nat \<Rightarrow> bool" where
  "isPdfHeader bs i \<longleftrightarrow> take 5 (drop i bs) = PDF_HEADER"

definition pdf_start :: "bytes \<Rightarrow> nat" where
  "pdf_start bs =
     (let i = (if take 3 bs = [0xef, 0xbb, 0xbf] then 3 else 0)
      in i + length (takeWhile (\<lambda>b. b \<in> {0x20, 0x09, 0x0a, 0x0d}) (drop i bs)))"

definition pdfPayload :: "bytes \<Rightarrow> bool \<Rightarrow> bytes option" where
  "pdfPayload bs allowPreamble =
     (if length bs < 5 then None
      else if isPdfHeader bs (pdf_start bs) then Some (drop (pdf_start bs) bs)
      else if \<not> allowPreamble then None
      else map_option (\<lambda>j. drop j bs) (find (isPdfHeader bs) [0..<min (length bs - 5) 1024 + 1]))"

definition drop_ws :: "string \<Rightarrow> string" where
  "drop_ws s = filter (\<lambda>c. \<not> is_ws c) s"

definition encoded_char :: "char \<Rightarrow> bool" where
  "encoded_char c \<longleftrightarrow> base64_char c \<or> c = CHR ''='' \<or> c = CHR 13 \<or> c = CHR 10"

definition data_url :: rx where
  "data_url = sq [lit_i ''data:application/pdf;base64,'', Grp 1 (plus (Cls encoded_char))]"

definition embeddedPdfBytes :: "bytes \<Rightarrow> bytes option" where
  "embeddedPdfBytes bs =
     (if length bs < 16 \<or> 8000000 < length bs then None
      else
        (let head = latin1 (take 1500000 bs); trimmed = trim head;
             from_url = Option.bind (Option.bind (exec_group 1 data_url head) (\<lambda>g. decodeBase64 (drop_ws g))) (\<lambda>d. pdfPayload d True);
             whole = (if 20 \<le> length trimmed then Option.bind (decodeBase64 trimmed) (\<lambda>d. pdfPayload d False) else None);
             from_run = Option.bind (exec (lit ''JVBERi0'') head) (\<lambda>m.
               let run = drop_ws (takeWhile encoded_char (rest_of (fst m)));
                   padded = take (length run - length run mod 4) run
               in if length padded < 16 then None else Option.bind (decodeBase64 padded) (\<lambda>d. pdfPayload d True))
         in first_of from_url (first_of whole from_run)))"

definition mime_or_empty :: "string option \<Rightarrow> string" where
  "mime_or_empty mime = mime_base (case mime of None \<Rightarrow> [] | Some m \<Rightarrow> m)"

definition directPdf :: "bytes \<Rightarrow> string option \<Rightarrow> bytes option" where
  "directPdf bs mime = pdfPayload bs (mime_or_empty mime \<in> {''application/pdf'', ''application/octet-stream''})"

definition bytesFromMcpResult :: "json \<Rightarrow> (bytes \<times> string option) option" where
  "bytesFromMcpResult raw =
     (let extracted = filter (\<lambda>x. fst x \<noteq> []) (List.map_filter blockBytes (contentBlocks raw))
      in first_of (find (\<lambda>(bs, m). directPdf bs m \<noteq> None) extracted)
        (first_of (find (\<lambda>(bs, m). embeddedPdfBytes bs \<noteq> None) extracted)
          (case extracted of [] \<Rightarrow> None | x # xs \<Rightarrow> Some x)))"

definition looksLikePdf :: "bytes \<Rightarrow> bool" where
  "looksLikePdf bs \<longleftrightarrow> pdfPayload bs False \<noteq> None"

definition looksLikeHtmlBytes :: "bytes \<Rightarrow> bool" where
  "looksLikeHtmlBytes bs \<longleftrightarrow> \<not> looksLikePdf bs \<and>
     (let start = take 512 bs;
          head = lowercase (trim_start (text_of_bytes (if take 3 start = [0xef, 0xbb, 0xbf] then drop 3 start else start)))
      in list_ex (\<lambda>p. starts_with p head) [''<!doctype html'', ''<html'', ''<head'', ''<body''])"

section \<open>Links to files\<close>

record url =
  ur_protocol :: string
  ur_username :: string
  ur_password :: string
  ur_hostname :: string
  ur_pathname :: string

definition ipv4_parts :: "string \<Rightarrow> nat list option" where
  "ipv4_parts host =
     (let ps = split_on (CHR ''.'') host in
      if length ps = 4 \<and> list_all (\<lambda>p. p \<noteq> [] \<and> length p \<le> 3 \<and> list_all is_digit p) ps
      then Some (map read_nat ps) else None)"

definition isPrivateAddress :: "string \<Rightarrow> bool" where
  "isPrivateAddress host =
     (case ipv4_parts host of
        Some ps \<Rightarrow>
          (let a = ps ! 0; b = ps ! 1 in
           list_ex (\<lambda>p. 255 < p) ps \<or> a = 0 \<or> a = 10 \<or> a = 127 \<or> (a = 169 \<and> b = 254) \<or> (a = 172 \<and> 16 \<le> b \<and> b \<le> 31)
           \<or> (a = 192 \<and> b = 168) \<or> (a = 100 \<and> 64 \<le> b \<and> b \<le> 127))
      | None \<Rightarrow>
          CHR '':'' \<in> set host \<and>
          (host = ''::1'' \<or> host = ''::'' \<or> starts_with ''fc'' host \<or> starts_with ''fd'' host \<or> starts_with ''fe80'' host))"

definition url_host :: "url \<Rightarrow> string" where
  "url_host u =
     (let h = lowercase (ur_hostname u); h1 = (if starts_with ''['' h then tl h else h)
      in if ends_with '']'' h1 then butlast h1 else h1)"

definition isFetchablePdfUrl :: "(string \<Rightarrow> url option) \<Rightarrow> string \<Rightarrow> string option \<Rightarrow> bool" where
  "isFetchablePdfUrl parse uri mime =
     (case parse uri of
        None \<Rightarrow> False
      | Some u \<Rightarrow>
          (let host = url_host u in
           if ur_protocol u \<noteq> ''https:'' \<or> ur_username u \<noteq> [] \<or> ur_password u \<noteq> [] then False
           else if host = ''localhost'' \<or> ends_with ''.localhost'' host \<or> ends_with ''.local'' host \<or> ends_with ''.internal'' host
             \<or> host = ''ql.app'' \<or> ends_with ''.ql.app'' host \<or> host = ''metadata.google.internal'' \<or> isPrivateAddress host then False
           else if mime_or_empty mime \<in> {''application/pdf'', ''application/octet-stream''} then True
           else ends_with ''.pdf'' (lowercase (ur_pathname u))))"

definition block_uris :: "(string \<Rightarrow> url option) \<Rightarrow> mcp_block \<Rightarrow> string list" where
  "block_uris parse b =
     (let mime = first_of (Option.bind (bk_resource b) rs_mime) (bk_mime b);
          candidates = [Option.bind (bk_resource b) rs_uri] @
            (case bk_text b of Some t \<Rightarrow> if bk_type b = Some ''text'' then [Some (trim t)] else [] | None \<Rightarrow> [])
      in filter (\<lambda>c. isFetchablePdfUrl parse c mime) (List.map_filter filled candidates))"

text \<open>\<open>Set\<close> order: a repeated link counts where it was first.\<close>

definition distinct_first :: "'a list \<Rightarrow> 'a list" where
  "distinct_first xs = rev (foldl (\<lambda>seen x. if x \<in> set seen then seen else x # seen) [] xs)"

definition pdfResourceUris :: "(string \<Rightarrow> url option) \<Rightarrow> json \<Rightarrow> string list" where
  "pdfResourceUris parse raw = distinct_first (concat (map (block_uris parse) (contentBlocks raw)))"

definition invoice_id_re :: rx where
  "invoice_id_re = sq [wb, opt (lit_i ''SEPT-''), lit_i ''INV-'', at_least 3 digit]"

definition invoiceFactText :: "bytes \<Rightarrow> string option" where
  "invoiceFactText bs =
     (if 200000 < length bs then None
      else
        (let start = take 8000 bs; raw = text_of_bytes start;
             stripped = take 2000 (trim (replace_all (plus ws) '' '' (replace_all (sq [lit ''<'', plus (none_of ''>''), lit ''>'']) '' '' raw)))
         in if \<not> test invoice_id_re raw then None
            else if stripped = [] \<or> 10 < length (filter (\<lambda>n. n = REPLACEMENT) (utf8_points start)) then None
            else Some stripped))"

section \<open>The state of a run\<close>

definition TERMINAL_RUN_STATUSES :: "string list" where
  "TERMINAL_RUN_STATUSES = [''failed'', ''error'', ''cancelled'', ''canceled'', ''interrupted'', ''interrupted_due_to_new_trigger'']"

fun statusToken :: "json \<Rightarrow> string option" where
  "statusToken (JStr v) =
     (let raw = trim v in
      if raw = [] \<or> 64 < length raw \<or> (list_ex is_ws raw \<and> 40 < length raw) then None
      else Some (replace_runs (\<lambda>c. is_ws c \<or> c = CHR ''-'') ''_'' (lowercase raw)))"
| "statusToken j = None"

definition cancel_banner :: rx where
  "cancel_banner =
     (let cancelled = sq [lit_i ''cancel'', opt (lit_i ''l''), lit_i ''ed''] in
      either [lit_i ''interrupted_due_to_new_trigger'',
        sq [wb, lit_i ''run '', opt (words_i [''was '', ''has been '']), cancelled, lit_i '' before it could finish'', wb],
        sq [wb, lit_i ''run was '', cancelled, wb]])"

definition looksLikeCancelBanner :: "string \<Rightarrow> bool" where
  "looksLikeCancelBanner v \<longleftrightarrow> test cancel_banner v"

text \<open>The text of a tool result is often its structured content again, as JSON.\<close>

definition wait_envelope :: "(string \<times> json) list \<Rightarrow> bool" where
  "wait_envelope kvs \<longleftrightarrow>
     (\<exists>s \<in> set_option (json_prop ''status'' kvs). case s of JStr v \<Rightarrow> True | _ \<Rightarrow> False)
     \<and> (json_prop ''artifacts'' kvs \<noteq> None
        \<or> (case json_prop ''project_name'' kvs of Some (JStr v) \<Rightarrow> True | _ \<Rightarrow> False)
        \<or> json_prop ''approvals'' kvs \<noteq> None \<or> json_prop ''warnings'' kvs \<noteq> None)"

definition message_in :: "json option \<Rightarrow> string option" where
  "message_in j = (case j of Some (JStr m) \<Rightarrow> if nonblank m then Some m else None | _ \<Rightarrow> None)"

definition clientFacingWaitMessage :: "json option \<Rightarrow> string \<Rightarrow> string" where
  "clientFacingWaitMessage structured fallback =
     (case message_in structured of
        Some m \<Rightarrow> m
      | None \<Rightarrow>
          (let text = trim fallback in
           if text = [] \<or> hd text \<noteq> CHR ''{'' \<or> last text \<noteq> CHR ''}'' then text
           else
             (case json_parse text of
                Some (JObj kvs) \<Rightarrow>
                  if wait_envelope kvs
                  then (case message_in (json_prop ''message'' kvs) of Some m \<Rightarrow> m | None \<Rightarrow> [])
                  else text
              | _ \<Rightarrow> text)))"

definition as_record :: "json option \<Rightarrow> (string \<times> json) list" where
  "as_record j = (case j of Some (JObj kvs) \<Rightarrow> kvs | _ \<Rightarrow> [])"

fun text_field :: "json option \<Rightarrow> string option" where
  "text_field (Some (JStr s)) = Some s"
| "text_field j = None"

definition run_tokens :: "(string \<times> json) list \<Rightarrow> string list" where
  "run_tokens sc =
     (let error = as_record (json_prop ''error'' sc) in
      List.map_filter (\<lambda>j. Option.bind j statusToken)
        (map (\<lambda>k. json_prop k sc) [''status'', ''reason'', ''error_code'', ''code'', ''cancellation_reason'', ''interrupt_reason'']
         @ map (\<lambda>k. json_prop k error) [''code'', ''reason'', ''status'', ''type'']
         @ [json_prop ''error'' sc]))"

definition terminalFailureCode :: "(string \<times> json) list \<Rightarrow> string option" where
  "terminalFailureCode sc =
     (let tokens = run_tokens sc;
          blob = join_with nl (List.map_filter (\<lambda>k. text_field (json_prop k sc))
            [''status'', ''reason'', ''cancellation_reason'', ''interrupt_reason''])
      in if list_ex (includes_str ''interrupted_due_to_new_trigger'') tokens then Some ''interrupted_due_to_new_trigger''
         else if list_ex (\<lambda>t. t \<in> set TERMINAL_RUN_STATUSES) tokens then Some ''promptql_run_failed''
         else if looksLikeCancelBanner blob then
           Some (if test (lit_i ''interrupted_due_to_new_trigger'') blob then ''interrupted_due_to_new_trigger'' else ''lifecycle_notice'')
         else None)"

end
