(* ===== verification/Artifacts.thy ===== *)
theory Artifacts
  imports Blocks
begin

text \<open>
  The artifacts of an answer (\<open>src/promptql/promptqlAdapter.ts\<close>): the references in its text, the
  listings, which files are wanted and in what order, the name a file gets, and the decoding of a
  download into something that may be sent. The download of a link is the parameter \<open>fetch\<close>.
\<close>

section \<open>Types\<close>

record artifact_ref =
  rf_identifier :: string
  rf_type :: "string option"

record resolved =
  rv_identifier :: string
  rv_title :: string
  rv_file :: string
  rv_mime :: string
  rv_bytes :: bytes

datatype failure_reason = TooLarge | Unavailable | NotAttachable

datatype outcome = Resolved resolved | Dropped string failure_reason "string option"

record response_artifact =
  ra_identifier :: string
  ra_title :: "string option"
  ra_type :: "string option"
  ra_id :: string
  ra_version :: "nat option"

section \<open>Reading what the server lists\<close>

text \<open>A version may be a number or its digits; \<open>None\<close> is a refusal.\<close>

definition CoercedVersion :: "json option \<Rightarrow> nat option option" where
  "CoercedVersion j =
     (case j of
        None \<Rightarrow> Some None
      | Some JNull \<Rightarrow> Some None
      | Some (JStr s) \<Rightarrow> if s \<noteq> [] \<and> list_all is_digit s then Some (Some (read_nat s)) else None
      | Some v \<Rightarrow> map_option Some (json_nat v))"

fun artifact_reference :: "json \<Rightarrow> (string \<times> nat option) option" where
  "artifact_reference (JObj kvs) =
     (case (required_text ''artifact_id'' kvs, CoercedVersion (json_prop ''version'' kvs)) of
        (Some i, Some v) \<Rightarrow> Some (i, v) | _ \<Rightarrow> None)"
| "artifact_reference j = None"

fun ResponseArtifactSchema :: "json \<Rightarrow> response_artifact option" where
  "ResponseArtifactSchema (JObj kvs) =
     (case (required_text ''identifier'' kvs, nullish_text ''title'' kvs, nullish_text ''artifact_type'' kvs,
         Option.bind (json_prop ''artifact_reference'' kvs) artifact_reference) of
        (Some i, Some t, Some ty, Some (aid, v)) \<Rightarrow>
          Some \<lparr>ra_identifier = i, ra_title = t, ra_type = ty, ra_id = aid, ra_version = v\<rparr>
      | _ \<Rightarrow> None)"
| "ResponseArtifactSchema j = None"

definition parseResponseArtifacts :: "json option \<Rightarrow> response_artifact list" where
  "parseResponseArtifacts raw = (case raw of Some (JArr xs) \<Rightarrow> List.map_filter ResponseArtifactSchema xs | _ \<Rightarrow> [])"

record listed =
  ls_identifier :: string
  ls_title :: "string option"
  ls_type :: "string option"
  ls_mime :: "string option"
  ls_content_type :: "string option"
  ls_id :: "string option"
  ls_version :: "nat option"
  ls_file_type :: "string option"
  ls_file_name :: "string option"

text \<open>\<open>metadata.file\<close> with its content type and name; both levels may be missing.\<close>

definition optional_object :: "string \<Rightarrow> (string \<times> json) list \<Rightarrow> (string \<times> json) list option" where
  "optional_object k kvs = (case json_prop k kvs of None \<Rightarrow> Some [] | Some (JObj xs) \<Rightarrow> Some xs | _ \<Rightarrow> None)"

definition file_metadata :: "(string \<times> json) list \<Rightarrow> (string option \<times> string option) option" where
  "file_metadata kvs =
     (case Option.bind (optional_object ''metadata'' kvs) (optional_object ''file'') of
        None \<Rightarrow> None
      | Some f \<Rightarrow>
          (case (optional_text ''content_type'' f, optional_text ''file_name'' f) of
             (Some c, Some n) \<Rightarrow> Some (c, n) | _ \<Rightarrow> None))"

text \<open>\<open>ListedArtifactSchema\<close> with \<open>artifactIdOf\<close>.\<close>

definition listed_reference :: "(string \<times> json) list \<Rightarrow> (string \<times> nat option) option option" where
  "listed_reference kvs =
     (case json_prop ''artifact_reference'' kvs of None \<Rightarrow> Some None | Some j \<Rightarrow> map_option Some (artifact_reference j))"

definition ListedArtifactSchema :: "(string \<times> json) list \<Rightarrow> listed option" where
  "ListedArtifactSchema kvs =
     (case (required_text ''identifier'' kvs, nullish_text ''title'' kvs, nullish_text ''artifact_type'' kvs,
         nullish_text ''mime_type'' kvs, nullish_text ''content_type'' kvs) of
        (Some i, Some t, Some ty, Some m, Some ct) \<Rightarrow>
          (case (optional_filled ''artifact_id'' kvs, optional_filled ''id'' kvs, CoercedVersion (json_prop ''version'' kvs),
              listed_reference kvs, file_metadata kvs) of
             (Some aid, Some did, Some v, Some r, Some (ft, fn)) \<Rightarrow>
               Some \<lparr>ls_identifier = i, ls_title = t, ls_type = ty, ls_mime = m, ls_content_type = ct,
                 ls_id = first_of (map_option fst r) (first_of aid did), ls_version = first_of (Option.bind r snd) v,
                 ls_file_type = ft, ls_file_name = fn\<rparr>
           | _ \<Rightarrow> None)
      | _ \<Rightarrow> None)"

definition visited_keys :: "string list" where
  "visited_keys = [''artifacts'', ''items'', ''results'', ''data'', ''structuredContent'', ''content'', ''text'']"

text \<open>\<open>visit\<close>; the fuel is what is left of a depth of 7.\<close>

primrec visit :: "nat \<Rightarrow> json \<Rightarrow> listed list" where
  "visit 0 node = []"
| "visit (Suc n) node =
     (case node of
        JStr s \<Rightarrow>
          (let t = trim s in
           if 1000000 < length t \<or> (\<not> starts_with ''{'' t \<and> \<not> starts_with ''['' t) then []
           else (case json_parse t of None \<Rightarrow> [] | Some j \<Rightarrow> visit n j))
      | JArr xs \<Rightarrow> concat (map (visit n) xs)
      | JObj kvs \<Rightarrow>
          (case ListedArtifactSchema kvs of Some l \<Rightarrow> if ls_id l \<noteq> None then [l] else [] | None \<Rightarrow> [])
          @ concat (map (\<lambda>k. case json_prop k kvs of None \<Rightarrow> [] | Some j \<Rightarrow> visit n j) visited_keys)
      | _ \<Rightarrow> [])"

definition parseListedArtifacts :: "json option \<Rightarrow> listed list" where
  "parseListedArtifacts v = (case v of None \<Rightarrow> [] | Some j \<Rightarrow> visit 7 j)"

section \<open>References in a text\<close>

definition ARTIFACT_TAG :: rx where
  "ARTIFACT_TAG = sq [lit_i ''<artifact'', wb, star (none_of ''>''), opt (lit ''/''), lit ''>'']"

definition attr :: "string \<Rightarrow> rx" where
  "attr name = sq [wb, lit_i name, star ws, lit ''='', star ws, lit [CHR 34], Grp 1 (star (none_of [CHR 34])), lit [CHR 34]]"

definition attr_text :: "string \<Rightarrow> string \<Rightarrow> string option" where
  "attr_text name tag = filled (map_option trim (exec_group 1 (attr name) tag))"

fun refs_in :: "string list \<Rightarrow> string list \<Rightarrow> artifact_ref list" where
  "refs_in seen [] = []"
| "refs_in seen (tag # tags) =
     (case attr_text ''identifier'' tag of
        None \<Rightarrow> refs_in seen tags
      | Some i \<Rightarrow>
          if i \<in> set seen then refs_in seen tags
          else \<lparr>rf_identifier = i, rf_type = attr_text ''type'' tag\<rparr> # refs_in (i # seen) tags)"

definition parseArtifactRefs :: "string \<Rightarrow> string \<times> artifact_ref list" where
  "parseArtifactRefs text =
     (let tags = map (\<lambda>m. between (fst m) (snd m)) (match_all ARTIFACT_TAG text);
          marked = replace_all (sq [bol, star blank, ARTIFACT_TAG, star blank, eol]) [CHR 0x00] text;
          bare = replace_all ARTIFACT_TAG [] marked;
          joined = replace_all (sq [opt (lit nl), lit [CHR 0x00], opt (lit nl)]) nl bare;
          squeezed = replace_all (at_least 2 (lit '' '')) '' '' joined;
          ended = replace_all (sq [plus blank, lit nl]) nl squeezed
      in (trim (replace_all (at_least 3 (lit nl)) (nl @ nl) ended), refs_in [] tags))"

section \<open>Which files are sent\<close>

definition TYPE_MIME :: "(string \<times> string) list" where
  "TYPE_MIME = [(''text'', ''text/plain''), (''markdown'', ''text/markdown''), (''md'', ''text/markdown''), (''table'', ''text/csv''),
     (''csv'', ''text/csv''), (''json'', ''application/json''), (''html'', ''text/html''), (''svg'', ''image/svg+xml''),
     (''png'', ''image/png''), (''jpeg'', ''image/jpeg''), (''jpg'', ''image/jpeg''), (''pdf'', ''application/pdf'')]"

definition mimeForType :: "string option \<Rightarrow> string option" where
  "mimeForType ty = Option.bind (filled ty) (\<lambda>t. map_of TYPE_MIME (lowercase t))"

definition MIME_EXT :: "(string \<times> string) list" where
  "MIME_EXT = [(''text/plain'', ''.txt''), (''text/markdown'', ''.md''), (''text/csv'', ''.csv''), (''application/json'', ''.json''),
     (''text/html'', ''.html''), (''image/svg+xml'', ''.svg''), (''image/png'', ''.png''), (''image/jpeg'', ''.jpg''),
     (''application/pdf'', ''.pdf'')]"

definition WHATSAPP_BLOCKED_MIME :: "string list" where
  "WHATSAPP_BLOCKED_MIME = [''application/json'', ''text/markdown'', ''text/x-markdown'', ''text/html'', ''application/xhtml+xml'']"

definition NON_ATTACHABLE_ARTIFACT_TYPES :: "string list" where
  "NON_ATTACHABLE_ARTIFACT_TYPES = [''json'', ''markdown'', ''md'', ''table'', ''html'']"

definition isWhatsAppAttachableMime :: "string \<Rightarrow> bool" where
  "isWhatsAppAttachableMime mime \<longleftrightarrow> mime_base mime \<noteq> [] \<and> mime_base mime \<notin> set WHATSAPP_BLOCKED_MIME"

definition isAttachableArtifactType :: "string option \<Rightarrow> bool" where
  "isAttachableArtifactType ty = (case filled ty of None \<Rightarrow> True | Some t \<Rightarrow> lowercase t \<notin> set NON_ATTACHABLE_ARTIFACT_TYPES)"

definition or_empty :: "string option \<Rightarrow> string" where
  "or_empty s = (case s of None \<Rightarrow> [] | Some t \<Rightarrow> t)"

definition invoice_name :: rx where
  "invoice_name = either [lit ''invoice'', sq [lit ''sept'', opt (one_of ''_-''), lit ''inv'', wb], lit ''sept_invoice'', lit ''_invoice_'']"

definition isInvoiceArtifactRef :: "string \<Rightarrow> string option \<Rightarrow> bool" where
  "isInvoiceArtifactRef identifier title \<longleftrightarrow> test invoice_name (lowercase (identifier @ '' '' @ or_empty title))"

definition isInvoiceListingName :: "string \<Rightarrow> bool" where
  "isInvoiceListingName name \<longleftrightarrow> test (either [lit ''invoice'', sq [lit ''sept'', one_of ''_-'', lit ''inv'', wb]]) name"

datatype pdf_mode = InvoiceMode | DocumentMode

record candidate =
  cd_identifier :: string
  cd_title :: "string option"
  cd_type :: "string option"
  cd_id :: string
  cd_version :: "nat option"
  cd_rank :: nat

definition listing_name :: "listed \<Rightarrow> string" where
  "listing_name l = lowercase (ls_identifier l @ '' '' @ or_empty (ls_title l) @ '' '' @ or_empty (ls_file_name l))"

definition listing_rank :: "pdf_mode \<Rightarrow> listed \<Rightarrow> nat option" where
  "listing_rank mode l =
     (let ty = lowercase (or_empty (ls_type l)); name = listing_name l;
          mime = mime_base (or_empty (first_of (ls_mime l) (first_of (ls_content_type l) (ls_file_type l))))
      in if mode = DocumentMode \<and> isInvoiceListingName name then None
         else if ty \<in> set NON_ATTACHABLE_ARTIFACT_TYPES \<and> \<not> (mode = InvoiceMode \<and> isInvoiceListingName name) then None
         else if mime = ''application/pdf'' \<or> ty = ''pdf'' then Some 0
         else if ends_with ''.pdf'' name
           \<or> (mode = DocumentMode \<and> list_ex (\<lambda>w. includes_str w name) [''lookbook'', ''catalog'', ''brochure'', ''deck'']) then Some 1
         else if mode = InvoiceMode \<and> isInvoiceListingName name then Some 2
         else if ty = ''file'' \<or> ty = ''document'' then Some 3
         else None)"

fun candidates :: "pdf_mode \<Rightarrow> string list \<Rightarrow> listed list \<Rightarrow> candidate list" where
  "candidates mode seen [] = []"
| "candidates mode seen (l # ls) =
     (case (ls_id l, listing_rank mode l) of
        (Some i, Some r) \<Rightarrow>
          if i \<in> set seen then candidates mode seen ls
          else \<lparr>cd_identifier = ls_identifier l, cd_title = ls_title l, cd_type = ls_type l, cd_id = i,
                 cd_version = ls_version l, cd_rank = r\<rparr> # candidates mode (i # seen) ls
      | _ \<Rightarrow> candidates mode seen ls)"

text \<open>\<open>sort\<close> is stable.\<close>

definition rankStoredPdfCandidates :: "listed list \<Rightarrow> pdf_mode \<Rightarrow> candidate list" where
  "rankStoredPdfCandidates ls mode = sort_key cd_rank (candidates mode [] ls)"

definition html_name :: rx where
  "html_name = sq [lit_i ''.htm'', opt (lit_i ''l''), either [wb, eos]]"

definition selectable :: "response_artifact \<Rightarrow> bool" where
  "selectable a \<longleftrightarrow>
     (let t = lowercase (or_empty (ra_type a)); name = ra_identifier a @ '' '' @ or_empty (ra_title a) in
      if \<not> isAttachableArtifactType (Some t) then False
      else if test html_name name then False
      else if t \<in> {''file'', ''pdf'', ''document''} then True
      else if t \<in> {''png'', ''jpeg'', ''jpg'', ''image'', ''visualization''} then True
      else t = [] \<and>
        (isInvoiceArtifactRef (ra_identifier a) (ra_title a)
         \<or> test (either [sq [lit_i ''.pdf'', wb], lit_i ''lookbook'', lit_i ''catalog'', lit_i ''brochure'']) name))"

definition pdfish :: "response_artifact \<Rightarrow> bool" where
  "pdfish a \<longleftrightarrow> lowercase (or_empty (ra_type a)) \<in> {''pdf'', ''file'', ''document''} \<or> isInvoiceArtifactRef (ra_identifier a) (ra_title a)"

definition selectDocumentArtifactRefs :: "response_artifact list \<Rightarrow> artifact_ref list" where
  "selectDocumentArtifactRefs artifacts =
     (let cs = filter selectable artifacts; ps = filter pdfish cs; chosen = (if ps \<noteq> [] then ps else cs)
      in map (\<lambda>a. \<lparr>rf_identifier = ra_identifier a,
           rf_type = Some (case ra_type a of None \<Rightarrow> ''file'' | Some t \<Rightarrow> t)\<rparr>) chosen)"

definition is_pdf_outcome :: "outcome \<Rightarrow> bool" where
  "is_pdf_outcome out \<longleftrightarrow> (case out of Resolved a \<Rightarrow> mime_base (rv_mime a) = ''application/pdf'' | _ \<Rightarrow> False)"

fun drop_sidecar :: "outcome \<Rightarrow> outcome" where
  "drop_sidecar (Resolved a) =
     (if mime_base (rv_mime a) = ''application/pdf'' \<or> starts_with ''image/'' (mime_base (rv_mime a)) then Resolved a
      else if isInvoiceArtifactRef (rv_identifier a) (Some (rv_title a)) then Dropped (rv_identifier a) NotAttachable None
      else Resolved a)"
| "drop_sidecar (Dropped i r f) = Dropped i r f"

definition preferPdfInvoiceArtifacts :: "outcome list \<Rightarrow> outcome list" where
  "preferPdfInvoiceArtifacts outs = (if list_ex is_pdf_outcome outs then map drop_sidecar outs else outs)"

section \<open>Names of files\<close>

definition name_char :: "char \<Rightarrow> bool" where
  "name_char c \<longleftrightarrow> is_alnum c \<or> c = CHR ''.'' \<or> c = CHR ''_'' \<or> c = CHR ''-''"

definition known_suffix :: rx where
  "known_suffix = sq [lit ''.'', either [sq [lit_i ''htm'', opt (lit_i ''l'')], lit_i ''json'', lit_i ''md'', lit_i ''txt'', lit_i ''csv''], eos]"

definition or_else :: "string \<Rightarrow> string \<Rightarrow> string" where
  "or_else s d = (if s = [] then d else s)"

definition title_leaf :: "string \<Rightarrow> string" where
  "title_leaf title = trim (last (split_on (CHR ''/'') (map (\<lambda>c. if c = CHR 92 then CHR ''/'' else c) title)))"

definition clean_leaf :: "string \<Rightarrow> string" where
  "clean_leaf leaf =
     trim (replace_runs (\<lambda>c. c = CHR '' '') '' ''
       (map (\<lambda>c. if name_char c \<or> c = CHR '' '' then c else CHR ''_'') (replace_runs is_eol '' '' leaf)))"

definition sanitizeArtifactFileName :: "string option \<Rightarrow> string \<Rightarrow> string option" where
  "sanitizeArtifactFileName title ext =
     (case filled title of
        None \<Rightarrow> None
      | Some t \<Rightarrow>
          (let leaf = title_leaf t; cleaned = clean_leaf leaf;
               safe = take 180 (map (\<lambda>c. if c = CHR '' '' then CHR ''_'' else c) cleaned); lower = lowercase safe in
           if leaf \<in> {[], ''.'', ''..''} then None
           else if cleaned \<in> {[], ''.'', ''..''} then None
           else if safe = [] then None
           else if ext = ''.pdf'' \<and> \<not> ends_with ''.pdf'' lower
             then Some (or_else (replace_first known_suffix [] safe) ''document'' @ ''.pdf'')
           else if list_ex (\<lambda>e. ends_with e lower) (map snd MIME_EXT) then Some safe
           else if ext = [] \<or> ext = ''.'' \<or> ends_with ext lower then Some safe
           else Some (safe @ ext)))"

definition type_ext :: "string option \<Rightarrow> string" where
  "type_ext ty =
     (case filled ty of
        None \<Rightarrow> [] | Some t \<Rightarrow> take 8 (''.'' @ filter (\<lambda>c. is_lower c \<or> is_digit c) (lowercase t)))"

definition artifactFileName :: "string \<Rightarrow> string option \<Rightarrow> string \<Rightarrow> string option \<Rightarrow> string" where
  "artifactFileName identifier ty mime title =
     (let ext = (case map_of MIME_EXT (trim (before_char (CHR '';'') mime)) of Some e \<Rightarrow> e | None \<Rightarrow> type_ext ty)
      in case sanitizeArtifactFileName title ext of
           Some n \<Rightarrow> n
         | None \<Rightarrow>
             (let safeId = or_else (take 128 (map (\<lambda>c. if name_char c then c else CHR ''_'') identifier)) ''artifact'';
                  base = (if starts_with ''artifact'' safeId then safeId else ''artifact-'' @ safeId)
              in if ends_with ext base \<or> ext = ''.'' then base else base @ ext))"

section \<open>Decoding a download\<close>

text \<open>A response to the download of a link: its status, where it ended, the announced length, the chunks.\<close>

record http_response =
  hr_ok :: bool
  hr_url :: string
  hr_length :: nat
  hr_chunks :: "bytes list option"

fun read_chunks :: "nat \<Rightarrow> bytes \<Rightarrow> bytes list \<Rightarrow> bytes option" where
  "read_chunks mx acc [] = Some acc"
| "read_chunks mx acc (c # cs) = (if mx < length (acc @ c) then None else read_chunks mx (acc @ c) cs)"

text \<open>\<open>None\<close> where it returns \<open>null\<close> or throws: its caller treats both alike.\<close>

definition fetchPdfUrl ::
  "(string \<Rightarrow> url option) \<Rightarrow> (string \<Rightarrow> http_response option) \<Rightarrow> string \<Rightarrow> nat \<Rightarrow> bytes option" where
  "fetchPdfUrl parse fetch uri maxBytes =
     (if \<not> isFetchablePdfUrl parse uri (Some ''application/pdf'') then None
      else
        (case fetch uri of
           None \<Rightarrow> None
         | Some r \<Rightarrow>
             if \<not> hr_ok r \<or> (hr_url r \<noteq> [] \<and> \<not> isFetchablePdfUrl parse (hr_url r) (Some ''application/pdf'')) \<or> maxBytes < hr_length r
             then None
             else Option.bind (hr_chunks r) (\<lambda>cs. Option.bind (read_chunks maxBytes [] cs) (\<lambda>bs. pdfPayload bs True))))"

fun first_pdf :: "(string \<Rightarrow> bytes option) \<Rightarrow> string list \<Rightarrow> bytes option" where
  "first_pdf get [] = None"
| "first_pdf get (u # us) = (case get u of Some bs \<Rightarrow> Some bs | None \<Rightarrow> first_pdf get us)"

definition decodeArtifact ::
  "(string \<Rightarrow> url option) \<Rightarrow> (string \<Rightarrow> http_response option) \<Rightarrow> artifact_ref \<Rightarrow> response_artifact \<Rightarrow> json \<Rightarrow> nat
    \<Rightarrow> (failure_reason \<times> string option) + resolved" where
  "decodeArtifact parse fetch ref art raw maxBytes =
     (let ty = first_of (rf_type ref) (ra_type art);
          title = (case ra_title art of None \<Rightarrow> rf_identifier ref | Some t \<Rightarrow> t);
          extracted = bytesFromMcpResult raw;
          bs = (case extracted of None \<Rightarrow> [] | Some (b, m) \<Rightarrow> b);
          hint = Option.bind extracted snd;
          here = (if bs = [] then None else first_of (directPdf bs hint) (embeddedPdfBytes bs));
          pdf = first_of here (first_pdf (\<lambda>u. fetchPdfUrl parse fetch u maxBytes) (pdfResourceUris parse raw));
          make = (\<lambda>mime data. \<lparr>rv_identifier = rf_identifier ref, rv_title = title,
             rv_file = artifactFileName (rf_identifier ref) ty mime (Some title), rv_mime = mime, rv_bytes = data\<rparr>)
      in case pdf of
           Some p \<Rightarrow> if maxBytes < length p then Inl (TooLarge, None) else Inr (make ''application/pdf'' p)
         | None \<Rightarrow>
             if bs = [] then Inl (Unavailable, None)
             else if maxBytes < length bs then Inl (TooLarge, invoiceFactText bs)
             else
               (let declared = (case first_of hint (mimeForType ty) of None \<Rightarrow> ''application/octet-stream'' | Some m \<Rightarrow> m);
                    mime = (if looksLikeHtmlBytes bs then ''text/html'' else declared);
                    dump = (isInvoiceArtifactRef (rf_identifier ref) (Some title) \<and> mime_base mime = ''text/plain'')
                in if \<not> isWhatsAppAttachableMime mime \<or> dump then Inl (NotAttachable, invoiceFactText bs)
                   else Inr (make mime bs)))"

section \<open>What a payload is\<close>

lemma payload_header:
  assumes "pdfPayload bs b = Some p"
  shows "isPdfHeader p 0"
proof -
  have "isPdfHeader bs j \<Longrightarrow> isPdfHeader (drop j bs) 0" for j by (simp add: isPdfHeader_def)
  with assms show ?thesis
    by (auto simp: pdfPayload_def find_Some_iff split: if_splits)
qed

lemma header_is_pdf: "isPdfHeader p 0 \<Longrightarrow> looksLikePdf p"
proof -
  assume h: "isPdfHeader p 0"
  then obtain r where p: "p = PDF_HEADER @ r"
    by (metis append_take_drop_id drop0 isPdfHeader_def)
  then have "pdf_start p = 0" by (simp add: pdf_start_def PDF_HEADER_def)
  moreover have "5 \<le> length p" by (simp add: p PDF_HEADER_def)
  ultimately show ?thesis using h by (simp add: looksLikePdf_def pdfPayload_def)
qed

lemma direct_header: "directPdf bs m = Some p \<Longrightarrow> isPdfHeader p 0"
  using payload_header by (auto simp: directPdf_def)

lemma embedded_header: "embeddedPdfBytes bs = Some p \<Longrightarrow> isPdfHeader p 0"
  using payload_header
  by (fastforce simp: embeddedPdfBytes_def Let_def first_of_def bind_eq_Some_conv split: if_splits option.splits)

lemma fetched_header: "fetchPdfUrl parse fetch u mx = Some p \<Longrightarrow> isPdfHeader p 0"
  using payload_header by (auto simp: fetchPdfUrl_def bind_eq_Some_conv split: if_splits option.splits)

lemma first_pdf_header: "(\<And>u p. get u = Some p \<Longrightarrow> isPdfHeader p 0) \<Longrightarrow> first_pdf get us = Some p \<Longrightarrow> isPdfHeader p 0"
  by (induction us) (auto split: option.splits)

section \<open>What a file is called\<close>

lemma char_classes: "is_lower c \<Longrightarrow> name_char c" "is_digit c \<Longrightarrow> name_char c" "name_char (CHR ''_'')" "name_char (CHR ''.'')"
  "name_char (CHR ''-'')"
  by (simp_all add: name_char_def is_alnum_def)

lemma mime_ext_chars: "map_of MIME_EXT m = Some e \<Longrightarrow> list_all name_char e"
proof -
  have "list_all (\<lambda>x. list_all name_char (snd x)) MIME_EXT" by code_simp
  then show "map_of MIME_EXT m = Some e \<Longrightarrow> list_all name_char e" by (auto simp: list_all_iff dest: map_of_SomeD)
qed

lemma type_ext_chars: "list_all name_char (type_ext ty)"
  by (auto simp: type_ext_def list_all_iff char_classes split: option.split dest!: in_set_takeD)

lemma set_replace_runs: "set (replace_from p w b s) \<subseteq> set w \<union> {c \<in> set s. \<not> p c}"
  by (induction s arbitrary: b) auto

lemma clean_leaf_chars: "c \<in> set (clean_leaf leaf) \<Longrightarrow> name_char c \<or> c = CHR '' ''"
proof -
  assume "c \<in> set (clean_leaf leaf)"
  then have "c \<in> set (replace_runs (\<lambda>c. c = CHR '' '') '' ''
       (map (\<lambda>c. if name_char c \<or> c = CHR '' '' then c else CHR ''_'') (replace_runs is_eol '' '' leaf)))"
    unfolding clean_leaf_def using set_trim by blast
  then show ?thesis
    using set_replace_runs [of "\<lambda>c. c = CHR '' ''" "'' ''" False]
    by (fastforce simp: replace_runs_def char_classes)
qed

lemma sanitized_name_chars:
  assumes "sanitizeArtifactFileName title ext = Some n" "list_all name_char ext"
  shows "list_all name_char n"
proof -
  have safe: "list_all name_char (take 180 (map (\<lambda>c. if c = CHR '' '' then CHR ''_'' else c) (clean_leaf leaf)))" for leaf
    using clean_leaf_chars by (fastforce simp: list_all_iff char_classes dest: in_set_takeD)
  have suffix: "list_all name_char s \<Longrightarrow> list_all name_char (or_else (replace_first known_suffix [] s) ''document'' @ ''.pdf'')" for s
    using set_replace_first [of known_suffix s]
    by (auto simp: or_else_def list_all_iff name_char_def is_alnum_def is_lower_def)
  show ?thesis
    using assms safe suffix by (auto simp: sanitizeArtifactFileName_def Let_def list_all_append split: option.splits if_splits)
qed

lemma file_name_chars: "list_all name_char (artifactFileName identifier ty mime title)"
proof -
  have e: "list_all name_char (case map_of MIME_EXT m of Some e \<Rightarrow> e | None \<Rightarrow> type_ext ty)" for m
    using mime_ext_chars type_ext_chars by (auto split: option.split)
  have "list_all name_char ''artifact''" "list_all name_char ''artifact-''" by code_simp+
  moreover have "list_all name_char (take 128 (map (\<lambda>c. if name_char c then c else CHR ''_'') identifier))"
    by (auto simp: list_all_iff char_classes dest!: in_set_takeD)
  ultimately show ?thesis
    using e sanitized_name_chars
    by (auto simp: artifactFileName_def Let_def or_else_def list_all_append split: option.split)
qed

section \<open>What is decoded\<close>

lemma pdf_mime_sent: "isWhatsAppAttachableMime ''application/pdf''" "\<not> isWhatsAppAttachableMime ''text/html''"
  by code_simp+

lemma found_header:
  assumes "first_of (if bs = [] then None else first_of (directPdf bs hint) (embeddedPdfBytes bs))
      (first_pdf (\<lambda>u. fetchPdfUrl parse fetch u mx) us) = Some p"
  shows "isPdfHeader p 0"
  using assms direct_header embedded_header first_pdf_header [OF fetched_header]
  by (auto simp: first_of_def split: option.splits if_splits)

lemma decoded_file: "decodeArtifact parse fetch ref art raw mx = Inr a \<Longrightarrow> list_all name_char (rv_file a)"
  unfolding decodeArtifact_def Let_def by (auto simp: file_name_chars split: option.splits if_splits)

lemma decoded_size: "decodeArtifact parse fetch ref art raw mx = Inr a \<Longrightarrow> length (rv_bytes a) \<le> mx"
  unfolding decodeArtifact_def Let_def by (auto split: option.splits if_splits)

lemma decoded_cases:
  assumes "decodeArtifact parse fetch ref art raw mx = Inr a"
  shows "isPdfHeader (rv_bytes a) 0 \<and> rv_mime a = ''application/pdf''
    \<or> rv_bytes a \<noteq> [] \<and> isWhatsAppAttachableMime (rv_mime a) \<and> \<not> looksLikeHtmlBytes (rv_bytes a)"
proof -
  define bs where "bs = (case bytesFromMcpResult raw of None \<Rightarrow> [] | Some (b, m) \<Rightarrow> b)"
  define pdf where "pdf = first_of (if bs = [] then None else first_of (directPdf bs (Option.bind (bytesFromMcpResult raw) snd)) (embeddedPdfBytes bs))
      (first_pdf (\<lambda>u. fetchPdfUrl parse fetch u mx) (pdfResourceUris parse raw))"
  note d = decodeArtifact_def Let_def bs_def [symmetric] pdf_def [symmetric]
  show ?thesis
  proof (cases pdf)
    case (Some p)
    then have "isPdfHeader p 0" using found_header unfolding pdf_def by blast
    with assms Some show ?thesis unfolding d by (auto split: if_splits)
  next
    case None
    with assms show ?thesis unfolding d by (auto simp: pdf_mime_sent split: if_splits)
  qed
qed

section \<open>Properties\<close>

text \<open>C30: Whatever the server returns, what a download is decoded to may be sent: it is not larger than the cap, has
  a mime type WhatsApp takes and is not a HTML page, a PDF begins with its header, and its file name
  consists of letters, digits, dots, dashes and underscores, so it has no path and no line break.\<close>

theorem decoded_artifacts_are_safe:
  assumes "decodeArtifact parse fetch ref art raw maxBytes = Inr a"
  shows "length (rv_bytes a) \<le> maxBytes \<and> rv_bytes a \<noteq> [] \<and> isWhatsAppAttachableMime (rv_mime a)
    \<and> \<not> looksLikeHtmlBytes (rv_bytes a) \<and> list_all name_char (rv_file a)"
  using decoded_cases [OF assms]
proof
  assume "isPdfHeader (rv_bytes a) 0 \<and> rv_mime a = ''application/pdf''"
  then show ?thesis using header_is_pdf decoded_file [OF assms] decoded_size [OF assms] pdf_mime_sent
    by (auto simp: looksLikeHtmlBytes_def isPdfHeader_def PDF_HEADER_def)
next
  assume "rv_bytes a \<noteq> [] \<and> isWhatsAppAttachableMime (rv_mime a) \<and> \<not> looksLikeHtmlBytes (rv_bytes a)"
  then show ?thesis using decoded_file [OF assms] decoded_size [OF assms] by simp
qed

definition sample_ref :: artifact_ref where "sample_ref = \<lparr>rf_identifier = ''a'', rf_type = None\<rparr>"

definition sample_artifact :: response_artifact where
  "sample_artifact = \<lparr>ra_identifier = ''a'', ra_title = None, ra_type = None, ra_id = ''1'', ra_version = Some 0\<rparr>"

definition sample_download :: json where
  "sample_download = JObj [(''content'', JArr [JObj [(''type'', JStr ''text''), (''text'', JStr ''hi'')]])]"

lemma sample_decoded:
  "decodeArtifact (\<lambda>u. None) (\<lambda>u. None) sample_ref sample_artifact sample_download 100
   = Inr \<lparr>rv_identifier = ''a'', rv_title = ''a'', rv_file = ''a'', rv_mime = ''application/octet-stream'', rv_bytes = [104, 105]\<rparr>"
  by code_simp

theorem decoded_artifacts_are_safe_witness:
  "isWhatsAppAttachableMime ''application/octet-stream'' \<and> \<not> looksLikeHtmlBytes [104, 105] \<and> list_all name_char ''a''"
  using decoded_artifacts_are_safe [OF sample_decoded] by simp

end
