(* ===== verification/InvoicePdf.thy ===== *)
theory InvoicePdf
  imports Artifacts
begin

text \<open>
  The invoice the gateway writes itself (\<open>src/routing/invoicePdfGuard.ts\<close>): the facts a turn
  states, and the one-page PDF made of them. The alternatives of a pattern that only match code
  units above 255 (the euro sign, the long dash, the curly apostrophe) are left out. The pages of
  the file are text until \<open>renderPdf\<close> turns it into bytes.
\<close>

section \<open>Patterns\<close>

definition INVOICE_ID :: rx where
  "INVOICE_ID = sq [wb, Grp 1 (sq [opt (lit_i ''SEPT-''), lit_i ''INV-'', at_least 3 digit,
     star (sq [lit ''-'', plus (Cls is_alnum)])]), wb]"

definition currencies :: "string list" where
  "currencies = [''GBP'', ''USD'', ''EUR'', ''AED'', ''SAR'', ''KWD'', ''QAR'', ''CHF'', ''HKD'', ''SGD'']"

definition POUND :: char where "POUND = CHR 0xA3"

definition AMOUNT :: rx where
  "AMOUNT =
     (let number = sq [digit, star (Cls (\<lambda>c. is_digit c \<or> c = CHR '','')), opt (sq [lit ''.'', from_to 1 2 digit])] in
      either [sq [words_i currencies, star ws, number], sq [number, star ws, words_i currencies],
        sq [one_of [POUND, CHR ''$''], star ws, number]])"

definition labeled :: "string list \<Rightarrow> rx" where
  "labeled names = sq [bol, words_i names, star ws, one_of '':-'', star ws, Grp 1 (plus dot), eol]"

definition LABELED_CLIENT :: rx where "LABELED_CLIENT = labeled [''client'', ''customer'', ''bill to'', ''buyer'']"
definition LABELED_ITEM :: rx where "LABELED_ITEM = labeled [''item'', ''piece'', ''description'', ''model'']"
definition LABELED_AMOUNT :: rx where "LABELED_AMOUNT = labeled [''total'', ''amount'', ''price'', ''balance'']"

text \<open>\<open>\p{Lu}\<close> and \<open>\p{L}\<close> among the Latin-1 characters.\<close>

definition uni_upper :: "char \<Rightarrow> bool" where
  "uni_upper c \<longleftrightarrow> is_upper c \<or> (let n = of_char c :: nat in 192 \<le> n \<and> n \<le> 222 \<and> n \<noteq> 215)"

definition uni_letter :: "char \<Rightarrow> bool" where
  "uni_letter c \<longleftrightarrow> is_letter c \<or> (let n = of_char c :: nat in n = 170 \<or> n = 181 \<or> n = 186 \<or> (192 \<le> n \<and> n \<noteq> 215 \<and> n \<noteq> 247))"

definition name_word :: rx where
  "name_word = (let part = sq [Cls uni_upper, star (Cls (\<lambda>c. uni_letter c \<or> c = CHR 39))] in
     sq [part, star (sq [lit ''-'', part])])"

definition PERSON_FOR :: rx where
  "PERSON_FOR = sq [wb, lit ''for'', plus ws, Grp 1 (sq [name_word, from_to 1 3 (sq [plus ws, name_word])]), wb]"

definition NAME_TOKEN :: rx where "NAME_TOKEN = sq [bos, name_word, eos]"

section \<open>Fields\<close>

text \<open>\<open>toUpperCase\<close>: the sharp s becomes two letters, and two letters leave Latin-1.\<close>

definition upper_text :: "char \<Rightarrow> string" where
  "upper_text c =
     (let n = of_char c :: nat in
      if n = 223 then ''SS''
      else if n = 181 \<or> n = 255 then [CHR 26]
      else if 97 \<le> n \<and> n \<le> 122 \<or> 224 \<le> n \<and> n \<noteq> 247 then [char_of (n - 32)]
      else [c])"

definition uppercase :: "string \<Rightarrow> string" where
  "uppercase s = concat (map upper_text s)"

fun index_of :: "string \<Rightarrow> string \<Rightarrow> nat option" where
  "index_of p [] = (if p = [] then Some 0 else None)"
| "index_of p (c # s) = (if starts_with p (c # s) then Some 0 else map_option Suc (index_of p s))"

definition cleanField :: "string option \<Rightarrow> string option" where
  "cleanField v =
     (case filled v of
        None \<Rightarrow> None
      | Some s \<Rightarrow> filled (Some (take 180 (trim (replace_runs is_ws '' '' (replace_runs (\<lambda>c. c \<in> set ''*_`#'') [] s))))))"

definition cleanAmount :: "string option \<Rightarrow> string option" where
  "cleanAmount v = (case cleanField v of None \<Rightarrow> None | Some c \<Rightarrow> if test AMOUNT c then Some c else None)"

definition looksLikePersonName :: "string \<Rightarrow> bool" where
  "looksLikePersonName part \<longleftrightarrow>
     (let words = split_re (plus ws) (trim part) in
      2 \<le> length words \<and> length words \<le> 4 \<and> list_all (test NAME_TOKEN) words)"

definition leading_paren :: rx where
  "leading_paren = sq [bos, star ws, lit ''('', Grp 1 (star (none_of '')'')), lit '')'']"

definition partsBesideInvoice :: "string \<Rightarrow> string \<Rightarrow> string list" where
  "partsBesideInvoice text invoiceId =
     (case find (\<lambda>l. includes_str invoiceId (uppercase l)) (split_on (CHR 10) text) of
        None \<Rightarrow> []
      | Some line \<Rightarrow>
          (let idx = (case index_of invoiceId (uppercase line) of None \<Rightarrow> 0 | Some i \<Rightarrow> i);
               rest = drop (idx + length invoiceId) line;
               body = (case exec_group 1 leading_paren rest of
                         Some inside \<Rightarrow> inside
                       | None \<Rightarrow> dropWhile (\<lambda>c. is_ws c \<or> c \<in> set '':,-'') rest)
           in filter (\<lambda>p. p \<noteq> []) (map trim (split_on (CHR '','') body))))"

section \<open>Facts\<close>

record invoice_facts =
  if_id :: string
  if_client :: "string option"
  if_item :: "string option"
  if_amount :: "string option"

text \<open>The loop over the parts beside the number.\<close>

fun part_facts :: "string option \<times> string option \<times> string option \<Rightarrow> string \<Rightarrow> string option \<times> string option \<times> string option" where
  "part_facts (client, item, amount) part =
     (if amount = None \<and> test AMOUNT part then (client, item, cleanAmount (Some part))
      else if client = None \<and> looksLikePersonName part then (cleanField (Some part), item, amount)
      else if item = None then (client, cleanField (Some part), amount)
      else (client, item, amount))"

definition extractInvoiceFacts :: "string \<Rightarrow> invoice_facts option" where
  "extractInvoiceFacts text =
     (case filled (exec_group 1 INVOICE_ID text) of
        None \<Rightarrow> None
      | Some g \<Rightarrow>
          (let invoiceId = uppercase (drop_ws g);
               labeled_amount = cleanAmount (exec_group 1 LABELED_AMOUNT text);
               (client, item, amount) = foldl part_facts
                 (cleanField (exec_group 1 LABELED_CLIENT text), cleanField (exec_group 1 LABELED_ITEM text),
                  first_of labeled_amount (cleanAmount (exec_group 0 AMOUNT text)))
                 (partsBesideInvoice text invoiceId);
               client' = first_of client (cleanField (exec_group 1 PERSON_FOR text))
           in if client' = None \<and> item = None \<and> amount = None then None
              else Some \<lparr>if_id = invoiceId, if_client = client', if_item = item, if_amount = amount\<rparr>))"

section \<open>Dates\<close>

text \<open>The UTC date of a time: years and months are taken off while they are full.\<close>

definition leap :: "nat \<Rightarrow> bool" where
  "leap y \<longleftrightarrow> y mod 4 = 0 \<and> (y mod 100 \<noteq> 0 \<or> y mod 400 = 0)"

function year_of :: "nat \<Rightarrow> nat \<Rightarrow> nat \<times> nat" where
  "year_of y d = (let n = (if leap y then 366 else 365) in if d < n then (y, d) else year_of (y + 1) (d - n))"
  by pat_completeness auto

termination
  by (relation "measure snd") (auto simp: Let_def split: if_splits)

declare year_of.simps [simp del]

fun month_of :: "nat \<Rightarrow> nat list \<Rightarrow> nat \<Rightarrow> nat \<times> nat" where
  "month_of m [] d = (m, d)"
| "month_of m (n # ns) d = (if d < n then (m, d) else month_of (m + 1) ns (d - n))"

definition month_lengths :: "nat \<Rightarrow> nat list" where
  "month_lengths y = [31, if leap y then 29 else 28, 31, 30, 31, 30, 31, 31, 30, 31, 30, 31]"

definition months :: "string list" where
  "months = [''January'', ''February'', ''March'', ''April'', ''May'', ''June'',
     ''July'', ''August'', ''September'', ''October'', ''November'', ''December'']"

definition formatIssuedDate :: "time \<Rightarrow> string" where
  "formatIssuedDate t =
     (case year_of 1970 (t div 86400000) of
        (y, d) \<Rightarrow> (case month_of 0 (month_lengths y) d of
          (m, k) \<Rightarrow> show_nat (k + 1) @ '' '' @ months ! m @ '' '' @ show_nat y))"

section \<open>Writing the file\<close>

definition invoiceFileName :: "string \<Rightarrow> string" where
  "invoiceFileName invoiceId =
     (let safe = filter (\<lambda>c. is_alnum c \<or> c = CHR ''.'' \<or> c = CHR ''-'') invoiceId;
          base = (if test (sq [bos, lit_i ''SEPT-'']) safe then safe else ''SEPT-'' @ safe)
      in base @ ''.pdf'')"

definition printable :: "char \<Rightarrow> bool" where
  "printable c \<longleftrightarrow> (let n = of_char c :: nat in 32 \<le> n \<and> n \<le> 126)"

definition ascii_text :: "string \<Rightarrow> string" where
  "ascii_text s = map (\<lambda>c. if printable c then c else CHR ''?'') s"

definition replace_char :: "char \<Rightarrow> string \<Rightarrow> string \<Rightarrow> string" where
  "replace_char c w s = concat (map (\<lambda>d. if d = c then w else [d]) s)"

abbreviation backslash :: char where "backslash \<equiv> CHR 92"

definition pdfEscape :: "string \<Rightarrow> string" where
  "pdfEscape s =
     replace_char (CHR '')'') [backslash, CHR '')''] (replace_char (CHR ''('') [backslash, CHR ''('']
       (replace_char backslash [backslash, backslash] (ascii_text s)))"

datatype pdf_font = F1 | F2

record pdf_line =
  pl_text :: string
  pl_font :: pdf_font
  pl_size :: nat
  pl_gap :: nat

fun font_name :: "pdf_font \<Rightarrow> string" where
  "font_name F1 = ''F1''"
| "font_name F2 = ''F2''"

fun line_commands :: "bool \<Rightarrow> pdf_line list \<Rightarrow> string list" where
  "line_commands first [] = []"
| "line_commands first (l # ls) =
     (if pl_text l = [] then line_commands first ls
      else [''/'' @ font_name (pl_font l) @ '' '' @ show_nat (pl_size l) @ '' Tf'',
            if first then ''72 740 Td'' else ''0 -'' @ show_nat (pl_gap l) @ '' Td'',
            ''('' @ pdfEscape (pl_text l) @ '') Tj''] @ line_commands False ls)"

definition content_stream :: "pdf_line list \<Rightarrow> string" where
  "content_stream ls = join_with nl ([''BT''] @ line_commands True ls @ [''ET''])"

definition pdf_objects :: "string \<Rightarrow> string list" where
  "pdf_objects stream =
     [''<< /Type /Catalog /Pages 2 0 R >>'',
      ''<< /Type /Pages /Kids [3 0 R] /Count 1 >>'',
      ''<< /Type /Page /Parent 2 0 R /MediaBox [0 0 612 792] /Contents 4 0 R /Resources << /Font << /F1 5 0 R /F2 6 0 R >> >> >>'',
      ''<< /Length '' @ show_nat (length stream) @ '' >>'' @ nl @ ''stream'' @ nl @ stream @ nl @ ''endstream'',
      ''<< /Type /Font /Subtype /Type1 /BaseFont /Helvetica-Bold >>'',
      ''<< /Type /Font /Subtype /Type1 /BaseFont /Helvetica >>'']"

definition object_text :: "nat \<Rightarrow> string \<Rightarrow> string" where
  "object_text i body = show_nat (i + 1) @ '' 0 obj'' @ nl @ body @ nl @ ''endobj'' @ nl"

text \<open>The loop over the objects: the text so far and the offsets.\<close>

fun add_objects :: "nat \<Rightarrow> string list \<Rightarrow> string \<Rightarrow> string \<times> nat list" where
  "add_objects i [] pdf = (pdf, [])"
| "add_objects i (body # bodies) pdf =
     (case add_objects (i + 1) bodies (pdf @ object_text i body) of (out, offs) \<Rightarrow> (out, length pdf # offs))"

definition pad_start :: "nat \<Rightarrow> char \<Rightarrow> string \<Rightarrow> string" where
  "pad_start n c s = replicate (n - length s) c @ s"

definition xref_line :: "nat \<Rightarrow> string" where
  "xref_line off = pad_start 10 (CHR ''0'') (show_nat off) @ '' 00000 n '' @ nl"

definition pdf_text :: "pdf_line list \<Rightarrow> string" where
  "pdf_text ls =
     (let objects = pdf_objects (content_stream ls) in
      case add_objects 0 objects (''%PDF-1.4'' @ nl) of
        (body, offsets) \<Rightarrow>
          body @ ''xref'' @ nl @ ''0 '' @ show_nat (length objects + 1) @ nl
          @ ''0000000000 65535 f '' @ nl @ concat (map xref_line offsets)
          @ ''trailer'' @ nl @ ''<< /Size '' @ show_nat (length objects + 1) @ '' /Root 1 0 R >>'' @ nl
          @ ''startxref'' @ nl @ show_nat (length body) @ nl @ ''%%EOF'' @ nl)"

definition latin1_bytes :: "string \<Rightarrow> bytes" where
  "latin1_bytes s = map (\<lambda>c. of_nat (of_char c)) s"

definition renderPdf :: "pdf_line list \<Rightarrow> bytes" where
  "renderPdf ls = latin1_bytes (pdf_text ls)"

definition fact_line :: "string \<Rightarrow> string option \<Rightarrow> pdf_line list" where
  "fact_line name v =
     (case filled v of None \<Rightarrow> [] | Some s \<Rightarrow> [\<lparr>pl_text = name @ '': '' @ s, pl_font = F2, pl_size = 11, pl_gap = 16\<rparr>])"

definition invoice_lines :: "invoice_facts \<Rightarrow> time \<Rightarrow> pdf_line list" where
  "invoice_lines f issuedOn =
     [\<lparr>pl_text = ''SEPT'', pl_font = F1, pl_size = 20, pl_gap = 28\<rparr>,
      \<lparr>pl_text = ''Commercial Invoice'', pl_font = F2, pl_size = 11, pl_gap = 22\<rparr>,
      \<lparr>pl_text = ''Invoice No: '' @ if_id f, pl_font = F2, pl_size = 11, pl_gap = 16\<rparr>,
      \<lparr>pl_text = ''Date: '' @ formatIssuedDate issuedOn, pl_font = F2, pl_size = 11, pl_gap = 16\<rparr>]
     @ fact_line ''Client'' (if_client f) @ fact_line ''Item'' (if_item f) @ fact_line ''Total'' (if_amount f)"

definition buildSeptInvoicePdf :: "invoice_facts \<Rightarrow> time \<Rightarrow> resolved" where
  "buildSeptInvoicePdf f issuedOn =
     \<lparr>rv_identifier = ''sept_invoice_'' @ lowercase (if_id f), rv_title = invoiceFileName (if_id f),
      rv_file = invoiceFileName (if_id f), rv_mime = ''application/pdf'', rv_bytes = renderPdf (invoice_lines f issuedOn)\<rparr>"

section \<open>Text in the file\<close>

text \<open>How a reader of the file takes a text in parentheses: escaped marks stand for themselves, bare
  parentheses nest.\<close>

fun read_literal :: "nat \<Rightarrow> string \<Rightarrow> (string \<times> string) option" where
  "read_literal depth [] = None"
| "read_literal depth (c # s) =
     (if c = backslash then
        (case s of
           [] \<Rightarrow> None
         | e # s' \<Rightarrow> if e = backslash \<or> e = CHR ''('' \<or> e = CHR '')''
             then map_option (\<lambda>(t, r). (e # t, r)) (read_literal depth s') else None)
      else if c = CHR '')'' \<and> depth = 0 then Some ([], s)
      else map_option (\<lambda>(t, r). (c # t, r))
        (read_literal (if c = CHR ''('' then depth + 1 else if c = CHR '')'' then depth - 1 else depth) s))"

definition escaped :: "char \<Rightarrow> string" where
  "escaped c = (if c = backslash \<or> c = CHR ''('' \<or> c = CHR '')'' then [backslash, c] else [c])"

lemma escape_chars: "pdfEscape s = concat (map escaped (ascii_text s))"
proof -
  have "replace_char (CHR '')'') [backslash, CHR '')''] (replace_char (CHR ''('') [backslash, CHR ''(''] (replace_char backslash [backslash, backslash] t))
      = concat (map escaped t)" for t
    by (induction t) (simp_all add: replace_char_def escaped_def)
  then show ?thesis by (simp add: pdfEscape_def)
qed

lemma read_escaped: "read_literal 0 (escaped c @ s) = map_option (\<lambda>(t, r). (c # t, r)) (read_literal 0 s)"
  by (simp add: escaped_def)

text \<open>C17: A fact cannot break out of its place in the file: reading the literal gives back its printable text and
  ends exactly at the closing parenthesis.\<close>

theorem facts_stay_in_their_literals: "read_literal 0 (pdfEscape s @ '')'' @ rest) = Some (ascii_text s, rest)"
proof -
  have "read_literal 0 (concat (map escaped t) @ '')'' @ rest) = Some (t, rest)" for t
    by (induction t) (simp_all add: read_escaped)
  then show ?thesis by (simp only: escape_chars)
qed

section \<open>The table of offsets\<close>

text \<open>A reader of the file: the number before the end says where the table is, an entry of twenty
  characters where an object is.\<close>

definition startxref :: "string \<Rightarrow> nat" where
  "startxref s = read_nat (rev (takeWhile is_digit (drop 7 (rev s))))"

definition xref_offset :: "string \<Rightarrow> nat \<Rightarrow> nat" where
  "xref_offset s i = read_nat (take 10 (drop (startxref s + 9 + 20 * i) s))"

lemma read_zeros: "read_nat (replicate k (CHR ''0'') @ s) = read_nat s"
proof -
  have "foldl (\<lambda>n c. 10 * n + digit_val c) 0 (replicate k (CHR ''0'')) = 0"
    by (induction k) (simp_all add: digit_val_def)
  then show ?thesis by (simp add: read_nat_def)
qed

lemma length_show_nat: "n < 10 ^ Suc k \<Longrightarrow> length (show_nat n) \<le> Suc k"
proof (induction k arbitrary: n)
  case (Suc k)
  then have "n div 10 < 10 ^ Suc k" by (simp add: less_mult_imp_div_less)
  with Suc.IH show ?case by (subst show_nat.simps) simp
qed (subst show_nat.simps, simp)

lemma length_xref_line: "off < 10000000000 \<Longrightarrow> length (xref_line off) = 20"
  using length_show_nat [of off 9] by (simp add: xref_line_def pad_start_def nl_def)

lemma read_xref_line: "off < 10000000000 \<Longrightarrow> read_nat (take 10 (xref_line off @ s)) = off"
  using length_show_nat [of off 9] by (simp add: xref_line_def pad_start_def read_zeros read_show_nat)

lemma drop_entries:
  assumes "\<And>x. x \<in> set xs \<Longrightarrow> length (f x) = n"
  shows "i < length xs \<Longrightarrow> \<exists>t. drop (n * i) (concat (map f xs) @ s) = f (xs ! i) @ t"
  using assms
proof (induction xs arbitrary: i)
  case (Cons x xs)
  then show ?case by (cases i) (auto simp: algebra_simps)
qed simp

lemma add_objects_offsets:
  "add_objects i bodies pdf = (out, offs) \<Longrightarrow> prefix pdf out \<and> length offs = length bodies
     \<and> (\<forall>k < length bodies. offs ! k \<le> length out \<and> prefix (object_text (i + k) (bodies ! k)) (drop (offs ! k) out))"
proof (induction bodies arbitrary: i pdf out offs)
  case (Cons b bodies)
  from Cons.prems obtain offs' where offs: "offs = length pdf # offs'"
    "add_objects (i + 1) bodies (pdf @ object_text i b) = (out, offs')" by (auto split: prod.splits)
  from Cons.IH [OF offs(2)] have IH: "prefix (pdf @ object_text i b) out" "length offs' = length bodies"
    "\<forall>k < length bodies. offs' ! k \<le> length out \<and> prefix (object_text (i + 1 + k) (bodies ! k)) (drop (offs' ! k) out)" by auto
  then have "prefix pdf out" "prefix (object_text i b) (drop (length pdf) out)" by (auto simp: prefix_def)
  moreover have "length pdf \<le> length out" using \<open>prefix pdf out\<close> by (rule prefix_length_le)
  ultimately show ?case using IH(2,3) by (auto simp: offs less_Suc_eq_0_disj)
qed simp

lemma length_digit: "n < 10 \<Longrightarrow> length (show_nat n) = 1"
  by (subst show_nat.simps) simp

lemma length_objects:
  "length s < 1000000000 \<Longrightarrow> add_objects 0 (pdf_objects s) (''%PDF-1.4'' @ nl) = (out, offs) \<Longrightarrow> length out < 10000000000"
  using length_show_nat [of "length s" 9] by (auto simp: pdf_objects_def object_text_def nl_def length_digit)

text \<open>C18: A reader that follows the file from its end finds every object: the end points at the table, and its
  entries at the objects, each under its number.\<close>

theorem every_object_is_found:
  assumes "length (content_stream ls) < 1000000000"
  shows "prefix (''xref'' @ nl) (drop (startxref (pdf_text ls)) (pdf_text ls))
    \<and> list_all (\<lambda>i. prefix (object_text i (pdf_objects (content_stream ls) ! i)) (drop (xref_offset (pdf_text ls) (i + 1)) (pdf_text ls))) [0..<6]"
proof -
  define objects where "objects = pdf_objects (content_stream ls)"
  have six: "length objects = 6" by (simp add: objects_def pdf_objects_def)
  obtain body offs where b: "add_objects 0 objects (''%PDF-1.4'' @ nl) = (body, offs)" by fastforce
  define entries where "entries = ''trailer'' @ nl @ ''<< /Size '' @ show_nat 7 @ '' /Root 1 0 R >>'' @ nl @ ''startxref''"
  define table where "table = ''xref'' @ nl @ ''0 '' @ show_nat 7 @ nl @ ''0000000000 65535 f '' @ nl"
  have pdf: "pdf_text ls = body @ table @ concat (map xref_line offs) @ entries @ nl @ show_nat (length body) @ nl @ ''%%EOF'' @ nl"
    using b by (simp add: pdf_text_def objects_def [symmetric] six entries_def table_def)
  have seven: "show_nat 7 = ''7''" by code_simp
  have table: "length table = 29" by (simp add: table_def seven nl_def)
  have tail: "rev (pdf_text ls) = rev (nl @ ''%%EOF'' @ nl) @ rev (show_nat (length body)) @ CHR 10 # rev (body @ table @ concat (map xref_line offs) @ entries)"
    by (simp add: pdf nl_def)
  have start: "startxref (pdf_text ls) = length body"
  proof -
    have "takeWhile is_digit (rev (show_nat n) @ CHR 10 # t) = rev (show_nat n)" for n t
      using show_nat_digits [of _ n] by (subst takeWhile_append2) (auto simp: is_digit_def [of "CHR 10"])
    then show ?thesis unfolding startxref_def tail by (simp add: nl_def read_show_nat)
  qed
  from add_objects_offsets [OF b] have offs: "length offs = 6"
    "\<And>k. k < 6 \<Longrightarrow> offs ! k \<le> length body \<and> prefix (object_text k (objects ! k)) (drop (offs ! k) body)" by (auto simp: six)
  have small: "off < 10000000000" if off: "off \<in> set offs" for off
  proof -
    obtain k where "k < 6" "off = offs ! k" using off by (metis in_set_conv_nth offs(1))
    then have "off \<le> length body" using offs(2) by blast
    moreover have "length body < 10000000000" by (rule length_objects [OF assms b [unfolded objects_def]])
    ultimately show ?thesis by linarith
  qed
  have entry: "xref_offset (pdf_text ls) (i + 1) = offs ! i" if "i < 6" for i
  proof -
    have "\<exists>t. drop (20 * i) (concat (map xref_line offs) @ entries @ nl @ show_nat (length body) @ nl @ ''%%EOF'' @ nl) = xref_line (offs ! i) @ t"
      by (rule drop_entries) (simp_all add: length_xref_line small offs(1) that)
    then have "\<exists>t. drop (length body + 9 + 20 * (i + 1)) (pdf_text ls) = xref_line (offs ! i) @ t"
      by (simp add: pdf table)
    then show ?thesis using read_xref_line [OF small [of "offs ! i"]] that offs(1)
      by (auto simp: xref_offset_def start)
  qed
  have "prefix (object_text i (objects ! i)) (drop (xref_offset (pdf_text ls) (i + 1)) (pdf_text ls))" if "i < 6" for i
    using offs(2) [OF that] entry [OF that] by (auto simp: pdf intro: prefix_order.trans)
  moreover have "prefix (''xref'' @ nl) (drop (startxref (pdf_text ls)) (pdf_text ls))"
    unfolding start by (simp add: pdf table_def)
  ultimately show ?thesis unfolding objects_def by (simp add: list_all_iff)
qed

definition sample_facts :: invoice_facts where
  "sample_facts = \<lparr>if_id = ''INV-20332'', if_client = Some ''Noor (VIP)'', if_item = None, if_amount = Some ''GBP 12,500''\<rparr>"

lemma sample_numbers:
  "show_nat (Suc 0) = ''1''" "show_nat 11 = ''11''" "show_nat 16 = ''16''" "show_nat 20 = ''20''" "show_nat 22 = ''22''"
  "show_nat 1970 = ''1970''"
  by code_simp+

lemma sample_date: "formatIssuedDate 0 = ''1 January 1970''"
  by (simp add: formatIssuedDate_def year_of.simps month_lengths_def leap_def months_def sample_numbers)

lemma sample_length: "length (content_stream (invoice_lines sample_facts 0)) < 1000000000"
  by (simp add: invoice_lines_def sample_facts_def sample_date fact_line_def filled_def content_stream_def nl_def sample_numbers
      escape_chars escaped_def ascii_text_def printable_def)

theorem every_object_is_found_witness:
  "prefix (''xref'' @ nl) (drop (startxref (pdf_text (invoice_lines sample_facts 0))) (pdf_text (invoice_lines sample_facts 0)))"
  using every_object_is_found [OF sample_length] by (rule conjunct1)

section \<open>A name taken for an item\<close>

definition for_text :: string where "for_text = ''INV-203 for Al Bo''"

lemma for_id: "exec_group 1 INVOICE_ID for_text = Some ''INV-203''" by code_simp
lemma for_client: "exec_group 1 LABELED_CLIENT for_text = None" by code_simp
lemma for_item: "exec_group 1 LABELED_ITEM for_text = None" by code_simp
lemma for_total: "exec_group 1 LABELED_AMOUNT for_text = None" by code_simp
lemma for_amount: "exec_group 0 AMOUNT for_text = None" by code_simp
lemma for_person: "exec_group 1 PERSON_FOR for_text = Some ''Al Bo''" by code_simp
lemma for_upper: "uppercase (drop_ws ''INV-203'') = ''INV-203''" by code_simp
lemma for_parts: "partsBesideInvoice for_text ''INV-203'' = [''for Al Bo'']" by code_simp
lemma for_part: "part_facts (None, None, None) ''for Al Bo'' = (None, Some ''for Al Bo'', None)" by code_simp
lemma for_clean: "cleanField (Some ''Al Bo'') = Some ''Al Bo''" by code_simp

text \<open>An invoice presented as being for a person lists the person as its item: what follows the number on its line is
  an item unless it is itself a name, and the phrase is not.\<close>

theorem person_phrase_becomes_item:
  "extractInvoiceFacts for_text
   = Some \<lparr>if_id = ''INV-203'', if_client = Some ''Al Bo'', if_item = Some ''for Al Bo'', if_amount = None\<rparr>"
proof -
  have none: "cleanField None = None" "cleanAmount None = None" by (simp_all add: cleanField_def filled_def cleanAmount_def)
  show ?thesis
    unfolding extractInvoiceFacts_def for_id for_client for_item for_total for_amount for_person
    by (simp only: filled_def option.inject list.distinct if_False option.case Let_def for_upper for_parts for_person none first_of_def
        foldl_Cons foldl_Nil for_part prod.case for_clean option.distinct simp_thms)
qed

end
