(* ===== verification/PdfGuard.thy ===== *)
theory PdfGuard
  imports Sanitizer InvoicePdf Craft
begin

text \<open>
  The guard of outbound PDFs (\<open>src/routing/invoicePdfGuard.ts\<close>): which replies present a file,
  which turns may not leave without one, and what such a turn sends: a PDF or one preparing line.
\<close>

section \<open>Constants\<close>

definition INVOICE_PDF_CAPTION :: string where "INVOICE_PDF_CAPTION = ''Here is the commercial invoice.''"
definition DOCUMENT_PDF_CAPTION :: string where "DOCUMENT_PDF_CAPTION = ''Here is the document.''"

definition INVOICE_PREPARING_TEXT :: string where
  "INVOICE_PREPARING_TEXT = ''Preparing the invoice. I will send it in this chat when it is ready.''"

definition DOCUMENT_PREPARING_TEXT :: string where
  "DOCUMENT_PREPARING_TEXT = ''Preparing the document. I will send it in this chat when it is ready.''"

definition INVOICE_WORD :: rx where
  "INVOICE_WORD = sq [wb, words_i [''invoices'', ''invoice'', ''receipts'', ''receipt''], wb]"

definition DOCUMENT_WORD :: rx where
  "DOCUMENT_WORD = sq [wb, either [sq [lit_i ''pdf'', opt (lit_i ''s'')], sq [lit_i ''lookbook'', opt (lit_i ''s'')],
     sq [lit_i ''catalog'', opt (lit_i ''ue''), opt (lit_i ''s'')], sq [lit_i ''brochure'', opt (lit_i ''s'')],
     sq [lit_i ''pitch'', plus ws, lit_i ''deck'', opt (lit_i ''s'')]], wb]"

definition here_is :: rx where
  "here_is = sq [lit_i ''here'', words_i [[CHR 39, CHR ''s''], '' is'']]"

definition DELIVERY :: rx where
  "DELIVERY = sq [wb, either [here_is, words_i [''attached'', ''attaching'', ''official'', ''enclosed'', ''please find'']], wb]"

definition DOCUMENT_NOUN :: rx where
  "DOCUMENT_NOUN = sq [wb, either [here_is, words_i [''attached'', ''attaching'', ''enclosed'', ''please find'']], wb,
     from_to 0 80 (none_of [CHR ''.'', CHR ''!'', CHR 10]), wb, lit_i ''document'', opt (lit_i ''s''), wb]"

definition PDF_WORD :: rx where "PDF_WORD = sq [wb, lit_i ''pdf'', opt (lit_i ''s''), wb]"

definition pdf_invoice :: rx where
  "pdf_invoice = sq [wb, either [sq [lit_i ''pdf'', plus ws, lit_i ''invoice'', opt (lit_i ''s'')],
     sq [lit_i ''invoice'', opt (lit_i ''s''), plus ws, lit_i ''pdf'']], wb]"

definition permalink :: rx where "permalink = lit_i ''ql.app/l/''"
definition platform_link :: rx where "platform_link = lit_i ''ql.app''"

definition html_document :: rx where
  "html_document = either [sq [lit_i ''<!doctype'', plus ws, lit_i ''html''], sq [lit ''<'', star ws, lit_i ''html'', wb]]"

definition NON_PDF_TYPES :: "string list" where
  "NON_PDF_TYPES = [''json'', ''markdown'', ''md'', ''table'', ''html'', ''text'', ''png'', ''jpeg'', ''jpg'', ''image'', ''visualization'']"

section \<open>Which replies present a file\<close>

definition claimsInvoiceDelivery :: "string \<Rightarrow> bool" where
  "claimsInvoiceDelivery text \<longleftrightarrow>
     (let visible = sanitizeOutboundText text;
          hasInvoice = test INVOICE_WORD visible \<or> test INVOICE_ID visible;
          delivering = test DELIVERY visible
      in if \<not> nonblank visible then False
         else if hasInvoice \<and> (test PDF_WORD visible \<or> delivering) then True
         else test pdf_invoice visible)"

definition claimsDocumentDelivery :: "string \<Rightarrow> bool" where
  "claimsDocumentDelivery text \<longleftrightarrow>
     (let visible = sanitizeOutboundText text in
      if claimsInvoiceDelivery text then False
      else if test DOCUMENT_NOUN text \<or> test DOCUMENT_NOUN visible then True
      else if \<not> test DOCUMENT_WORD text \<and> \<not> test DOCUMENT_WORD visible then False
      else if test DELIVERY visible \<or> test DELIVERY text then True
      else test permalink text)"

definition barePermalinkOnly :: "string \<Rightarrow> bool" where
  "barePermalinkOnly text \<longleftrightarrow> test permalink text \<and> trim (sanitizeOutboundText text) = []"

text \<open>The pattern of \<open>OPERATOR_DOCUMENT\<close> is that of \<open>DOCUMENT_WORD\<close>.\<close>

definition operatorRequestsDocument :: "string \<Rightarrow> bool" where
  "operatorRequestsDocument text \<longleftrightarrow>
     (if operatorRequestsInvoice text then False else test DOCUMENT_WORD text \<or> test DOCUMENT_NOUN text)"

definition isHtmlArtifactSignal :: "artifact_ref \<Rightarrow> string option \<Rightarrow> string option \<Rightarrow> bool" where
  "isHtmlArtifactSignal ref title artifactType \<longleftrightarrow>
     lowercase (or_empty (first_of (rf_type ref) artifactType)) = ''html''
     \<or> test html_name (rf_identifier ref @ '' '' @ or_empty title)"

definition asks_for_link :: "string \<Rightarrow> bool \<Rightarrow> bool" where
  "asks_for_link reply htmlSubstitute \<longleftrightarrow> htmlSubstitute \<or> test platform_link reply \<or> test html_document reply"

definition shouldEnforceInvoicePdf :: "string \<Rightarrow> string option \<Rightarrow> bool \<Rightarrow> bool" where
  "shouldEnforceInvoicePdf reply operatorText htmlSubstitute \<longleftrightarrow>
     (if claimsInvoiceDelivery reply then True
      else if \<not> operatorRequestsInvoice (or_empty operatorText) then False
      else asks_for_link reply htmlSubstitute)"

definition shouldEnforceDocumentPdf :: "string \<Rightarrow> string option \<Rightarrow> bool \<Rightarrow> bool" where
  "shouldEnforceDocumentPdf reply operatorText htmlSubstitute \<longleftrightarrow>
     (if claimsInvoiceDelivery reply then False
      else if claimsDocumentDelivery reply then True
      else if barePermalinkOnly reply then True
      else if \<not> operatorRequestsDocument (or_empty operatorText) then False
      else asks_for_link reply htmlSubstitute)"

section \<open>What is a PDF\<close>

definition isApplicationPdf :: "resolved \<Rightarrow> bool" where
  "isApplicationPdf a \<longleftrightarrow> mime_base (rv_mime a) = ''application/pdf'' \<and> pdfPayload (rv_bytes a) False \<noteq> None"

text \<open>The bytes, name and type for WhatsApp.\<close>

definition whatsAppPdfDocument :: "bytes \<Rightarrow> string \<Rightarrow> string \<Rightarrow> (bytes \<times> string \<times> string) option" where
  "whatsAppPdfDocument bs fileName mimeType =
     (case pdfPayload bs (mime_base mimeType \<in> {''application/pdf'', ''application/octet-stream''}) of
        None \<Rightarrow> None
      | Some payload \<Rightarrow>
          (let name = replace_first known_suffix [] (or_else (trim fileName) ''document'')
           in Some (payload, if ends_with ''.pdf'' (lowercase name) then name else name @ ''.pdf'', ''application/pdf'')))"

definition pdf_name :: rx where
  "pdf_name = either [lit_i ''invoice'', sq [lit_i ''sept'', one_of ''_-'', lit_i ''inv'', wb], sq [lit_i ''.pdf'', wb]]"

definition isPdfishArtifactRef :: "artifact_ref \<Rightarrow> string option \<Rightarrow> bool" where
  "isPdfishArtifactRef ref title \<longleftrightarrow>
     (let ty = lowercase (or_empty (rf_type ref)) in
      if ty \<in> set NON_PDF_TYPES then False
      else if ty \<in> {''pdf'', ''file'', ''document''} then True
      else test pdf_name (rf_identifier ref @ '' '' @ or_empty title))"

section \<open>What a turn sends\<close>

datatype pdf_source = Thread | Gateway

datatype decision = Unchanged | Attach pdf_source resolved | Preparing string

record guard_input =
  gi_reply :: string
  gi_operator :: "string option"
  gi_supplemental :: "string option"
  gi_has_pdf :: bool
  gi_referenced :: bool
  gi_recovered :: "resolved option"
  gi_max :: nat
  gi_issued :: time

definition stated_facts :: "guard_input \<Rightarrow> invoice_facts option" where
  "stated_facts i = extractInvoiceFacts
     (or_empty (gi_operator i) @ nl @ gi_reply i @ nl @ or_empty (gi_supplemental i))"

definition usable :: "guard_input \<Rightarrow> resolved option" where
  "usable i =
     (case gi_recovered i of
        None \<Rightarrow> None
      | Some a \<Rightarrow> if isApplicationPdf a \<and> length (rv_bytes a) \<le> gi_max i then Some a else None)"

definition ensureInvoiceDelivery :: "guard_input \<Rightarrow> bool \<Rightarrow> decision" where
  "ensureInvoiceDelivery i enforce =
     (if gi_has_pdf i then Unchanged
      else if \<not> enforce \<and> \<not> claimsInvoiceDelivery (gi_reply i) then Unchanged
      else
        (case usable i of
           Some a \<Rightarrow> Attach Thread a
         | None \<Rightarrow>
             (case if gi_referenced i then None else stated_facts i of
                Some f \<Rightarrow>
                  (let built = buildSeptInvoicePdf f (gi_issued i)
                   in if length (rv_bytes built) \<le> gi_max i \<and> isApplicationPdf built then Attach Gateway built
                      else Preparing INVOICE_PREPARING_TEXT)
              | None \<Rightarrow> Preparing INVOICE_PREPARING_TEXT)))"

definition invoiceDocumentCaption :: "string option \<Rightarrow> string" where
  "invoiceDocumentCaption preservedPrefix =
     (let prefix = trim (or_empty preservedPrefix)
      in if prefix = [] then INVOICE_PDF_CAPTION else prefix @ nl @ nl @ INVOICE_PDF_CAPTION)"

definition invoiceNamedArtifact :: "resolved \<Rightarrow> bool" where
  "invoiceNamedArtifact a \<longleftrightarrow>
     test (either [lit_i ''invoice'', sq [lit_i ''sept'', one_of ''_-'', lit_i ''inv'', wb]])
       (rv_identifier a @ '' '' @ rv_file a @ '' '' @ rv_title a)"

definition ensureOutboundPdf :: "guard_input \<Rightarrow> bool \<Rightarrow> bool \<Rightarrow> decision" where
  "ensureOutboundPdf i enforceInvoice enforceDocument =
     (if gi_has_pdf i then Unchanged
      else if \<not> enforceInvoice \<and> \<not> enforceDocument then Unchanged
      else
        (case usable i of
           Some a \<Rightarrow>
             if enforceDocument \<and> \<not> enforceInvoice \<and> invoiceNamedArtifact a
             then Preparing DOCUMENT_PREPARING_TEXT else Attach Thread a
         | None \<Rightarrow>
             if enforceInvoice then ensureInvoiceDelivery (i\<lparr>gi_has_pdf := False, gi_recovered := None\<rparr>) True
             else Preparing DOCUMENT_PREPARING_TEXT))"

section \<open>Lemmas\<close>

lemma built_is_pdf: "isApplicationPdf (buildSeptInvoicePdf f t)"
proof -
  define ls where "ls = invoice_lines f t"
  obtain body offs where b: "add_objects 0 (pdf_objects (content_stream ls)) (''%PDF-1.4'' @ nl) = (body, offs)" by fastforce
  then have p: "prefix (''%PDF-1.4'' @ nl) body" using add_objects_offsets by blast
  obtain x where "pdf_text ls = body @ x" unfolding pdf_text_def Let_def b prod.case by blast
  with p have "take 5 (pdf_text ls) = ''%PDF-''" by (auto simp: prefix_def)
  then have "take 5 (renderPdf ls) = latin1_bytes ''%PDF-''" by (simp add: renderPdf_def latin1_bytes_def take_map)
  then have "isPdfHeader (rv_bytes (buildSeptInvoicePdf f t)) 0"
    by (simp add: buildSeptInvoicePdf_def latin1_bytes_def isPdfHeader_def PDF_HEADER_def ls_def)
  moreover have "mime_base (rv_mime (buildSeptInvoicePdf f t)) = ''application/pdf''"
    by (simp add: buildSeptInvoicePdf_def) code_simp
  ultimately show ?thesis using header_is_pdf by (simp add: isApplicationPdf_def looksLikePdf_def)
qed

lemma usable_some: "usable i = Some a \<Longrightarrow> gi_recovered i = Some a \<and> isApplicationPdf a \<and> length (rv_bytes a) \<le> gi_max i"
  by (auto simp: usable_def split: option.splits if_splits)

lemma guard_outcome:
  assumes "\<not> gi_has_pdf i" and "enforceInvoice \<or> enforceDocument"
  shows "case ensureOutboundPdf i enforceInvoice enforceDocument of
       Unchanged \<Rightarrow> False
     | Attach source a \<Rightarrow> isApplicationPdf a
     | Preparing t \<Rightarrow> t = (if enforceInvoice then INVOICE_PREPARING_TEXT else DOCUMENT_PREPARING_TEXT)"
proof (cases "usable i")
  case None
  have "usable (i\<lparr>gi_has_pdf := False, gi_recovered := None\<rparr>) = None" by (simp add: usable_def)
  with None assms show ?thesis
    by (auto simp: ensureOutboundPdf_def ensureInvoiceDelivery_def stated_facts_def built_is_pdf Let_def split: option.split)
next
  case (Some a)
  with assms usable_some [OF Some] show ?thesis by (auto simp: ensureOutboundPdf_def)
qed

text \<open>C16: A turn that must not leave without a PDF and has none sends a PDF within the size limit or the preparing line of its
  kind. A document turn attaches only a stored file not named as an invoice; an invoice turn with no stored and
  no referenced file attaches the invoice built of the stated facts whenever there are any and it fits.\<close>

theorem enforced_turn_sends_pdf_or_preparing:
  assumes "\<not> gi_has_pdf i" and "enforceInvoice \<or> enforceDocument"
  shows "case ensureOutboundPdf i enforceInvoice enforceDocument of
       Unchanged \<Rightarrow> False
     | Attach source a \<Rightarrow> isApplicationPdf a \<and> length (rv_bytes a) \<le> gi_max i
         \<and> (if source = Thread then gi_recovered i = Some a \<and> (enforceInvoice \<or> \<not> invoiceNamedArtifact a)
            else enforceInvoice \<and> usable i = None \<and> \<not> gi_referenced i
              \<and> Some a = map_option (\<lambda>f. buildSeptInvoicePdf f (gi_issued i)) (stated_facts i))
     | Preparing t \<Rightarrow>
         (if enforceInvoice
          then t = INVOICE_PREPARING_TEXT \<and> usable i = None
            \<and> (gi_referenced i \<or> (case stated_facts i of None \<Rightarrow> True
                 | Some f \<Rightarrow> gi_max i < length (rv_bytes (buildSeptInvoicePdf f (gi_issued i)))))
          else t = DOCUMENT_PREPARING_TEXT \<and> (case usable i of None \<Rightarrow> True | Some a \<Rightarrow> invoiceNamedArtifact a))"
proof (cases "usable i")
  case None
  have "usable (i\<lparr>gi_has_pdf := False, gi_recovered := None\<rparr>) = None" by (simp add: usable_def)
  with None assms show ?thesis
    by (auto simp: ensureOutboundPdf_def ensureInvoiceDelivery_def stated_facts_def built_is_pdf Let_def not_le
        split: option.split)
next
  case (Some a)
  with assms usable_some [OF Some] show ?thesis by (auto simp: ensureOutboundPdf_def)
qed

definition guard_sample :: guard_input where
  "guard_sample = \<lparr>gi_reply = ''ql.app/l/x'', gi_operator = None, gi_supplemental = None, gi_has_pdf = False, gi_referenced = False,
     gi_recovered = None, gi_max = 100, gi_issued = 0\<rparr>"

theorem enforced_turn_sends_pdf_or_preparing_witness:
  "ensureOutboundPdf guard_sample False True = Preparing DOCUMENT_PREPARING_TEXT"
  using enforced_turn_sends_pdf_or_preparing [of guard_sample False True]
  by (auto simp: guard_sample_def split: decision.splits if_splits)

lemma pdf_suffix: "ends_with ''.pdf'' (lowercase (s @ ''.pdf''))"
  by (simp add: str_simps lowercase_def lower_char_def suffix_def)

lemma whatsapp_document:
  "whatsAppPdfDocument bs n m = Some (p, n', m') \<Longrightarrow> isPdfHeader p 0 \<and> ends_with ''.pdf'' (lowercase n') \<and> m' = ''application/pdf''"
  using payload_header pdf_suffix by (auto simp: whatsAppPdfDocument_def Let_def split: option.splits if_splits)

end
