(* ===== verification/Adapter.thy ===== *)
theory Adapter
  imports Artifacts Sanitizer World
begin

text \<open>
  The class \<open>PromptQlAdapter\<close> (\<open>src/promptql/promptqlAdapter.ts\<close>): sessions, asking, waiting for
  an answer, fetching artifacts. A session stands for its token; a tool call is logged with the
  identity it is for and the token it carries. The service answers the \<open>n\<close>-th call or makes it throw;
  the credential store answers the \<open>n\<close>-th lookup of a token.
\<close>

section \<open>Calls\<close>

datatype agent_response = AgentAuto | AgentRespond | AgentSkip

record ask_args =
  aa_query :: string
  aa_thread :: "string option"
  aa_room :: "string option"
  aa_project :: "string option"
  aa_response :: "agent_response option"
  aa_instruction :: "string option"
  aa_files :: "ask_file list option"

text \<open>The five tools; an approval id is passed on as it came.\<close>

datatype tool_call =
    AskTool ask_args
  | WaitTool string "string option"
  | DeclineTool json
  | DownloadTool string "nat option"
  | ListTool string

record tool_result =
  tr_text :: string
  tr_structured :: "json option"
  tr_raw :: json

record service =
  sv_token :: "nat \<Rightarrow> posting_identity \<Rightarrow> string option option"
  sv_endpoint :: bool
  sv_project :: "string option"
  sv_answer :: "nat \<Rightarrow> tool_call \<Rightarrow> tool_result option"
  sv_pause :: "nat \<Rightarrow> nat"
  sv_parse :: "string \<Rightarrow> url option"
  sv_fetch :: "string \<Rightarrow> http_response option"

record link =
  lk_sessions :: "posting_identity \<rightharpoonup> string"
  lk_lookups :: nat
  lk_calls :: "(posting_identity \<times> string \<times> tool_call) list"
  lk_now :: time

section \<open>Sessions\<close>

text \<open>The session of an identity, or none where it throws; the lookup of the token may throw too.\<close>

definition session :: "service \<Rightarrow> posting_identity \<Rightarrow> link \<Rightarrow> link \<times> string option" where
  "session sv who l =
     (if \<not> identity_ok who then (l, None)
      else
        (let l' = l\<lparr>lk_lookups := lk_lookups l + 1\<rparr> in
         case map_option filled (sv_token sv (lk_lookups l) who) of
           None \<Rightarrow> (l', None)
         | Some None \<Rightarrow> (l'\<lparr>lk_sessions := (lk_sessions l)(who := None)\<rparr>, None)
         | Some (Some token) \<Rightarrow>
             (case lk_sessions l who of
                Some cached \<Rightarrow> (l', Some cached)
              | None \<Rightarrow>
                  if \<not> sv_endpoint sv then (l', None)
                  else (l'\<lparr>lk_sessions := (lk_sessions l)(who \<mapsto> token)\<rparr>, Some token))))"

definition invalidate :: "posting_identity \<Rightarrow> link \<Rightarrow> link" where
  "invalidate who l = (if identity_ok who then l\<lparr>lk_sessions := (lk_sessions l)(who := None)\<rparr> else l)"

definition callTool :: "service \<Rightarrow> posting_identity \<Rightarrow> string \<Rightarrow> tool_call \<Rightarrow> link \<Rightarrow> link \<times> tool_result option" where
  "callTool sv who token c l =
     (let n = length (lk_calls l) in
      (l\<lparr>lk_calls := lk_calls l @ [(who, token, c)], lk_now := lk_now l + sv_pause sv n\<rparr>, sv_answer sv n c))"

text \<open>\<open>this.session(who).callTool(c)\<close>.\<close>

definition call_as :: "service \<Rightarrow> posting_identity \<Rightarrow> tool_call \<Rightarrow> link \<Rightarrow> link \<times> tool_result option" where
  "call_as sv who c l = (case session sv who l of (l', None) \<Rightarrow> (l', None) | (l', Some token) \<Rightarrow> callTool sv who token c l')"

section \<open>Asking\<close>

record ask_input =
  ai_query :: string
  ai_thread :: "string option"
  ai_room :: "string option"
  ai_files :: "ask_file list"
  ai_response :: "agent_response option"
  ai_instruction :: "string option"
  ai_project :: "string option"

definition normalizeQueryForMcp :: "string \<Rightarrow> string" where
  "normalizeQueryForMcp q = (if length q < 3 then q @ replicate (3 - length q) (CHR '' '') else q)"

definition shorter_than :: "nat \<Rightarrow> string option \<Rightarrow> bool" where
  "shorter_than n s = (case s of None \<Rightarrow> False | Some t \<Rightarrow> length t < n)"

fun parse_files :: "ask_file list \<Rightarrow> ask_file list option" where
  "parse_files [] = Some []"
| "parse_files (f # fs) =
     (case (parse_file (af_name f) (af_mime f) (af_bytes f), parse_files fs) of
        (Some g, Some gs) \<Rightarrow> Some (g # gs) | _ \<Rightarrow> None)"

definition AskArgsSchema :: "string option \<Rightarrow> ask_input \<Rightarrow> ask_args option" where
  "AskArgsSchema default_project i =
     (let project = first_of (ai_project i) default_project in
      if shorter_than 1 (ai_instruction i) \<or> shorter_than 3 project then None
      else
        (case parse_files (ai_files i) of
           None \<Rightarrow> None
         | Some fs \<Rightarrow>
             Some \<lparr>aa_query = normalizeQueryForMcp (ai_query i), aa_thread = filled (ai_thread i), aa_room = filled (ai_room i),
               aa_project = project, aa_response = ai_response i, aa_instruction = ai_instruction i,
               aa_files = (if fs = [] then None else Some fs)\<rparr>))"

definition ask_statuses :: "string list" where
  "ask_statuses = [''success'', ''upload_failed'', ''system_trigger_failed'', ''change_model_failed'', ''sent_message_failed'']"

definition optional_status :: "(string \<times> json) list \<Rightarrow> string option option" where
  "optional_status kvs =
     (case optional_text ''status'' kvs of
        Some (Some s) \<Rightarrow> if s \<in> set ask_statuses then Some (Some s) else None
      | r \<Rightarrow> r)"

definition nullish_filled :: "string \<Rightarrow> (string \<times> json) list \<Rightarrow> string option option" where
  "nullish_filled k kvs = (case nullish_text k kvs of Some (Some s) \<Rightarrow> if s = [] then None else Some (Some s) | r \<Rightarrow> r)"

definition optional_token :: "string \<Rightarrow> (string \<times> json) list \<Rightarrow> string option option" where
  "optional_token k kvs =
     (case optional_filled k kvs of Some (Some s) \<Rightarrow> if 128 < length s then None else Some (Some s) | r \<Rightarrow> r)"

text \<open>The handle, the status and the class of an error.\<close>

fun AskResponseSchema :: "json option \<Rightarrow> (ask_result \<times> string option \<times> string option) option" where
  "AskResponseSchema (Some (JObj kvs)) =
     (case (optional_status kvs, required_text ''thread_id'' kvs, nullish_filled ''thread_event_id'' kvs,
         optional_token ''error_code'' kvs, optional_token ''error_type'' kvs) of
        (Some st, Some t, Some ev, Some code, Some ty) \<Rightarrow> Some (\<lparr>ar_thread = t, ar_event = ev\<rparr>, st, first_of code ty)
      | _ \<Rightarrow> None)"
| "AskResponseSchema j = None"

text \<open>The class of the error is only for the log.\<close>

definition ask :: "service \<Rightarrow> posting_identity \<Rightarrow> ask_input \<Rightarrow> link \<Rightarrow> link \<times> ask_outcome" where
  "ask sv who i l =
     (case AskArgsSchema (sv_project sv) i of
        None \<Rightarrow> (l, AskBroke)
      | Some args \<Rightarrow>
          (case call_as sv who (AskTool args) l of
             (l', None) \<Rightarrow> (l', AskBroke)
           | (l', Some r) \<Rightarrow>
               (case AskResponseSchema (tr_structured r) of
                  None \<Rightarrow> (l', AskBroke)
                | Some (handle, st, detail) \<Rightarrow>
                    (l', case st of None \<Rightarrow> Answered handle
                       | Some s \<Rightarrow> if s = ''success'' then Answered handle else Refused s handle))))"

section \<open>Waiting\<close>

datatype wait_outcome = Completed string "response_artifact list" | Declined string | WaitFailed string | WaitBroke

text \<open>A failed decline is only logged; an approval that is \<open>null\<close> throws.\<close>

fun decline_each :: "service \<Rightarrow> posting_identity \<Rightarrow> string \<Rightarrow> json list \<Rightarrow> link \<Rightarrow> link \<times> bool" where
  "decline_each sv who token [] l = (l, True)"
| "decline_each sv who token (JNull # as) l = (l, False)"
| "decline_each sv who token (JObj kvs # as) l =
     (case json_prop ''approval_id'' kvs of
        Some i \<Rightarrow> if truthy i then decline_each sv who token as (fst (callTool sv who token (DeclineTool i) l))
          else decline_each sv who token as l
      | None \<Rightarrow> decline_each sv who token as l)"
| "decline_each sv who token (a # as) l = decline_each sv who token as l"

text \<open>What is no list cannot be iterated; the letters of a text have no id.\<close>

definition declineAll :: "service \<Rightarrow> posting_identity \<Rightarrow> string \<Rightarrow> json option \<Rightarrow> link \<Rightarrow> link \<times> bool" where
  "declineAll sv who token approvals l =
     (case approvals of
        None \<Rightarrow> (l, True)
      | Some JNull \<Rightarrow> (l, True)
      | Some (JStr s) \<Rightarrow> (l, True)
      | Some (JArr as) \<Rightarrow> decline_each sv who token as l
      | Some j \<Rightarrow> (l, False))"

definition DECLINED_TEXT :: string where
  "DECLINED_TEXT = ''This request needs approval for a sensitive action. It was not auto-approved '' @ em_dash @
     '' please review it in the workspace.''"

definition DEADLINE_TEXT :: string where "DEADLINE_TEXT = ''PromptQL did not respond before the deadline.''"

text \<open>One reading of an answer: the outcome, or to keep waiting.\<close>

definition read_wait :: "service \<Rightarrow> posting_identity \<Rightarrow> string \<Rightarrow> tool_result \<Rightarrow> link \<Rightarrow> link \<times> wait_outcome option" where
  "read_wait sv who token r l =
     (let sc = as_record (tr_structured r);
          st = lowercase (trim (or_empty (text_field (json_prop ''status'' sc))))
      in if st = ''waiting_approval'' then
           (case declineAll sv who token (json_prop ''approvals'' sc) l of
              (l', ok) \<Rightarrow> (l', Some (if ok then Declined DECLINED_TEXT else WaitBroke)))
         else
           (l, case terminalFailureCode sc of
                 Some code \<Rightarrow> Some (WaitFailed code)
               | None \<Rightarrow>
                   if st = ''completed'' \<or> st = ''success''
                   then Some (Completed (clientFacingWaitMessage (json_prop ''message'' sc) (tr_text r))
                          (parseResponseArtifacts (json_prop ''artifacts'' sc)))
                   else None))"

text \<open>The loop; a service that answers at once and never finishes keeps it from ending until time passes.\<close>

partial_function (option) waitForResponse ::
    "service \<Rightarrow> posting_identity \<Rightarrow> ask_result \<Rightarrow> time \<Rightarrow> link \<Rightarrow> (link \<times> wait_outcome) option" where
  "waitForResponse sv who handle deadline l =
     (if \<not> lk_now l < deadline then Some (l, WaitFailed DEADLINE_TEXT)
      else
        (case session sv who l of
           (l1, None) \<Rightarrow> Some (l1, WaitBroke)
         | (l1, Some token) \<Rightarrow>
             (case callTool sv who token (WaitTool (ar_thread handle) (filled (ar_event handle))) l1 of
                (l2, None) \<Rightarrow> Some (l2, WaitBroke)
              | (l2, Some r) \<Rightarrow>
                  (case read_wait sv who token r l2 of
                     (l3, Some out) \<Rightarrow> Some (l3, out)
                   | (l3, None) \<Rightarrow> waitForResponse sv who handle deadline l3))))"

declare waitForResponse.simps [code]

section \<open>Artifacts\<close>

definition resolve_one ::
  "service \<Rightarrow> posting_identity \<Rightarrow> string \<Rightarrow> response_artifact list \<Rightarrow> nat \<Rightarrow> artifact_ref \<Rightarrow> link \<Rightarrow> link \<times> outcome" where
  "resolve_one sv who token arts maxBytes ref l =
     (case map_of (rev (map (\<lambda>a. (ra_identifier a, a)) arts)) (rf_identifier ref) of
        None \<Rightarrow> (l, Dropped (rf_identifier ref) Unavailable None)
      | Some art \<Rightarrow>
          (case callTool sv who token (DownloadTool (ra_id art) (ra_version art)) l of
             (l', None) \<Rightarrow> (l', Dropped (rf_identifier ref) Unavailable None)
           | (l', Some r) \<Rightarrow>
               (l', case decodeArtifact (sv_parse sv) (sv_fetch sv) ref art (tr_raw r) maxBytes of
                      Inr a \<Rightarrow> Resolved a
                    | Inl (reason, facts) \<Rightarrow> Dropped (rf_identifier ref) reason (filled facts))))"

fun resolve_each ::
  "service \<Rightarrow> posting_identity \<Rightarrow> string \<Rightarrow> response_artifact list \<Rightarrow> nat \<Rightarrow> artifact_ref list \<Rightarrow> link \<Rightarrow> link \<times> outcome list" where
  "resolve_each sv who token arts maxBytes [] l = (l, [])"
| "resolve_each sv who token arts maxBytes (ref # refs) l =
     (case resolve_one sv who token arts maxBytes ref l of
        (l', out) \<Rightarrow> (case resolve_each sv who token arts maxBytes refs l' of (l'', outs) \<Rightarrow> (l'', out # outs)))"

text \<open>\<open>None\<close>: no session, which throws.\<close>

definition resolveArtifacts ::
  "service \<Rightarrow> posting_identity \<Rightarrow> response_artifact list \<Rightarrow> artifact_ref list \<Rightarrow> nat \<Rightarrow> link \<Rightarrow> link \<times> outcome list option" where
  "resolveArtifacts sv who arts refs maxBytes l =
     (if refs = [] then (l, Some [])
      else
        (case session sv who l of
           (l', None) \<Rightarrow> (l', None)
         | (l', Some token) \<Rightarrow> (case resolve_each sv who token arts maxBytes refs l' of (l'', outs) \<Rightarrow> (l'', Some outs))))"

definition candidate_artifact :: "candidate \<Rightarrow> response_artifact" where
  "candidate_artifact c = \<lparr>ra_identifier = cd_identifier c, ra_title = cd_title c, ra_type = cd_type c, ra_id = cd_id c, ra_version = cd_version c\<rparr>"

fun try_candidates ::
  "service \<Rightarrow> posting_identity \<Rightarrow> string \<Rightarrow> nat \<Rightarrow> candidate list \<Rightarrow> link \<Rightarrow> link \<times> Artifacts.resolved option" where
  "try_candidates sv who token maxBytes [] l = (l, None)"
| "try_candidates sv who token maxBytes (c # cs) l =
     (case callTool sv who token (DownloadTool (cd_id c) (cd_version c)) l of
        (l', None) \<Rightarrow> try_candidates sv who token maxBytes cs l'
      | (l', Some r) \<Rightarrow>
          (case decodeArtifact (sv_parse sv) (sv_fetch sv) \<lparr>rf_identifier = cd_identifier c, rf_type = cd_type c\<rparr>
               (candidate_artifact c) (tr_raw r) maxBytes of
             Inr a \<Rightarrow> if pdfPayload (rv_bytes a) False \<noteq> None then (l', Some a) else try_candidates sv who token maxBytes cs l'
           | Inl e \<Rightarrow> try_candidates sv who token maxBytes cs l'))"

text \<open>It never throws.\<close>

definition recoverStoredPdf ::
  "service \<Rightarrow> posting_identity \<Rightarrow> string \<Rightarrow> nat \<Rightarrow> pdf_mode \<Rightarrow> link \<Rightarrow> link \<times> Artifacts.resolved option" where
  "recoverStoredPdf sv who thread maxBytes mode l =
     (if \<not> nonblank thread then (l, None)
      else
        (case session sv who l of
           (l1, None) \<Rightarrow> (l1, None)
         | (l1, Some token) \<Rightarrow>
             (case callTool sv who token (ListTool thread) l1 of
                (l2, None) \<Rightarrow> (l2, None)
              | (l2, Some r) \<Rightarrow>
                  (let structured = parseListedArtifacts (tr_structured r);
                       rows = (if structured \<noteq> [] then structured else parseListedArtifacts (Some (tr_raw r)))
                   in try_candidates sv who token maxBytes (take 4 (rankStoredPdfCandidates rows mode)) l2))))"

definition recoverInvoicePdf :: "service \<Rightarrow> posting_identity \<Rightarrow> string \<Rightarrow> nat \<Rightarrow> link \<Rightarrow> link \<times> Artifacts.resolved option" where
  "recoverInvoicePdf sv who thread maxBytes l = recoverStoredPdf sv who thread maxBytes InvoiceMode l"

section \<open>The adapter as a machine\<close>

text \<open>A wait that never ends does no further step.\<close>

datatype adapter_op =
    DoAsk posting_identity ask_input
  | DoWait posting_identity ask_result time
  | DoResolve posting_identity "response_artifact list" "artifact_ref list" nat
  | DoRecover posting_identity string nat pdf_mode
  | DoInvalidate posting_identity

fun adapter_step :: "service \<Rightarrow> link \<Rightarrow> adapter_op \<Rightarrow> link" where
  "adapter_step sv l (DoAsk who i) = fst (ask sv who i l)"
| "adapter_step sv l (DoWait who h dl) = (case waitForResponse sv who h dl l of None \<Rightarrow> l | Some (l', out) \<Rightarrow> l')"
| "adapter_step sv l (DoResolve who arts refs m) = fst (resolveArtifacts sv who arts refs m l)"
| "adapter_step sv l (DoRecover who t m mode) = fst (recoverStoredPdf sv who t m mode l)"
| "adapter_step sv l (DoInvalidate who) = invalidate who l"

definition new_link :: link where
  "new_link = \<lparr>lk_sessions = Map.empty, lk_lookups = 0, lk_calls = [], lk_now = 0\<rparr>"

text \<open>Each identity's tokens, cached or used, are ones the store gave for that identity.\<close>

definition issued :: "service \<Rightarrow> nat \<Rightarrow> posting_identity \<Rightarrow> string \<Rightarrow> bool" where
  "issued sv n who token \<longleftrightarrow> list_ex (\<lambda>k. sv_token sv k who = Some (Some token)) [0..<n]"

definition own_tokens :: "service \<Rightarrow> link \<Rightarrow> bool" where
  "own_tokens sv l \<longleftrightarrow>
     list_all (\<lambda>(who, token, c). issued sv (lk_lookups l) who token) (lk_calls l)
     \<and> (\<forall>who token. lk_sessions l who = Some token \<longrightarrow> issued sv (lk_lookups l) who token)"

section \<open>Using a session\<close>

text \<open>Whatever a call with a token keeps, everything done with a session keeps.\<close>

locale caller =
  fixes sv :: service and who :: posting_identity and token :: string and keeps :: "link \<Rightarrow> bool"
  assumes call_keeps: "keeps l \<Longrightarrow> keeps (fst (callTool sv who token c l))"
begin

lemma decline_keeps: "keeps l \<Longrightarrow> keeps (fst (decline_each sv who token as l))"
proof (induction as arbitrary: l)
  case (Cons a as)
  then show ?case by (cases a) (auto simp: call_keeps split: option.split)
qed simp

lemma read_keeps: "keeps l \<Longrightarrow> keeps (fst (read_wait sv who token r l))"
  using decline_keeps [of l]
  by (auto simp: read_wait_def declineAll_def Let_def split: option.split json.split prod.splits)
     (metis fst_conv)+

lemma resolve_one_keeps: "keeps l \<Longrightarrow> keeps (fst (resolve_one sv who token arts m ref l))"
  using call_keeps [of l] by (auto simp: resolve_one_def split: option.split prod.splits) (metis fst_conv)+

lemma resolve_keeps: "keeps l \<Longrightarrow> keeps (fst (resolve_each sv who token arts m refs l))"
proof (induction refs arbitrary: l)
  case (Cons ref refs)
  from resolve_one_keeps [OF Cons.prems] Cons.IH show ?case
    by (auto split: prod.split) (metis fst_conv)
qed simp

lemma try_keeps: "keeps l \<Longrightarrow> keeps (fst (try_candidates sv who token m cs l))"
proof (induction cs arbitrary: l)
  case (Cons c cs)
  have "keeps (fst (callTool sv who token (DownloadTool (cd_id c) (cd_version c)) l))" by (rule call_keeps [OF Cons.prems])
  with Cons.IH show ?case by (auto split: prod.split option.split sum.split)
qed simp

end

definition holding :: "service \<Rightarrow> posting_identity \<Rightarrow> string \<Rightarrow> link \<Rightarrow> bool" where
  "holding sv who token l \<longleftrightarrow> own_tokens sv l \<and> issued sv (lk_lookups l) who token"

interpretation holder: caller sv who token "holding sv who token" for sv who token
  by unfold_locales (simp add: holding_def callTool_def Let_def own_tokens_def)

lemma issued_mono: "issued sv n who token \<Longrightarrow> n \<le> m \<Longrightarrow> issued sv m who token"
  by (auto simp: issued_def list_ex_iff)

lemma session_own:
  assumes "own_tokens sv l" and "session sv who l = (l', r)"
  shows "own_tokens sv l' \<and> (case r of None \<Rightarrow> True | Some token \<Rightarrow> holding sv who token l')"
proof -
  have up: "issued sv (lk_lookups l) i t \<Longrightarrow> issued sv (Suc (lk_lookups l)) i t" for i t by (erule issued_mono) simp
  have new: "sv_token sv (lk_lookups l) who = Some (Some t) \<Longrightarrow> issued sv (Suc (lk_lookups l)) who t" for t
    by (auto simp: issued_def list_ex_iff)
  have calls: "list_all (\<lambda>(i, t, c). issued sv (Suc (lk_lookups l)) i t) (lk_calls l)"
    using assms(1) up by (auto simp: own_tokens_def list_all_iff)
  have kept: "lk_sessions l i = Some t \<Longrightarrow> issued sv (Suc (lk_lookups l)) i t" for i t
    using assms(1) up by (auto simp: own_tokens_def)
  show ?thesis
  proof (cases "identity_ok who")
    case True
    then show ?thesis using assms(2)
      by (auto simp: session_def Let_def holding_def own_tokens_def filled_def calls kept new split: if_splits option.splits)
  qed (use assms in \<open>auto simp: session_def\<close>)
qed

lemma call_as_own: "own_tokens sv l \<Longrightarrow> own_tokens sv (fst (call_as sv who c l))"
  using session_own [of sv l who] holder.call_keeps
  by (fastforce simp: call_as_def holding_def split: prod.splits option.splits)

lemma wait_own:
  assumes "waitForResponse sv who h dl l = Some r"
  shows "own_tokens sv l \<longrightarrow> own_tokens sv (fst r)"
  using assms
proof (rule waitForResponse.raw_induct [where P = "\<lambda>sv who h dl l r. own_tokens sv l \<longrightarrow> own_tokens sv (fst r)", rotated], goal_cases)
  case (1 wait sv who h dl l r)
  show ?case
  proof
    assume own: "own_tokens sv l"
    show "own_tokens sv (fst r)"
    proof (cases "lk_now l < dl")
      case True
      obtain l1 t where s: "session sv who l = (l1, t)" by fastforce
      show ?thesis
      proof (cases t)
        case None
        then show ?thesis using 1(2) True s session_own [OF own s] by auto
      next
        case (Some token)
        then have "holding sv who token l1" using session_own [OF own s] by simp
        then have c: "holding sv who token (fst (callTool sv who token (WaitTool (ar_thread h) (filled (ar_event h))) l1))"
          by (rule holder.call_keeps)
        have k: "holding sv who token (fst (read_wait sv who token x (fst (callTool sv who token (WaitTool (ar_thread h) (filled (ar_event h))) l1))))" for x
          by (rule holder.read_keeps [OF c])
        obtain l2 answer where a: "callTool sv who token (WaitTool (ar_thread h) (filled (ar_event h))) l1 = (l2, answer)" by fastforce
        show ?thesis
        proof (cases answer)
          case None
          then show ?thesis using 1(2) True s Some a c by (auto simp: holding_def)
        next
          case (Some x)
          obtain l3 out where rd: "read_wait sv who token x l2 = (l3, out)" by fastforce
          have "own_tokens sv l3" using k [of x] by (simp add: a rd holding_def)
          then show ?thesis using 1 True s \<open>t = Some token\<close> a Some rd by (cases out) auto
        qed
      qed
    qed (use 1(2) own in auto)
  qed
qed

lemma session_then_own:
  "own_tokens sv l \<Longrightarrow> session sv who l = (l', Some token) \<Longrightarrow> holding sv who token l'"
  using session_own [of sv l who l' "Some token"] by simp

lemma step_own: "own_tokens sv l \<Longrightarrow> own_tokens sv (adapter_step sv l e)"
proof (induction e)
  case (DoAsk who i)
  then show ?case using call_as_own [OF DoAsk]
    by (auto simp: ask_def split: option.split prod.splits) (metis fst_conv)+
next
  case (DoWait who h dl)
  then show ?case using wait_own by (fastforce split: option.split)
next
  case (DoResolve who arts refs m)
  obtain l' t where s: "session sv who l = (l', t)" by fastforce
  show ?case
  proof (cases t)
    case (Some token)
    then have "holding sv who token (fst (resolve_each sv who token arts m refs l'))"
      using session_then_own DoResolve s by (auto intro: holder.resolve_keeps)
    then show ?thesis using Some s DoResolve by (auto simp: resolveArtifacts_def holding_def split: prod.splits)
  qed (use session_own [OF DoResolve s] s DoResolve in \<open>auto simp: resolveArtifacts_def\<close>)
next
  case (DoRecover who t m mode)
  obtain l' x where s: "session sv who l = (l', x)" by fastforce
  show ?case
  proof (cases x)
    case (Some token)
    then have h: "holding sv who token l'" using session_then_own DoRecover s by blast
    then have c: "holding sv who token (fst (callTool sv who token (ListTool t) l'))" by (rule holder.call_keeps)
    then have "holding sv who token (fst (try_candidates sv who token m cs (fst (callTool sv who token (ListTool t) l'))))" for cs
      by (rule holder.try_keeps)
    with c show ?thesis using Some s DoRecover
      by (auto simp: recoverStoredPdf_def holding_def Let_def split: prod.splits option.splits)
  qed (use session_own [OF DoRecover s] s DoRecover in \<open>auto simp: recoverStoredPdf_def\<close>)
next
  case (DoInvalidate who)
  then show ?case by (auto simp: invalidate_def own_tokens_def)
qed

interpretation adapter: machine "adapter_step sv" "own_tokens sv" for sv
  by unfold_locales (rule step_own)

section \<open>Properties\<close>

text \<open>C11: No shopper acts with another's credential: whatever is asked, awaited, fetched and invalidated, in any order, every
  call to the platform for an identity carries a token that the credential store gave for that very identity.\<close>

theorem tokens_stay_with_their_identity:
  "list_all (\<lambda>(who, token, c). list_ex (\<lambda>k. sv_token sv k who = Some (Some token)) [0..<lk_lookups (foldl (adapter_step sv) new_link ops)])
     (lk_calls (foldl (adapter_step sv) new_link ops))"
proof -
  have "own_tokens sv new_link" by (simp add: own_tokens_def new_link_def)
  then have "own_tokens sv (foldl (adapter_step sv) new_link ops)" by (rule adapter.run_inv)
  then show ?thesis by (simp add: own_tokens_def issued_def)
qed

lemma session_time: "session sv who l = (l', r) \<Longrightarrow> lk_now l' = lk_now l"
  by (auto simp: session_def Let_def split: if_splits option.splits)

lemma read_goes_on: "read_wait sv who token r l = (l', None) \<Longrightarrow> l' = l"
  by (auto simp: read_wait_def Let_def split: if_splits prod.splits)

lemma wait_ends:
  assumes "\<And>n. 0 < sv_pause sv n"
  shows "waitForResponse sv who handle deadline l \<noteq> None"
proof (induction "deadline - lk_now l" arbitrary: l rule: less_induct)
  case less
  have later: "waitForResponse sv who handle deadline l3 \<noteq> None"
    if "lk_now l < deadline" "session sv who l = (l1, Some token)" "callTool sv who token c l1 = (l2, Some r)"
      "read_wait sv who token r l2 = (l3, None)" for l1 l2 l3 token c r
  proof -
    have "lk_now l3 = lk_now l + sv_pause sv (length (lk_calls l1))"
      using session_time [OF that(2)] read_goes_on [OF that(4)] that(3) by (auto simp: callTool_def Let_def)
    then have "deadline - lk_now l3 < deadline - lk_now l"
      using that(1) assms [of "length (lk_calls l1)"] by linarith
    then show ?thesis by (rule less)
  qed
  show ?case
    by (subst waitForResponse.simps) (auto split: prod.splits option.splits dest: later)
qed

text \<open>C19: Waiting for an answer returns: as long as a call takes any time at all, the loop ends by its deadline, whatever the
  service answers.\<close>

theorem waiting_returns:
  assumes "\<And>n. 0 < sv_pause sv n"
  shows "waitForResponse sv who handle deadline l \<noteq> None"
  using assms by (rule wait_ends)

lemma failure_codes: "terminalFailureCode sc = Some code \<Longrightarrow> code \<in> set SAFE_FAILURE_REASONS"
  by (auto simp: terminalFailureCode_def SAFE_FAILURE_REASONS_def Let_def split: if_splits)

lemma read_failure: "read_wait sv who token r l = (l', Some (WaitFailed m)) \<Longrightarrow> m \<in> set SAFE_FAILURE_REASONS"
  by (auto simp: read_wait_def Let_def failure_codes split: if_splits prod.splits option.splits)

lemma wait_failure:
  assumes "waitForResponse sv who handle deadline l = Some r"
  shows "\<forall>m. snd r = WaitFailed m \<longrightarrow> m \<in> set SAFE_FAILURE_REASONS"
  using assms
proof (rule waitForResponse.raw_induct [where P = "\<lambda>sv who h dl l r. \<forall>m. snd r = WaitFailed m \<longrightarrow> m \<in> set SAFE_FAILURE_REASONS", rotated], goal_cases)
  case (1 wait sv who h dl l r)
  have "DEADLINE_TEXT \<in> set SAFE_FAILURE_REASONS" by (simp add: DEADLINE_TEXT_def SAFE_FAILURE_REASONS_def)
  with 1(2) show ?case
    by (auto split: if_splits prod.splits option.splits dest: read_failure 1(1))
qed

text \<open>What a failed run is reported as is one of the fixed codes, never a text of the server.\<close>

theorem failure_is_a_fixed_code:
  assumes "waitForResponse sv who handle deadline l = Some (l', WaitFailed m)"
  shows "m \<in> set SAFE_FAILURE_REASONS"
  using wait_failure [OF assms] by simp

fun outcome_name :: "outcome \<Rightarrow> string" where
  "outcome_name (Resolved a) = rv_identifier a"
| "outcome_name (Dropped i reason facts) = i"

lemma decoded_name: "decodeArtifact parse fetch ref art raw m = Inr a \<Longrightarrow> rv_identifier a = rf_identifier ref"
  by (auto simp: decodeArtifact_def Let_def split: option.splits if_splits)

lemma resolve_one_name: "outcome_name (snd (resolve_one sv who token arts m ref l)) = rf_identifier ref"
  by (auto simp: resolve_one_def decoded_name split: option.split prod.split sum.split)

lemma resolve_each_names: "map outcome_name (snd (resolve_each sv who token arts m refs l)) = map rf_identifier refs"
proof (induction refs arbitrary: l)
  case (Cons ref refs)
  show ?case using Cons resolve_one_name [of sv who token arts m ref l] by (auto split: prod.split) (metis snd_conv)
qed simp

text \<open>C21: Resolving the files of an answer gives one outcome for each reference, under its name and in its order.\<close>

theorem one_outcome_per_reference:
  "case snd (resolveArtifacts sv who arts refs maxBytes l) of
     None \<Rightarrow> refs \<noteq> [] \<and> snd (session sv who l) = None
   | Some outs \<Rightarrow> map outcome_name outs = map rf_identifier refs"
  using resolve_each_names by (auto simp: resolveArtifacts_def split: option.split prod.split) (metis snd_conv)

section \<open>Concrete waits\<close>

definition sample_service :: service where
  "sample_service = \<lparr>sv_token = (\<lambda>n who. Some (Some ''t'')), sv_endpoint = True, sv_project = None,
     sv_answer = (\<lambda>n c. Some \<lparr>tr_text = [], tr_structured = Some (JObj [(''status'', JStr ''failed'')]), tr_raw = JNull\<rparr>),
     sv_pause = (\<lambda>n. 1), sv_parse = (\<lambda>u. None), sv_fetch = (\<lambda>u. None)\<rparr>"

definition sample_handle :: ask_result where "sample_handle = \<lparr>ar_thread = ''th'', ar_event = None\<rparr>"

theorem waiting_returns_witness: "waitForResponse sample_service ClientIdentity sample_handle 10 new_link \<noteq> None"
  by (rule waiting_returns) (simp add: sample_service_def)

lemma sample_failure:
  "terminalFailureCode [(''status'', JStr ''failed'')] = Some ''promptql_run_failed''"
  "lowercase (trim (or_empty (text_field (json_prop ''status'' [(''status'', JStr ''failed'')])))) = ''failed''"
  by code_simp+

lemma sample_wait:
  "\<exists>l'. waitForResponse sample_service ClientIdentity sample_handle 10 new_link = Some (l', WaitFailed ''promptql_run_failed'')"
  by (subst waitForResponse.simps)
    (simp add: sample_service_def new_link_def session_def identity_ok_def filled_def callTool_def read_wait_def as_record_def sample_failure)

theorem failure_is_a_fixed_code_witness: "''promptql_run_failed'' \<in> set SAFE_FAILURE_REASONS"
proof -
  obtain l' where "waitForResponse sample_service ClientIdentity sample_handle 10 new_link = Some (l', WaitFailed ''promptql_run_failed'')"
    using sample_wait by blast
  then show ?thesis by (rule failure_is_a_fixed_code)
qed

end
