(* ===== verification/Dispatcher.thy ===== *)
theory Dispatcher
  imports PdfGuard Adapter
begin

text \<open>
  The outbound half of the flow (\<open>src/routing/outboundDispatcher.ts\<close>) with the sending operations of
  \<open>src/whatsapp/socket.ts\<close>: wait for the answer, fetch its files, guard PDFs, write the text or the
  caption, send through the queue, settle the claim. At every \<open>await\<close> other tasks may change the
  tables (\<open>dv_during\<close>). The queue and the socket answer by oracles. Curly apostrophes are
  \<open>apostrophe\<close>; releasing the bytes of sent files is not represented.
\<close>

section \<open>State and environment\<close>

datatype payload = TextOut string | DocOut bytes string string "string option"

record sent =
  sn_chat :: "string \<times> string"
  sn_payload :: payload
  sn_ref :: string

record desk =
  dk_log :: "out_row list"
  dk_flows :: "workflow list"
  dk_welcome :: "welcome_row list"
  dk_chats :: chat_db
  dk_shoppers :: "shopper list"
  dk_preparing :: "string \<rightharpoonup> time"
  dk_link :: link
  dk_handed :: "((string \<times> string) \<times> payload) list"
  dk_sent :: "sent list"
  dk_logged :: "string list"
  dk_now :: time
  dk_awaits :: nat

datatype desk_event =
    LogChange out_op
  | FlowChange workflow_op
  | ChatChange chat_op
  | WelcomeChange welcome_op
  | ShopperChange "shopper list"
  | PreparingChange string time
  | LinkChange adapter_op

record desk_env =
  dv_service :: service
  dv_response_ms :: nat
  dv_max_bytes :: nat
  dv_welcome_log :: bool
  dv_linked :: "nat \<Rightarrow> bool"
  dv_queue :: "nat \<Rightarrow> bool"
  dv_id :: "nat \<Rightarrow> string"
  dv_ref :: "nat \<Rightarrow> string option"
  dv_during :: "nat \<Rightarrow> desk_event list"
  dv_pause :: "nat \<Rightarrow> nat"

fun desk_happen :: "desk_env \<Rightarrow> desk \<Rightarrow> desk_event \<Rightarrow> desk" where
  "desk_happen v dk (LogChange e) = dk\<lparr>dk_log := out_step (dk_log dk) e\<rparr>"
| "desk_happen v dk (FlowChange e) = dk\<lparr>dk_flows := workflow_step (dk_flows dk) e\<rparr>"
| "desk_happen v dk (ChatChange e) = dk\<lparr>dk_chats := chat_step (dk_chats dk) e\<rparr>"
| "desk_happen v dk (WelcomeChange e) = dk\<lparr>dk_welcome := welcome_step (dk_shoppers dk) (dk_welcome dk) e\<rparr>"
| "desk_happen v dk (ShopperChange s) = dk\<lparr>dk_shoppers := s\<rparr>"
| "desk_happen v dk (PreparingChange jid t) = dk\<lparr>dk_preparing := (dk_preparing dk)(jid \<mapsto> t)\<rparr>"
| "desk_happen v dk (LinkChange e) = dk\<lparr>dk_link := adapter_step (dv_service v) (dk_link dk) e\<rparr>"

definition pass :: "desk_env \<Rightarrow> desk \<Rightarrow> desk" where
  "pass v dk =
     (let n = dk_awaits dk in
      foldl (desk_happen v) (dk\<lparr>dk_awaits := n + 1, dk_now := dk_now dk + dv_pause v n\<rparr>) (dv_during v n))"

section \<open>Sending\<close>

datatype send_result = Delivered string | ChatLeft | SendBroke

text \<open>\<open>canSend\<close>; the lookup of the bot may throw.\<close>

definition canSend :: "string \<times> string \<Rightarrow> desk \<Rightarrow> bool option" where
  "canSend k dk =
     (if \<not> isGroupJid (snd k) then Some True
      else
        (case getBot k (dk_chats dk) of
           Inl e \<Rightarrow> None
         | Inr None \<Rightarrow> Some True
         | Inr (Some b) \<Rightarrow> Some (cb_paused b = None)))"

fun payload_ok :: "payload \<Rightarrow> bool" where
  "payload_ok (TextOut t) = (t \<noteq> [])"
| "payload_ok (DocOut bs name mime caption) = (1 \<le> length name \<and> length name \<le> 255 \<and> 1 \<le> length mime \<and> length mime \<le> 255)"

text \<open>What the queue runs when the turn of the message comes: the chat is looked at again, the id is stored before the
  socket can echo it.\<close>

definition hand_to_socket :: "desk_env \<Rightarrow> string \<times> string \<Rightarrow> payload \<Rightarrow> desk \<Rightarrow> desk \<times> send_result" where
  "hand_to_socket v k p dk =
     (case canSend k dk of
        None \<Rightarrow> (dk, SendBroke)
      | Some False \<Rightarrow> (dk, ChatLeft)
      | Some True \<Rightarrow>
          (case recordGatewayMessage (dk_now dk) (fst k) (snd k) (dv_id v (dk_awaits dk)) (dk_log dk) of
             Inl e \<Rightarrow> (dk, SendBroke)
           | Inr rows \<Rightarrow>
               (let n = dk_awaits dk; dk' = pass v (dk\<lparr>dk_log := rows, dk_handed := dk_handed dk @ [(k, p)]\<rparr>) in
                case filled (dv_ref v n) of
                  None \<Rightarrow> (dk', SendBroke)
                | Some ref \<Rightarrow> (dk'\<lparr>dk_sent := dk_sent dk' @ [\<lparr>sn_chat = k, sn_payload = p, sn_ref = ref\<rparr>]\<rparr>, Delivered ref))))"

text \<open>\<open>sendText\<close> and \<open>sendDocument\<close>.\<close>

definition send_payload :: "desk_env \<Rightarrow> string \<times> string \<Rightarrow> payload \<Rightarrow> desk \<Rightarrow> desk \<times> send_result" where
  "send_payload v k p dk =
     (if snd k = [] \<or> \<not> payload_ok p \<or> \<not> dv_linked v (dk_awaits dk) then (dk, SendBroke)
      else
        (let dk' = pass v dk in
         if \<not> dv_queue v (dk_awaits dk) then (dk', SendBroke) else hand_to_socket v k p dk'))"

section \<open>Failing\<close>

definition reply_key :: "dispatch \<Rightarrow> string \<times> string" where
  "reply_key i = (fst (ds_chat i), ds_key i)"

definition fail_claim :: "dispatch \<Rightarrow> desk \<Rightarrow> desk" where
  "fail_claim i dk = dk\<lparr>dk_log := fst (markFailed (dk_now dk) (reply_key i) (ds_token i) (dk_log dk))\<rparr>"

definition fail_dispatch :: "dispatch \<Rightarrow> string \<Rightarrow> desk \<Rightarrow> desk" where
  "fail_dispatch i reason dk =
     (fail_claim i (dk\<lparr>dk_flows := markWorkflowFailed (dk_now dk) (ds_workflow i) (dk_flows dk)\<rparr>))
       \<lparr>dk_logged := dk_logged dk @ [outboundFailureReason reason]\<rparr>"

section \<open>Texts\<close>

definition apostrophe :: string where "apostrophe = [CHR 146]"

definition OPERATOR_WELCOME_BASE :: string where
  "OPERATOR_WELCOME_BASE = join_with nl
     [''Hi, this is SEPT.'', [], ''I help you sell luxury '' @ em_dash @ '' in the chats you already use.'', [], ''I can:'',
      ''* Remember pieces as they come in'', ''* Match what'' @ apostrophe @ ''s available to the right clients'',
      ''* Remember requests, sizes, prices, and open deals'', ''* Track client shipments'',
      ''* Draft messages in your voice, for your approval'', ''* Prep invoices and payment summaries'', [],
      ''I only see conversations I'' @ apostrophe @ ''m added to. Add me to the chats where you buy, sell, and talk to clients.'']"

definition OPERATOR_WELCOME_PROMPT :: string where
  "OPERATOR_WELCOME_PROMPT = OPERATOR_WELCOME_BASE @ nl @ nl @ ''How can I help?''"

definition cleanArtifactPermalinks :: "string \<Rightarrow> string" where
  "cleanArtifactPermalinks text =
     squeeze_lines (replace_all (sq [bol, star blank, lit ''https://ql.app/l/'', plus (Cls is_alnum), star blank, eol]) [] text)"

definition documentForWhatsApp :: "Artifacts.resolved \<Rightarrow> bytes \<times> string \<times> string" where
  "documentForWhatsApp a =
     (case whatsAppPdfDocument (rv_bytes a) (rv_file a) (rv_mime a) of
        Some d \<Rightarrow> d | None \<Rightarrow> (rv_bytes a, rv_file a, rv_mime a))"

definition isHtmlChip :: "Artifacts.resolved \<Rightarrow> bool" where
  "isHtmlChip a \<longleftrightarrow> mime_base (rv_mime a) \<in> {''text/html'', ''application/xhtml+xml''} \<or> looksLikeHtmlBytes (rv_bytes a)"

definition html_tag :: rx where
  "html_tag = sq [lit_i ''<artifact'', wb, star (none_of ''>''), wb, lit_i ''type'', star ws, lit ''='', star ws,
     lit [CHR 34], lit_i ''html'', lit [CHR 34]]"

definition replyHasHtmlSubstitute :: "string \<Rightarrow> artifact_ref list \<Rightarrow> response_artifact list \<Rightarrow> bool" where
  "replyHasHtmlSubstitute reply refs arts \<longleftrightarrow>
     test html_document reply \<or> test html_tag reply
     \<or> list_ex (\<lambda>r. isHtmlArtifactSignal r None (rf_type r)) refs
     \<or> list_ex (\<lambda>a. isHtmlArtifactSignal \<lparr>rf_identifier = ra_identifier a, rf_type = ra_type a\<rparr> (ra_title a) (ra_type a)) arts"

definition failure_phrase :: "failure_reason \<Rightarrow> nat \<Rightarrow> string" where
  "failure_phrase reason n =
     (let noun = (if n = 1 then ''attachment'' else show_nat n @ '' attachments'')
      in if reason = TooLarge then noun @ '' too large to send'' else noun @ '' couldn'' @ [CHR 39] @ ''t be retrieved'')"

definition withFailureNote :: "string \<Rightarrow> failure_reason list \<Rightarrow> string" where
  "withFailureNote text failures =
     (if failures = [] then text
      else
        (let joined = join_with ''; '' (map (\<lambda>r. failure_phrase r (length (filter (\<lambda>f. f = r) failures))) (distinct_first failures));
             note = ''('' @ uppercase (take 1 joined) @ drop 1 joined @ '')''
         in if text = [] then note else text @ nl @ nl @ note))"

section \<open>What is answered\<close>

text \<open>The text and the references of an answer.\<close>

definition answer_parts :: "string \<Rightarrow> bool \<Rightarrow> response_artifact list \<Rightarrow> string \<times> artifact_ref list" where
  "answer_parts answer completed arts =
     (let (text, refs) = (if completed \<and> answer \<noteq> [] then parseArtifactRefs answer else (answer, []));
          selected = selectDocumentArtifactRefs arts
      in if completed \<and> refs = [] \<and> arts \<noteq> [] \<and> selected \<noteq> [] then (cleanArtifactPermalinks text, selected) else (text, refs))"

definition fetched :: "outcome list \<Rightarrow> Artifacts.resolved list" where
  "fetched outs = filter (\<lambda>a. \<not> isHtmlChip a)
     (List.map_filter (\<lambda>out. case out of Resolved a \<Rightarrow> Some a | Dropped i r f \<Rightarrow> None) outs)"

definition noted_failures :: "outcome list \<Rightarrow> failure_reason list" where
  "noted_failures outs =
     List.map_filter (\<lambda>out. case out of Resolved a \<Rightarrow> None | Dropped i r f \<Rightarrow> if r = NotAttachable then None else Some r) outs"

text \<open>A file reference whose download failed.\<close>

definition failed_reference :: "response_artifact list \<Rightarrow> outcome list \<Rightarrow> artifact_ref \<Rightarrow> bool" where
  "failed_reference arts outs ref =
     (let listed = find (\<lambda>a. ra_identifier a = rf_identifier ref) arts;
          title = Option.bind listed ra_title; ty = Option.bind listed ra_type;
          out = find (\<lambda>out. outcome_name out = rf_identifier ref) outs
      in if isHtmlArtifactSignal ref title ty then False
         else if \<not> isPdfishArtifactRef \<lparr>rf_identifier = rf_identifier ref, rf_type = first_of (rf_type ref) ty\<rparr> title then False
         else (case out of
             Some (Dropped i r f) \<Rightarrow> r \<noteq> NotAttachable
           | Some (Resolved a) \<Rightarrow> isApplicationPdf a
           | None \<Rightarrow> True))"

definition fact_texts :: "outcome list \<Rightarrow> string" where
  "fact_texts outs = take 4000 (join_with nl
     (List.map_filter (\<lambda>out. case out of Resolved a \<Rightarrow> None | Dropped i r f \<Rightarrow> filled f) outs))"

text \<open>A reply as it leaves: its text, files, failures, and which captions stand for it.\<close>

record reply =
  rp_text :: string
  rp_files :: "Artifacts.resolved list"
  rp_failures :: "failure_reason list"
  rp_invoice :: bool
  rp_document :: bool

definition names_invoice :: "Artifacts.resolved \<Rightarrow> bool" where
  "names_invoice a \<longleftrightarrow> test (either [lit_i ''invoice'', sq [lit_i ''sept'', one_of ''_-'', lit_i ''inv'', wb]])
     (rv_identifier a @ '' '' @ rv_title a)"

text \<open>The guard of PDFs, once what is stored on the thread is known.\<close>

definition must_guard :: "bool \<Rightarrow> Artifacts.resolved list \<Rightarrow> bool \<Rightarrow> bool \<Rightarrow> bool" where
  "must_guard completed files invoice doc \<longleftrightarrow> completed \<and> \<not> list_ex isApplicationPdf files \<and> (invoice \<or> doc)"

definition guarded_reply :: "guard_input \<Rightarrow> bool \<Rightarrow> bool \<Rightarrow> reply \<Rightarrow> reply" where
  "guarded_reply g invoice doc r =
     (case ensureOutboundPdf g invoice doc of
        Attach source a \<Rightarrow> r\<lparr>rp_files := [a], rp_failures := [], rp_invoice := invoice, rp_document := doc\<rparr>
      | Preparing t \<Rightarrow> r\<lparr>rp_files := [], rp_failures := [], rp_text := t\<rparr>
      | Unchanged \<Rightarrow> r)"

definition plain_reply :: "string \<Rightarrow> bool \<Rightarrow> reply \<Rightarrow> reply" where
  "plain_reply answer doc r =
     (if list_ex (\<lambda>a. isApplicationPdf a \<and> (claimsInvoiceDelivery answer \<or> names_invoice a)) (rp_files r)
      then r\<lparr>rp_invoice := True\<rparr>
      else if list_ex isApplicationPdf (rp_files r) \<and> doc then r\<lparr>rp_document := True\<rparr>
      else r)"

text \<open>The text that is sent, or the caption of the first file.\<close>

definition caption_of :: "bool \<Rightarrow> reply \<Rightarrow> string" where
  "caption_of welcome r =
     (let prefix = (if welcome then Some OPERATOR_WELCOME_BASE else None);
          full = (if welcome then OPERATOR_WELCOME_BASE @ nl @ nl @ rp_text r else rp_text r);
          noted = withFailureNote (trim (sanitizeOutboundText full)) (rp_failures r);
          short = documentCaption noted prefix
      in if rp_files r = [] then noted
         else if rp_invoice r then invoiceDocumentCaption prefix
         else if short \<noteq> [] then short
         else if rp_document r then DOCUMENT_PDF_CAPTION else [])"

section \<open>Dispatching\<close>

definition identity_of :: "dispatch \<Rightarrow> posting_identity" where
  "identity_of i = ShopperIdentity (ds_role i) (ds_shopper i)"

text \<open>A use of the adapter, which takes its time; others run before it is awaited.\<close>

definition linked_step :: "desk_env \<Rightarrow> (link \<Rightarrow> link \<times> 'a) \<Rightarrow> desk \<Rightarrow> desk \<times> 'a" where
  "linked_step v f dk =
     (case f ((dk_link dk)\<lparr>lk_now := dk_now dk\<rparr>) of
        (l, a) \<Rightarrow> (pass v (dk\<lparr>dk_link := l, dk_now := lk_now l\<rparr>), a))"

definition fetch_files :: "desk_env \<Rightarrow> dispatch \<Rightarrow> response_artifact list \<Rightarrow> artifact_ref list \<Rightarrow> desk \<Rightarrow> desk \<times> outcome list" where
  "fetch_files v i arts refs dk =
     (if refs = [] then (dk, [])
      else
        (case linked_step v (resolveArtifacts (dv_service v) (identity_of i) arts refs (dv_max_bytes v)) dk of
           (dk', None) \<Rightarrow> (dk', preferPdfInvoiceArtifacts (map (\<lambda>r. Dropped (rf_identifier r) Unavailable None) refs))
         | (dk', Some outs) \<Rightarrow> (dk', preferPdfInvoiceArtifacts outs)))"

definition stored_pdf :: "desk_env \<Rightarrow> dispatch \<Rightarrow> bool \<Rightarrow> desk \<Rightarrow> desk \<times> Artifacts.resolved option" where
  "stored_pdf v i invoice dk =
     (if ds_thread i = [] then (dk, None)
      else linked_step v (recoverStoredPdf (dv_service v) (identity_of i) (ds_thread i) (dv_max_bytes v)
          (if invoice then InvoiceMode else DocumentMode)) dk)"

definition write_reply ::
  "desk_env \<Rightarrow> dispatch \<Rightarrow> string \<Rightarrow> bool \<Rightarrow> response_artifact list \<Rightarrow> string \<Rightarrow> artifact_ref list \<Rightarrow> desk \<Rightarrow> desk \<times> reply" where
  "write_reply v i answer completed arts text refs dk =
     (case fetch_files v i arts refs dk of
        (dk1, outs) \<Rightarrow>
          (let html = replyHasHtmlSubstitute answer refs arts;
               invoice = shouldEnforceInvoicePdf answer (Some (ds_operator_text i)) html;
               doc = (\<not> invoice \<and> shouldEnforceDocumentPdf answer (Some (ds_operator_text i)) html);
               r = \<lparr>rp_text = text, rp_files = fetched outs, rp_failures = noted_failures outs, rp_invoice = False, rp_document = False\<rparr>
           in if must_guard completed (fetched outs) invoice doc then
                (case stored_pdf v i invoice dk1 of
                   (dk2, stored) \<Rightarrow>
                     (dk2, guarded_reply
                        \<lparr>gi_reply = answer, gi_operator = Some (ds_operator_text i), gi_supplemental = Some (fact_texts outs),
                         gi_has_pdf = False, gi_referenced = list_ex (failed_reference arts outs) refs, gi_recovered = stored,
                         gi_max = dv_max_bytes v, gi_issued = dk_now dk2\<rparr> invoice doc r))
              else (dk1, plain_reply answer doc r)))"

text \<open>The loop over the further files: the reply is sent already, so a failure only stops or skips.\<close>

fun send_rest :: "desk_env \<Rightarrow> dispatch \<Rightarrow> Artifacts.resolved list \<Rightarrow> desk \<Rightarrow> desk \<times> bool" where
  "send_rest v i [] dk = (dk, True)"
| "send_rest v i (a # as) dk =
     (case canSend (ds_chat i) dk of
        None \<Rightarrow> (dk, False)
      | Some False \<Rightarrow> (dk, True)
      | Some True \<Rightarrow>
          (case documentForWhatsApp a of
             (bs, name, mime) \<Rightarrow>
               (case send_payload v (ds_chat i) (DocOut bs name mime None) dk of
                  (dk', ChatLeft) \<Rightarrow> (dk', True)
                | (dk', out) \<Rightarrow> send_rest v i as dk')))"

definition first_payload :: "reply \<Rightarrow> string \<Rightarrow> payload" where
  "first_payload r caption =
     (case rp_files r of
        [] \<Rightarrow> TextOut caption
      | a # as \<Rightarrow> (case documentForWhatsApp a of (bs, name, mime) \<Rightarrow> DocOut bs name mime (filled (Some caption))))"

text \<open>The claim is marked sent, and then the welcome is recorded, which may throw.\<close>

definition confirm :: "desk_env \<Rightarrow> dispatch \<Rightarrow> bool \<Rightarrow> string \<Rightarrow> desk \<Rightarrow> desk \<times> bool" where
  "confirm v i welcome ref dk =
     (case markSent (dk_now dk) (reply_key i) (ds_token i) (snd (ds_chat i)) ref (dk_log dk) of
        (rows, ok) \<Rightarrow>
          (let dk' = dk\<lparr>dk_log := rows\<rparr> in
           if ok \<and> welcome \<and> dv_welcome_log v then
             (case recordWelcomeSent (dk_shoppers dk') (dk_now dk') (ds_shopper i) (fst (ds_chat i)) None (dk_welcome dk') of
                Inl e \<Rightarrow> (dk', False)
              | Inr w \<Rightarrow> (dk'\<lparr>dk_welcome := w\<rparr>, True))
           else (dk', True)))"

text \<open>The first send with its \<open>try\<close>: whether the further files follow.\<close>

definition send_first :: "desk_env \<Rightarrow> dispatch \<Rightarrow> payload \<Rightarrow> desk \<Rightarrow> desk \<times> bool" where
  "send_first v i p dk =
     (case send_payload v (ds_chat i) p dk of
        (dk', ChatLeft) \<Rightarrow> (fail_dispatch i ''chat_left'' dk', False)
      | (dk', SendBroke) \<Rightarrow> (fail_claim i dk', False)
      | (dk', Delivered ref) \<Rightarrow>
          (case confirm v i (ds_welcome i) ref dk' of
             (dk'', True) \<Rightarrow> (dk'', True)
           | (dk'', False) \<Rightarrow> (fail_claim i dk'', False)))"

definition PREPARING_DEDUPE_MS :: nat where "PREPARING_DEDUPE_MS = 120000"

definition is_preparing :: "reply \<Rightarrow> string \<Rightarrow> bool" where
  "is_preparing r caption \<longleftrightarrow> rp_files r = [] \<and> trim caption \<in> {INVOICE_PREPARING_TEXT, DOCUMENT_PREPARING_TEXT}"

definition recently_prepared :: "dispatch \<Rightarrow> desk \<Rightarrow> bool" where
  "recently_prepared i dk \<longleftrightarrow>
     dk_now dk < (case dk_preparing dk (snd (ds_chat i)) of None \<Rightarrow> 0 | Some t \<Rightarrow> t) + PREPARING_DEDUPE_MS"

definition done_text :: "reply \<Rightarrow> string \<Rightarrow> string" where
  "done_text r caption =
     (if caption \<noteq> [] then caption else ''('' @ show_nat (length (rp_files r)) @ '' attachment(s))'')"

text \<open>From the reply on; the flag is false where the handler throws.\<close>

definition send_reply :: "desk_env \<Rightarrow> dispatch \<Rightarrow> reply \<Rightarrow> desk \<Rightarrow> desk \<times> bool" where
  "send_reply v i r dk =
     (let caption = caption_of (ds_welcome i) r in
      if caption = [] \<and> rp_files r = [] then (fail_dispatch i ''empty response'' dk, True)
      else if is_preparing r caption \<and> recently_prepared i dk then (fail_dispatch i ''duplicate_invoice_preparing'' dk, True)
      else
        (let dk1 = (if is_preparing r caption then dk\<lparr>dk_preparing := (dk_preparing dk)(snd (ds_chat i) \<mapsto> dk_now dk)\<rparr> else dk);
             dk2 = dk1\<lparr>dk_flows := markDone (dk_now dk1) (ds_workflow i) (done_text r caption) (dk_flows dk1)\<rparr>
         in case send_first v i (first_payload r caption) dk2 of
              (dk3, False) \<Rightarrow> (dk3, True)
            | (dk3, True) \<Rightarrow> send_rest v i (tl (rp_files r)) dk3))"

definition dispatch_answer :: "desk_env \<Rightarrow> dispatch \<Rightarrow> string \<Rightarrow> bool \<Rightarrow> response_artifact list \<Rightarrow> desk \<Rightarrow> desk \<times> bool" where
  "dispatch_answer v i answer completed arts dk =
     (case answer_parts answer completed arts of
        (text, refs) \<Rightarrow>
          (case canSend (ds_chat i) dk of
             None \<Rightarrow> (dk, False)
           | Some False \<Rightarrow> (fail_dispatch i ''chat_left'' dk, True)
           | Some True \<Rightarrow>
               if isLifecycleOnlyOutbound text then (fail_dispatch i ''lifecycle_notice'' dk, True)
               else if isPromptQlEnvelopeOutbound text then (fail_dispatch i ''promptql_envelope'' dk, True)
               else (case write_reply v i answer completed arts text refs dk of (dk1, r) \<Rightarrow> send_reply v i r dk1)))"

text \<open>\<open>dispatch\<close>; \<open>None\<close> if the answer never comes and never times out.\<close>

definition dispatch_turn :: "desk_env \<Rightarrow> dispatch \<Rightarrow> desk \<Rightarrow> (desk \<times> bool) option" where
  "dispatch_turn v i dk =
     (case waitForResponse (dv_service v) (identity_of i) \<lparr>ar_thread = ds_thread i, ar_event = ds_event i\<rparr>
         (dk_now dk + dv_response_ms v) ((dk_link dk)\<lparr>lk_now := dk_now dk\<rparr>) of
        None \<Rightarrow> None
      | Some (l, out) \<Rightarrow>
          (let dk' = pass v (dk\<lparr>dk_link := l, dk_now := lk_now l\<rparr>) in
           Some (case out of
               WaitFailed m \<Rightarrow> (fail_dispatch i m dk', True)
             | WaitBroke \<Rightarrow> (fail_dispatch i ''promptql_error'' dk', True)
             | Declined m \<Rightarrow> dispatch_answer v i m False [] dk'
             | Completed m arts \<Rightarrow> dispatch_answer v i m True arts dk')))"

text \<open>A notice that holds no claim.\<close>

definition notifyChat :: "desk_env \<Rightarrow> string \<times> string \<Rightarrow> string \<Rightarrow> desk \<Rightarrow> desk \<times> bool" where
  "notifyChat v k text dk =
     (let sanitized = trim (sanitizeOutboundText text) in
      if sanitized = [] then (dk, True)
      else
        (case canSend k dk of
           None \<Rightarrow> (dk, False)
         | Some False \<Rightarrow> (dk, True)
         | Some True \<Rightarrow> (fst (send_payload v k (TextOut sanitized) dk), True)))"

text \<open>A fixed text as the answer; every error of the send only fails the claim.\<close>

definition dispatchDirectText :: "desk_env \<Rightarrow> dispatch \<Rightarrow> string \<Rightarrow> desk \<Rightarrow> desk \<times> bool" where
  "dispatchDirectText v i text dk =
     (case canSend (ds_chat i) dk of
        None \<Rightarrow> (dk, False)
      | Some False \<Rightarrow> (fail_dispatch i ''chat_left'' dk, True)
      | Some True \<Rightarrow>
          (let sanitized = trim (sanitizeOutboundText text) in
           if sanitized = [] then
             (fail_dispatch i
               (if isPromptQlEnvelopeOutbound text then ''promptql_envelope''
                else if isLifecycleOnlyOutbound text then ''lifecycle_notice'' else ''empty response'') dk, True)
           else
             (case send_payload v (ds_chat i) (TextOut sanitized)
                 (dk\<lparr>dk_flows := markDone (dk_now dk) (ds_workflow i) sanitized (dk_flows dk)\<rparr>) of
                (dk', Delivered ref) \<Rightarrow>
                  (case confirm v i (ds_welcome i) ref dk' of
                     (dk'', True) \<Rightarrow> (dk'', True)
                   | (dk'', False) \<Rightarrow> (fail_claim i dk'', True))
              | (dk', out) \<Rightarrow> (fail_claim i dk', True))))"

end
