(* ===== verification/DispatchFacts.thy ===== *)
theory DispatchFacts
  imports Dispatcher
begin

text \<open>
  What a dispatch does with its claim, whatever other tasks do at its awaits: it settles the claim, and
  calls it sent only for a message that WhatsApp accepted. A group whose relay is paused gets
  nothing; a turn that must not leave without a PDF sends one or a preparing line.
\<close>

section \<open>The rows of a claim\<close>

fun op_token :: "out_op \<Rightarrow> string option" where
  "op_token (Claim now token k) = Some token"
| "op_token (MarkSent now k token chat ref) = Some token"
| "op_token (MarkRelayed now k token chat) = Some token"
| "op_token (MarkFailed now k token) = Some token"
| "op_token (RecordGateway now conn chat m) = None"

definition held :: "string \<times> string \<Rightarrow> string \<Rightarrow> out_row list \<Rightarrow> out_row list" where
  "held k token rows = filter (holds_claim k token) rows"

lemma held_other: "op_token op \<noteq> Some token \<Longrightarrow> set (held k token (out_step rows op)) \<subseteq> set (held k token rows)"
  by (cases op)
    (auto simp: held_def claim_def markSent_def markRelayed_def markFailed_def recordGatewayMessage_def holds_claim_def
      sql_update_def row_key_def split: option.splits sum.splits if_splits)

lemma held_update:
  "(\<And>r. holds_claim k token (f r) = holds_claim k token r) \<Longrightarrow>
     held k token (sql_update (holds_claim k token) f rows) = map f (held k token rows)"
  by (induction rows) (simp_all add: held_def sql_update_def)

lemma held_failed:
  "held k token (fst (markFailed t k token rows)) = map (\<lambda>r. r\<lparr>ol_status := Failed, ol_updated := t\<rparr>) (held k token rows)"
  unfolding markFailed_def fst_conv by (rule held_update) (simp add: holds_claim_def row_key_def)

lemma held_sent:
  "held k token (fst (markSent t k token chat ref rows))
   = map (\<lambda>r. r\<lparr>ol_status := Sent, ol_chat := Some chat, ol_ref := Some ref, ol_updated := t\<rparr>) (held k token rows)"
  unfolding markSent_def fst_conv by (rule held_update) (simp add: holds_claim_def row_key_def)

text \<open>Other tasks do not use the token of the claim.\<close>

fun leaves_claim :: "string \<Rightarrow> desk_event \<Rightarrow> bool" where
  "leaves_claim token (LogChange op) = (op_token op \<noteq> Some token)"
| "leaves_claim token e = True"

definition others_leave :: "desk_env \<Rightarrow> string \<Rightarrow> bool" where
  "others_leave v token \<longleftrightarrow> (\<forall>n. list_all (leaves_claim token) (dv_during v n))"

section \<open>What every step keeps\<close>

text \<open>
  A relation between the log and the messages sent that other tasks keep, that failing the claim
  keeps, and that marking it sent keeps when the message was accepted: every part of a dispatch keeps it.
\<close>

locale claim_keeper =
  fixes v :: desk_env and i :: dispatch and keeps :: "out_row list \<Rightarrow> sent list \<Rightarrow> bool"
  assumes other: "op_token op \<noteq> Some (ds_token i) \<Longrightarrow> keeps rows ss \<Longrightarrow> keeps (out_step rows op) ss"
    and failing: "keeps rows ss \<Longrightarrow> keeps (fst (markFailed t (reply_key i) (ds_token i) rows)) ss"
    and accepted: "keeps rows ss \<Longrightarrow> keeps rows (ss @ [s])"
    and sending: "keeps rows ss \<Longrightarrow> s \<in> set ss \<Longrightarrow> sn_chat s = ds_chat i \<Longrightarrow>
      keeps (fst (markSent t (reply_key i) (ds_token i) (snd (ds_chat i)) (sn_ref s) rows)) ss"
begin

abbreviation kept :: "desk \<Rightarrow> bool" where
  "kept dk \<equiv> others_leave v (ds_token i) \<and> keeps (dk_log dk) (dk_sent dk)"

lemma happen_keeps: "leaves_claim (ds_token i) e \<Longrightarrow> kept dk \<Longrightarrow> kept (desk_happen v dk e)"
  by (cases e) (simp_all add: other)

lemma happens_keep: "list_all (leaves_claim (ds_token i)) es \<Longrightarrow> kept dk \<Longrightarrow> kept (foldl (desk_happen v) dk es)"
proof (induction es arbitrary: dk)
  case (Cons e es)
  then show ?case using happen_keeps [of e dk] by simp
qed simp

lemma pass_keeps: "kept dk \<Longrightarrow> kept (pass v dk)"
  using happens_keep [of "dv_during v (dk_awaits dk)"] by (simp add: pass_def others_leave_def Let_def)

lemma gateway_keeps: "recordGatewayMessage t c j m rows = Inr rows' \<Longrightarrow> keeps rows ss \<Longrightarrow> keeps rows' ss"
  using other [of "RecordGateway t c j m" rows ss] by simp

lemma hand_keeps: "kept dk \<Longrightarrow> kept (fst (hand_to_socket v k p dk))"
  using pass_keeps accepted
  by (auto simp: hand_to_socket_def Let_def split: option.split sum.split bool.split dest!: gateway_keeps)

lemma send_keeps: "kept dk \<Longrightarrow> kept (fst (send_payload v k p dk))"
  by (simp add: send_payload_def Let_def hand_keeps pass_keeps)

lemma fail_keeps: "kept dk \<Longrightarrow> kept (fail_claim i dk)" "kept dk \<Longrightarrow> kept (fail_dispatch i reason dk)"
  by (simp_all add: fail_dispatch_def fail_claim_def failing)

lemma confirm_keeps:
  "kept dk \<Longrightarrow> s \<in> set (dk_sent dk) \<Longrightarrow> sn_chat s = ds_chat i \<Longrightarrow> kept (fst (confirm v i w (sn_ref s) dk))"
  using sending [of "dk_log dk" "dk_sent dk" s]
  by (auto simp: confirm_def Let_def split: prod.split sum.split) (metis fst_conv)+

lemma rest_keeps: "kept dk \<Longrightarrow> kept (fst (send_rest v i as dk))"
proof (induction as arbitrary: dk)
  case (Cons a as)
  have "kept (fst (send_payload v (ds_chat i) (DocOut bs n m None) dk))" for bs n m by (rule send_keeps [OF Cons.prems])
  with Cons show ?case
    by (auto split: option.split bool.split prod.split send_result.split) (metis fst_conv)+
qed simp

lemma linked_keeps: "kept dk \<Longrightarrow> kept (fst (linked_step v f dk))"
  by (auto simp: linked_step_def pass_keeps split: prod.split)

lemma fetch_keeps: "kept dk \<Longrightarrow> kept (fst (fetch_files v i arts refs dk))"
proof (cases "linked_step v (resolveArtifacts (dv_service v) (identity_of i) arts refs (dv_max_bytes v)) dk")
  case (Pair dk' outs)
  moreover assume "kept dk"
  ultimately have "kept dk'" using linked_keeps [of dk "resolveArtifacts (dv_service v) (identity_of i) arts refs (dv_max_bytes v)"] by simp
  with Pair \<open>kept dk\<close> show ?thesis by (simp add: fetch_files_def split: option.split)
qed

lemma stored_keeps: "kept dk \<Longrightarrow> kept (fst (stored_pdf v i b dk))"
  by (simp add: stored_pdf_def linked_keeps)

lemma write_keeps: "kept dk \<Longrightarrow> kept (fst (write_reply v i answer completed arts text refs dk))"
proof (cases "fetch_files v i arts refs dk")
  case (Pair dk1 outs)
  moreover assume "kept dk"
  ultimately have k: "kept dk1" using fetch_keeps [of dk arts refs] by simp
  have "kept dk2" if "stored_pdf v i b dk1 = (dk2, x)" for b dk2 x using stored_keeps [OF k, of b] that by simp
  with k Pair show ?thesis by (auto simp: write_reply_def Let_def split: prod.split)
qed

end

lemma delivered_sent: "send_payload v k p dk = (dk', Delivered ref) \<Longrightarrow> \<exists>s \<in> set (dk_sent dk'). sn_chat s = k \<and> sn_ref s = ref \<and> sn_payload s = p"
  by (auto simp: send_payload_def hand_to_socket_def Let_def split: if_splits option.splits bool.splits sum.splits)

context claim_keeper
begin

lemma first_keeps: "kept dk \<Longrightarrow> kept (fst (send_first v i p dk))"
proof -
  assume k: "kept dk"
  obtain dk' out where s: "send_payload v (ds_chat i) p dk = (dk', out)" by fastforce
  have k': "kept dk'" using send_keeps [OF k, of "ds_chat i" p] by (simp add: s)
  show ?thesis
  proof (cases out)
    case (Delivered ref)
    then obtain m where "m \<in> set (dk_sent dk')" "sn_chat m = ds_chat i" "sn_ref m = ref" using delivered_sent s by blast
    then have "kept (fst (confirm v i (ds_welcome i) ref dk'))" using confirm_keeps k' by blast
    then show ?thesis using s Delivered fail_keeps by (auto simp: send_first_def split: prod.split bool.split)
  qed (use s k' fail_keeps in \<open>auto simp: send_first_def\<close>)
qed

lemma reply_keeps: "kept dk \<Longrightarrow> kept (fst (send_reply v i r dk))"
proof -
  assume k: "kept dk"
  have f: "kept dk0 \<Longrightarrow> kept (fst (send_first v i p dk0))" for p dk0 by (rule first_keeps)
  have "kept dk0 \<Longrightarrow> kept (fst (case send_first v i p dk0 of (dk3, False) \<Rightarrow> (dk3, True) | (dk3, True) \<Rightarrow> send_rest v i as dk3))" for p dk0 as
    using f [of dk0 p] rest_keeps by (auto split: prod.split bool.split)
  with k show ?thesis by (simp add: send_reply_def Let_def fail_keeps)
qed

lemma answer_keeps: "kept dk \<Longrightarrow> kept (fst (dispatch_answer v i answer completed arts dk))"
proof -
  assume k: "kept dk"
  have w: "kept dk1" if "write_reply v i answer completed arts t refs dk = (dk1, r)" for t refs dk1 r
    using write_keeps [OF k, of answer completed arts t refs] that by simp
  show ?thesis using k w reply_keeps
    by (auto simp: dispatch_answer_def fail_keeps split: prod.split option.split bool.split)
qed

lemma turn_keeps: "kept dk \<Longrightarrow> dispatch_turn v i dk = Some (dk', ok) \<Longrightarrow> kept dk'"
proof -
  assume k: "kept dk" and d: "dispatch_turn v i dk = Some (dk', ok)"
  have p: "kept (pass v (dk\<lparr>dk_link := l, dk_now := t\<rparr>))" for l t by (rule pass_keeps) (simp add: k)
  have a: "kept dk2" if "dispatch_answer v i m c arts (pass v (dk\<lparr>dk_link := l, dk_now := t\<rparr>)) = (dk2, x)" for m c arts l t dk2 x
    using answer_keeps [OF p, of m c arts] that by (metis fst_conv)
  show ?thesis using d a fail_keeps p
    by (auto simp: dispatch_turn_def Let_def split: option.splits prod.splits wait_outcome.splits)
qed

end

section \<open>Settling\<close>

definition claim_settled :: "dispatch \<Rightarrow> out_row list \<Rightarrow> bool" where
  "claim_settled i rows \<longleftrightarrow> list_all (\<lambda>r. ol_status r \<noteq> Pending) (held (reply_key i) (ds_token i) rows)"

text \<open>A row of the claim that is marked sent names a message accepted in the chat.\<close>

definition claim_honest :: "dispatch \<Rightarrow> out_row list \<Rightarrow> sent list \<Rightarrow> bool" where
  "claim_honest i rows ss \<longleftrightarrow>
     list_all (\<lambda>r. if ol_status r = Sent then list_ex (\<lambda>s. sn_chat s = ds_chat i \<and> ol_ref r = Some (sn_ref s)) ss else True)
       (held (reply_key i) (ds_token i) rows)"

lemma list_all_held: "set xs \<subseteq> set ys \<Longrightarrow> list_all p ys \<Longrightarrow> list_all p xs"
  by (auto simp: list_all_iff)

interpretation settling: claim_keeper v i "\<lambda>rows ss. claim_settled i rows" for v i
  by unfold_locales
    (auto simp: claim_settled_def held_failed held_sent list.pred_map comp_def list.pred_True elim: list_all_held [OF held_other])

lemma honest_other: "op_token op \<noteq> Some (ds_token i) \<Longrightarrow> claim_honest i rows ss \<Longrightarrow> claim_honest i (out_step rows op) ss"
  unfolding claim_honest_def by (rule list_all_held [OF held_other])

interpretation honesty: claim_keeper v i "claim_honest i" for v i
  by unfold_locales
    (erule honest_other, assumption,
     auto simp: claim_honest_def held_failed held_sent list.pred_map comp_def list.pred_True list_ex_iff elim: list.pred_mono_strong)

lemma failing_settles: "claim_settled i (dk_log (fail_claim i dk))" "claim_settled i (dk_log (fail_dispatch i reason dk))"
  by (simp_all add: claim_settled_def fail_dispatch_def fail_claim_def held_failed list.pred_map comp_def list.pred_True)

lemma confirm_log:
  "dk_log (fst (confirm v i w ref dk)) = fst (markSent (dk_now dk) (reply_key i) (ds_token i) (snd (ds_chat i)) ref (dk_log dk))"
  by (cases "markSent (dk_now dk) (reply_key i) (ds_token i) (snd (ds_chat i)) ref (dk_log dk)")
    (simp add: confirm_def Let_def split: sum.split)

lemma confirming_settles: "claim_settled i (dk_log (fst (confirm v i w ref dk)))"
  by (simp add: confirm_log claim_settled_def held_sent list.pred_map comp_def list.pred_True)

lemma first_settles: "claim_settled i (dk_log (fst (send_first v i p dk)))"
  using confirming_settles failing_settles
  by (auto simp: send_first_def split: prod.split send_result.split bool.split) (metis fst_conv)

lemma rest_settled:
  "others_leave v (ds_token i) \<Longrightarrow> claim_settled i (dk_log dk) \<Longrightarrow> claim_settled i (dk_log (fst (send_rest v i as dk)))"
  using settling.rest_keeps [of v i dk as] by simp

lemma reply_settles:
  assumes "others_leave v (ds_token i)" shows "claim_settled i (dk_log (fst (send_reply v i r dk)))"
proof -
  have "claim_settled i (dk_log (fst (case send_first v i p dk0 of (dk3, False) \<Rightarrow> (dk3, True) | (dk3, True) \<Rightarrow> send_rest v i as dk3)))" for p dk0 as
    using first_settles [of i v p dk0] rest_settled [OF assms] by (auto split: prod.split bool.split)
  then show ?thesis by (simp add: send_reply_def Let_def failing_settles)
qed

lemma answer_settles:
  assumes "others_leave v (ds_token i)" and "dispatch_answer v i answer completed arts dk = (dk', True)"
  shows "claim_settled i (dk_log dk')"
proof -
  have "claim_settled i (dk_log dk2)" if "send_reply v i r dk1 = (dk2, x)" for r dk1 dk2 x
    using reply_settles [OF assms(1), of r dk1] that by simp
  with assms(2) show ?thesis
    by (auto simp: dispatch_answer_def failing_settles split: prod.splits option.splits bool.splits if_splits)
qed

section \<open>Ending\<close>

lemma can_send: "key_ok k \<Longrightarrow> canSend k dk \<noteq> None"
  by (auto simp: canSend_def getBot_def split: option.split)

lemma rest_ends: "key_ok (ds_chat i) \<Longrightarrow> snd (send_rest v i as dk)"
  by (induction as arbitrary: dk) (auto simp: can_send split: option.split bool.split prod.split send_result.split)

lemma reply_ends: "key_ok (ds_chat i) \<Longrightarrow> snd (send_reply v i r dk)"
  by (auto simp: send_reply_def Let_def rest_ends split: prod.split bool.split)

lemma answer_ends: "key_ok (ds_chat i) \<Longrightarrow> snd (dispatch_answer v i answer completed arts dk)"
  by (auto simp: dispatch_answer_def can_send reply_ends split: prod.split option.split bool.split)

lemma turn_ends:
  assumes "key_ok (ds_chat i)" and "\<And>n. 0 < sv_pause (dv_service v) n"
  shows "\<exists>dk'. dispatch_turn v i dk = Some (dk', True)"
proof -
  have a: "\<exists>dk'. dispatch_answer v i m c arts dk1 = (dk', True)" for m c arts dk1
    using answer_ends [OF assms(1), of v m c arts dk1] by (metis prod.collapse)
  obtain l out where "waitForResponse (dv_service v) (identity_of i) \<lparr>ar_thread = ds_thread i, ar_event = ds_event i\<rparr>
         (dk_now dk + dv_response_ms v) ((dk_link dk)\<lparr>lk_now := dk_now dk\<rparr>) = Some (l, out)"
  proof -
    have "waitForResponse (dv_service v) (identity_of i) \<lparr>ar_thread = ds_thread i, ar_event = ds_event i\<rparr>
         (dk_now dk + dv_response_ms v) ((dk_link dk)\<lparr>lk_now := dk_now dk\<rparr>) \<noteq> None"
      by (rule wait_ends [OF assms(2)])
    then show ?thesis using that by fast
  qed
  then show ?thesis using a by (cases out) (simp_all add: dispatch_turn_def Let_def)
qed

section \<open>Properties\<close>

text \<open>C5: A dispatch ends and has settled its claim, however the wait, the downloads and the sends go and whatever other tasks
  do meanwhile: no row that carries its token is pending, and one that is marked sent names a message
  that WhatsApp accepted in that chat.\<close>

theorem dispatch_settles_its_claim:
  assumes "key_ok (ds_chat i)" and "\<And>n. 0 < sv_pause (dv_service v) n"
    and "others_leave v (ds_token i)" and "claim_honest i (dk_log dk) (dk_sent dk)"
  shows "\<exists>dk'. dispatch_turn v i dk = Some (dk', True) \<and> claim_settled i (dk_log dk') \<and> claim_honest i (dk_log dk') (dk_sent dk')"
proof -
  obtain dk' where d: "dispatch_turn v i dk = Some (dk', True)" using turn_ends assms(1,2) by blast
  have "claim_settled i (dk_log dk')"
    using d answer_settles [OF assms(3)] failing_settles
    by (auto simp: dispatch_turn_def Let_def split: option.splits prod.splits wait_outcome.splits)
  moreover have "claim_honest i (dk_log dk') (dk_sent dk')"
    using honesty.turn_keeps [of v i dk dk' True] assms d by simp
  ultimately show ?thesis using d by blast
qed

section \<open>A group that was left\<close>

definition paused :: "string \<times> string \<Rightarrow> chat_db \<Rightarrow> bool" where
  "paused k db \<longleftrightarrow> (case bot_row k db of None \<Rightarrow> False | Some b \<Rightarrow> cb_paused b \<noteq> None)"

fun resumes :: "string \<times> string \<Rightarrow> chat_op \<Rightarrow> bool" where
  "resumes k (SetMembership now j present a) = (j = k \<and> present)"
| "resumes k (UpsertBot now j s t r p) = (j = k \<and> p = None)"
| "resumes k e = False"

lemma paused_step:
  assumes "paused k db" and "\<not> resumes k e"
  shows "paused k (chat_step db e)"
proof (cases e)
  case (SetPendingPost key iv j post)
  then show ?thesis
    using assms bot_row_setPending [of k db key iv j post]
    by (auto simp: paused_def split: option.splits simp del: chat_step.simps)
qed (use assms in \<open>auto simp: paused_def bot_row_step merge_bot_def simp del: chat_step.simps split: option.splits\<close>)

fun stays_paused :: "string \<times> string \<Rightarrow> desk_event \<Rightarrow> bool" where
  "stays_paused k (ChatChange e) = (\<not> resumes k e)"
| "stays_paused k e = True"

lemma paused_happens:
  "list_all (stays_paused k) es \<Longrightarrow> paused k (dk_chats dk) \<Longrightarrow> paused k (dk_chats (foldl (desk_happen v) dk es))"
proof (induction es arbitrary: dk)
  case (Cons e es)
  then have "paused k (dk_chats (desk_happen v dk e))" by (cases e) (auto intro: paused_step)
  with Cons show ?case by simp
qed simp

lemma handed_happens: "dk_handed (foldl (desk_happen v) dk es) = dk_handed dk"
proof (induction es arbitrary: dk)
  case (Cons e es)
  have "dk_handed (desk_happen v dk e) = dk_handed dk" by (cases e) simp_all
  with Cons show ?case by simp
qed simp

lemma handed_pass: "dk_handed (pass v dk) = dk_handed dk"
  by (simp add: pass_def Let_def handed_happens)

lemma paused_pass:
  "\<forall>n. list_all (stays_paused k) (dv_during v n) \<Longrightarrow> paused k (dk_chats dk) \<Longrightarrow> paused k (dk_chats (pass v dk))"
  by (simp add: pass_def Let_def paused_happens)

lemma paused_cannot: "isGroupJid (snd k) \<Longrightarrow> paused k (dk_chats dk) \<Longrightarrow> canSend k dk \<noteq> Some True"
  by (auto simp: canSend_def paused_def getBot_def split: option.splits)

lemma paused_hand: "isGroupJid (snd k) \<Longrightarrow> paused k (dk_chats dk) \<Longrightarrow>
    fst (hand_to_socket v k p dk) = dk \<and> snd (hand_to_socket v k p dk) \<in> {ChatLeft, SendBroke}"
  using paused_cannot [of k dk] by (auto simp: hand_to_socket_def split: option.split bool.split)

lemma paused_send:
  assumes "isGroupJid (snd k)" "paused k (dk_chats dk)" "\<forall>n. list_all (stays_paused k) (dv_during v n)"
  shows "dk_handed (fst (send_payload v k p dk)) = dk_handed dk \<and> snd (send_payload v k p dk) \<in> {ChatLeft, SendBroke}"
  using paused_hand [OF assms(1) paused_pass [OF assms(3,2)], of v p]
  by (auto simp: send_payload_def Let_def handed_pass)

text \<open>C20: What was written for a group that the gateway is removed from before the queue gets to it is not sent: nothing
  is handed to WhatsApp and the claim is failed, so a later turn can answer.\<close>

theorem left_group_gets_nothing:
  assumes "isGroupJid (snd (ds_chat i))" and "paused (ds_chat i) (dk_chats dk)"
    and "\<forall>n. list_all (stays_paused (ds_chat i)) (dv_during v n)"
  shows "dk_handed (fst (send_reply v i r dk)) = dk_handed dk
    \<and> list_all (\<lambda>row. ol_status row = Failed) (held (reply_key i) (ds_token i) (dk_log (fst (send_reply v i r dk))))"
proof -
  have f: "dk_handed (fst (send_first v i p dk0)) = dk_handed dk0 \<and> \<not> snd (send_first v i p dk0)
      \<and> list_all (\<lambda>row. ol_status row = Failed) (held (reply_key i) (ds_token i) (dk_log (fst (send_first v i p dk0))))"
    if "dk_chats dk0 = dk_chats dk" for p dk0
    using paused_send [OF assms(1), of dk0 v p] assms(2,3) that
    by (auto simp: send_first_def fail_dispatch_def fail_claim_def held_failed list.pred_map comp_def list.pred_True split: prod.splits)
  have g: "dk_handed (fst (case send_first v i p dk0 of (dk3, False) \<Rightarrow> (dk3, True) | (dk3, True) \<Rightarrow> send_rest v i as dk3)) = dk_handed dk0
      \<and> list_all (\<lambda>row. ol_status row = Failed) (held (reply_key i) (ds_token i)
          (dk_log (fst (case send_first v i p dk0 of (dk3, False) \<Rightarrow> (dk3, True) | (dk3, True) \<Rightarrow> send_rest v i as dk3))))"
    if "dk_chats dk0 = dk_chats dk" for p dk0 as
    using f [OF that, of p] by (auto split: prod.splits bool.splits)
  show ?thesis
    by (auto simp: send_reply_def Let_def g fail_dispatch_def fail_claim_def held_failed list.pred_map comp_def list.pred_True)
qed

section \<open>A turn that needs a PDF\<close>

lemma pdf_document:
  assumes "isApplicationPdf a" and "documentForWhatsApp a = (bs, name, mime)"
  shows "isPdfHeader bs 0 \<and> ends_with ''.pdf'' (lowercase name) \<and> mime = ''application/pdf''"
proof -
  have "pdfPayload (rv_bytes a) True \<noteq> None"
    using assms(1) by (auto simp: isApplicationPdf_def pdfPayload_def split: if_splits)
  then obtain d where "whatsAppPdfDocument (rv_bytes a) (rv_file a) (rv_mime a) = Some d"
    using assms(1) by (auto simp: whatsAppPdfDocument_def isApplicationPdf_def Let_def)
  then show ?thesis using assms(2) whatsapp_document by (auto simp: documentForWhatsApp_def)
qed

definition as_pdf :: "Artifacts.resolved \<Rightarrow> bool" where
  "as_pdf a \<longleftrightarrow> (case documentForWhatsApp a of (bs, name, mime) \<Rightarrow>
     isPdfHeader bs 0 \<and> ends_with ''.pdf'' (lowercase name) \<and> mime = ''application/pdf'')"

text \<open>C15: A completed answer to which the guard applies leaves with a file that WhatsApp gets as a PDF, with its header first
  and a name ending in \<open>.pdf\<close>, or as one of the two preparing lines with no file and no note.\<close>

theorem guarded_reply_is_pdf_or_preparing:
  assumes "shouldEnforceInvoicePdf answer (Some (ds_operator_text i)) (replyHasHtmlSubstitute answer refs arts)
      \<or> shouldEnforceDocumentPdf answer (Some (ds_operator_text i)) (replyHasHtmlSubstitute answer refs arts)"
    and "write_reply v i answer True arts t refs dk = (dk', r)"
  shows "list_ex as_pdf (rp_files r)
    \<or> rp_files r = [] \<and> rp_failures r = [] \<and> rp_text r \<in> {INVOICE_PREPARING_TEXT, DOCUMENT_PREPARING_TEXT}"
proof -
  define good where "good (r :: reply) \<longleftrightarrow> list_ex isApplicationPdf (rp_files r)
    \<or> rp_files r = [] \<and> rp_failures r = [] \<and> rp_text r \<in> {INVOICE_PREPARING_TEXT, DOCUMENT_PREPARING_TEXT}" for r :: reply
  have g: "good (guarded_reply g invoice doc r0)" if "\<not> gi_has_pdf g" "invoice \<or> doc" for g invoice doc r0
    using guard_outcome [OF that] by (auto simp: guarded_reply_def good_def split: decision.splits if_splits)
  have p: "good (plain_reply answer doc r0)" if "list_ex isApplicationPdf (rp_files r0)" for doc r0
    using that by (simp add: plain_reply_def good_def)
  define html where "html = replyHasHtmlSubstitute answer refs arts"
  define invoice where "invoice = shouldEnforceInvoicePdf answer (Some (ds_operator_text i)) html"
  define doc where "doc = (\<not> invoice \<and> shouldEnforceDocumentPdf answer (Some (ds_operator_text i)) html)"
  have e: "invoice \<or> doc" using assms(1) by (auto simp: invoice_def doc_def html_def)
  obtain dk1 outs where f: "fetch_files v i arts refs dk = (dk1, outs)" by fastforce
  obtain dk2 x where st: "stored_pdf v i invoice dk1 = (dk2, x)" by fastforce
  note w = assms(2) [unfolded write_reply_def Let_def f prod.case, folded html_def, folded invoice_def, folded doc_def, unfolded st prod.case]
  have "good r"
  proof (cases "must_guard True (fetched outs) invoice doc")
    case True
    with w show ?thesis using g [OF _ e] by auto
  next
    case False
    then have "list_ex isApplicationPdf (fetched outs)" using e by (simp add: must_guard_def)
    with w False show ?thesis using p by auto
  qed
  moreover have "list_ex isApplicationPdf as \<Longrightarrow> list_ex as_pdf as" for as
    using pdf_document by (fastforce simp: list_ex_iff as_pdf_def)
  ultimately show ?thesis unfolding good_def by blast
qed

section \<open>Concrete dispatches\<close>

definition sample_dispatch :: dispatch where
  "sample_dispatch = \<lparr>ds_workflow = ''w'', ds_chat = (''c'', ''1@g.us''), ds_shopper = ''s'', ds_role = ShopperRole, ds_key = ''m'',
     ds_token = ''t'', ds_thread = ''th'', ds_event = None, ds_pa_pacing = False, ds_welcome = False, ds_operator_text = ''invoice''\<rparr>"

definition sample_env :: desk_env where
  "sample_env = \<lparr>dv_service = sample_service, dv_response_ms = 10, dv_max_bytes = 100, dv_welcome_log = True,
     dv_linked = (\<lambda>n. True), dv_queue = (\<lambda>n. True), dv_id = (\<lambda>n. ''i''), dv_ref = (\<lambda>n. Some ''i''),
     dv_during = (\<lambda>n. []), dv_pause = (\<lambda>n. 1)\<rparr>"

definition left_bot :: chat_bot where
  "left_bot = \<lparr>cb_key = (''c'', ''1@g.us''), cb_shopper = Some ''s'', cb_thread = ''th'', cb_room = None, cb_created = 0,
     cb_updated = 5, cb_paused = Some 5, cb_pending = None\<rparr>"

definition pending_row :: out_row where
  "pending_row = \<lparr>ol_connection = ''c'', ol_key = ''m'', ol_chat = None, ol_ref = None, ol_status = Pending, ol_token = Some ''t'',
     ol_created = 0, ol_updated = 0\<rparr>"

definition sample_desk :: desk where
  "sample_desk = \<lparr>dk_log = [pending_row], dk_flows = [], dk_welcome = [], dk_chats = \<lparr>cd_bots = [left_bot], cd_members = []\<rparr>,
     dk_shoppers = [], dk_preparing = Map.empty, dk_link = new_link, dk_handed = [], dk_sent = [], dk_logged = [], dk_now = 6, dk_awaits = 0\<rparr>"

definition sample_reply :: reply where
  "sample_reply = \<lparr>rp_text = ''Done.'', rp_files = [], rp_failures = [], rp_invoice = False, rp_document = False\<rparr>"

theorem dispatch_settles_its_claim_witness:
  "\<exists>dk'. dispatch_turn sample_env sample_dispatch sample_desk = Some (dk', True)
    \<and> claim_settled sample_dispatch (dk_log dk') \<and> claim_honest sample_dispatch (dk_log dk') (dk_sent dk')"
  by (rule dispatch_settles_its_claim)
    (simp_all add: sample_dispatch_def sample_env_def sample_service_def sample_desk_def pending_row_def key_ok_def others_leave_def
      claim_honest_def held_def)

theorem left_group_gets_nothing_witness:
  "dk_handed (fst (send_reply sample_env sample_dispatch sample_reply sample_desk)) = dk_handed sample_desk"
proof -
  have "isGroupJid (snd (ds_chat sample_dispatch))" by code_simp
  moreover have "paused (ds_chat sample_dispatch) (dk_chats sample_desk)"
    by (simp add: paused_def bot_row_def sql_get_def sample_dispatch_def sample_desk_def left_bot_def)
  moreover have "\<forall>n. list_all (stays_paused (ds_chat sample_dispatch)) (dv_during sample_env n)"
    by (simp add: sample_env_def)
  ultimately show ?thesis using left_group_gets_nothing by blast
qed

lemma sample_request: "operatorRequestsInvoice ''invoice''" "test platform_link ''ql.app''"
  by code_simp+

theorem guarded_reply_is_pdf_or_preparing_witness:
  "let r = snd (write_reply sample_env sample_dispatch ''ql.app'' True [] ''ql.app'' [] sample_desk) in
     list_ex as_pdf (rp_files r)
     \<or> rp_files r = [] \<and> rp_failures r = [] \<and> rp_text r \<in> {INVOICE_PREPARING_TEXT, DOCUMENT_PREPARING_TEXT}"
proof -
  have "shouldEnforceInvoicePdf ''ql.app'' (Some (ds_operator_text sample_dispatch)) (replyHasHtmlSubstitute ''ql.app'' [] [])"
    by (simp add: shouldEnforceInvoicePdf_def asks_for_link_def sample_request or_empty_def sample_dispatch_def)
  then show ?thesis
    unfolding Let_def by (intro guarded_reply_is_pdf_or_preparing [OF disjI1 prod.collapse [symmetric]])
qed

section \<open>A preparing line that was never sent\<close>

text \<open>The line counts as sent before it is: when the connection is down, nothing leaves, and the next one is refused.\<close>

lemma unsent_line_counts:
  assumes "is_preparing r (caption_of (ds_welcome i) r)" and "\<not> recently_prepared i dk" and "\<not> dv_linked v (dk_awaits dk)"
  shows "dk_handed (fst (send_reply v i r dk)) = dk_handed dk \<and> recently_prepared i (fst (send_reply v i r dk))"
proof -
  have "rp_files r = []" "caption_of (ds_welcome i) r \<noteq> []"
    using assms(1) by (auto simp: is_preparing_def trim_def trim_start_def trim_end_def INVOICE_PREPARING_TEXT_def DOCUMENT_PREPARING_TEXT_def)
  with assms show ?thesis
    by (auto simp: send_reply_def Let_def send_first_def send_payload_def fail_claim_def recently_prepared_def PREPARING_DEDUPE_MS_def)
qed

end
