(* ===== verification/McpClient.thy ===== *)
theory McpClient
  imports Adapter
begin

text \<open>
  The client of the agent's tools (\<open>src/promptql/mcpClient.ts\<close>): JSON-RPC posts with bounded retries,
  the handshake, the session id of the server, and the reading of JSON and event-stream bodies. The
  server is a function of the number of the post and of the post; no answer is a failed or aborted
  \<open>fetch\<close>, no body one that cannot be read. A call runs alone: two calls of one session at once,
  which may both shake hands, are not represented. Where the result is \<open>undefined\<close>, the raw value of a
  tool's result is \<open>JNull\<close>.
\<close>

section \<open>Session and server\<close>

datatype mcp_kind = TransportError | ProtocolError | ToolError | SessionExpired | OtherError

record mcp_post =
  mp_auth :: string
  mp_session :: "string option"
  mp_body :: json

record mcp_reply =
  mr_status :: nat
  mr_session :: "string option"
  mr_type :: "string option"
  mr_body :: "string option"

record mcp_options =
  mo_scheme :: string
  mo_token :: string
  mo_version :: string
  mo_retries :: nat
  mo_name :: "string option"
  mo_client_version :: "string option"
  mo_answer :: "nat \<Rightarrow> mcp_post \<Rightarrow> mcp_reply option"

record mcp_session =
  ms_id :: "string option"
  ms_initialized :: bool
  ms_next :: nat
  ms_posts :: "mcp_post list"
  ms_slept :: nat

definition new_session :: mcp_session where
  "new_session = \<lparr>ms_id = None, ms_initialized = False, ms_next = 1, ms_posts = [], ms_slept = 0\<rparr>"

section \<open>Bodies\<close>

text \<open>\<open>text.split(/\n\n/)\<close>.\<close>

fun split_events :: "string \<Rightarrow> string list" where
  "split_events [] = [[]]"
| "split_events [c] = [[c]]"
| "split_events (c # d # s) =
     (if c = CHR 10 \<and> d = CHR 10 then [] # split_events s
      else (case split_events (d # s) of [] \<Rightarrow> [[c]] | e # es \<Rightarrow> (c # e) # es))"

definition data_lines :: "string \<Rightarrow> string list" where
  "data_lines ev = map (\<lambda>l. trim (drop 5 l)) (filter (starts_with ''data:'') (split_on (CHR 10) ev))"

fun carries_response :: "json \<Rightarrow> bool" where
  "carries_response (JObj kvs) = (json_prop ''result'' kvs \<noteq> None \<or> json_prop ''error'' kvs \<noteq> None)"
| "carries_response j = False"

definition event_response :: "string \<Rightarrow> json option" where
  "event_response ev =
     (let ls = data_lines ev in
      if ls = [] then None
      else (case json_parse (join_with nl ls) of None \<Rightarrow> None | Some j \<Rightarrow> if carries_response j then Some j else None))"

definition parseSse :: "string \<Rightarrow> json option" where
  "parseSse text = foldl (\<lambda>found ev. first_of (event_response ev) found) None (split_events text)"

definition parseBody :: "mcp_reply \<Rightarrow> mcp_kind + json option" where
  "parseBody r =
     (case mr_body r of
        None \<Rightarrow> Inl OtherError
      | Some t \<Rightarrow>
          if includes_str ''text/event-stream'' (or_empty (mr_type r)) then Inr (parseSse t)
          else if t = [] then Inr None
          else (case json_parse t of None \<Rightarrow> Inl ProtocolError | Some j \<Rightarrow> Inr (Some j)))"

definition member :: "string \<Rightarrow> json option \<Rightarrow> json option" where
  "member k j = (case j of Some (JObj kvs) \<Rightarrow> json_prop k kvs | _ \<Rightarrow> None)"

definition rpc_error :: "json option \<Rightarrow> bool" where
  "rpc_error j = (case member ''error'' j of None \<Rightarrow> False | Some e \<Rightarrow> truthy e)"

definition content_texts :: "json option \<Rightarrow> string list" where
  "content_texts c =
     (case c of
        Some (JArr xs) \<Rightarrow> List.map_filter (\<lambda>x. text_field (member ''text'' (Some x))) xs
      | _ \<Rightarrow> [])"

text \<open>\<open>isError\<close>, and the rest of the result.\<close>

definition parseToolResult :: "json option \<Rightarrow> bool \<times> tool_result" where
  "parseToolResult result =
     (member ''isError'' result = Some (JBool True),
      \<lparr>tr_text = join_with nl (content_texts (member ''content'' result)), tr_structured = member ''structuredContent'' result,
       tr_raw = (case result of None \<Rightarrow> JNull | Some j \<Rightarrow> j)\<rparr>)"

section \<open>Posting\<close>

text \<open>\<open>Buffer.byteLength(body, "utf8")\<close>.\<close>

definition utf8_length :: "string \<Rightarrow> nat" where
  "utf8_length s = sum_list (map (\<lambda>c. if (of_char c :: nat) < 128 then 1 else 2) s)"

definition MAX_BODY :: nat where "MAX_BODY = 10 * 1024 * 1024"

definition authHeader :: "mcp_options \<Rightarrow> string" where
  "authHeader v = mo_scheme v @ '' '' @ mo_token v"

definition post :: "mcp_options \<Rightarrow> json \<Rightarrow> bool \<Rightarrow> mcp_session \<Rightarrow> mcp_session \<times> (mcp_kind + mcp_reply \<times> json option)" where
  "post v body notification s =
     (if MAX_BODY < utf8_length (jprint body) then (s, Inl ProtocolError)
      else
        (let p = \<lparr>mp_auth = authHeader v, mp_session = filled (ms_id s), mp_body = body\<rparr> in
         (s\<lparr>ms_posts := ms_posts s @ [p]\<rparr>,
          case mo_answer v (length (ms_posts s)) p of
            None \<Rightarrow> Inl TransportError
          | Some r \<Rightarrow>
              if mr_status r = 404 then Inl SessionExpired
              else if notification then Inr (r, None)
              else if 500 \<le> mr_status r then Inl TransportError
              else if mr_status r < 200 \<or> 299 < mr_status r then Inl ProtocolError
              else (case parseBody r of Inl k \<Rightarrow> Inl k | Inr j \<Rightarrow> Inr (r, j)))))"

text \<open>A request carries the next id, which is used up.\<close>

definition rpc :: "nat \<Rightarrow> string \<Rightarrow> json \<Rightarrow> json" where
  "rpc n method_name params =
     JObj [(''jsonrpc'', JStr ''2.0''), (''id'', JNum (int n) 0), (''method'', JStr method_name), (''params'', params)]"

definition post_request ::
    "mcp_options \<Rightarrow> string \<Rightarrow> json \<Rightarrow> mcp_session \<Rightarrow> mcp_session \<times> (mcp_kind + mcp_reply \<times> json option)" where
  "post_request v method_name params s = post v (rpc (ms_next s) method_name params) False (s\<lparr>ms_next := ms_next s + 1\<rparr>)"

section \<open>The handshake\<close>

definition init_params :: "mcp_options \<Rightarrow> json" where
  "init_params v =
     JObj [(''protocolVersion'', JStr (mo_version v)), (''capabilities'', JObj []),
       (''clientInfo'', JObj [(''name'', JStr (case mo_name v of None \<Rightarrow> ''SEPT WhatsApp Gateway'' | Some n \<Rightarrow> n)),
         (''version'', JStr (case mo_client_version v of None \<Rightarrow> ''0.1.0'' | Some n \<Rightarrow> n))])]"

definition initialized_note :: json where
  "initialized_note = JObj [(''jsonrpc'', JStr ''2.0''), (''method'', JStr ''notifications/initialized''), (''params'', JObj [])]"

definition initialize :: "mcp_options \<Rightarrow> mcp_session \<Rightarrow> mcp_session \<times> mcp_kind option" where
  "initialize v s =
     (case post_request v ''initialize'' (init_params v) s of
        (s1, Inl k) \<Rightarrow> (s1, Some k)
      | (s1, Inr (r, j)) \<Rightarrow>
          if rpc_error j then (s1, Some ProtocolError)
          else
            (case post v initialized_note True
                (case filled (mr_session r) of None \<Rightarrow> s1 | Some sid \<Rightarrow> s1\<lparr>ms_id := Some sid\<rparr>) of
               (s2, Inl k) \<Rightarrow> (s2, Some k)
             | (s2, Inr u) \<Rightarrow> (s2\<lparr>ms_initialized := True\<rparr>, None)))"

definition ensureInitialized :: "mcp_options \<Rightarrow> mcp_session \<Rightarrow> mcp_session \<times> mcp_kind option" where
  "ensureInitialized v s = (if ms_initialized s then (s, None) else initialize v s)"

section \<open>Requests\<close>

definition one_request :: "mcp_options \<Rightarrow> string \<Rightarrow> json \<Rightarrow> mcp_session \<Rightarrow> mcp_session \<times> (mcp_kind + json option)" where
  "one_request v method_name params s =
     (case post_request v method_name params s of
        (s', Inl k) \<Rightarrow> (s', Inl k)
      | (s', Inr (r, j)) \<Rightarrow> (s', if rpc_error j then Inl ProtocolError else Inr (member ''result'' j)))"

definition retry_pause :: "nat \<Rightarrow> nat" where
  "retry_pause attempt = min (500 * 2 ^ attempt) 4000"

text \<open>The loop, by the attempts left after this one. A handshake that throws ends it.\<close>

fun attempt_request :: "mcp_options \<Rightarrow> string \<Rightarrow> json \<Rightarrow> nat \<Rightarrow> mcp_session \<Rightarrow> mcp_session \<times> (mcp_kind + json option)" where
  "attempt_request v method_name params left s =
     (case one_request v method_name params s of
        (s1, Inr result) \<Rightarrow> (s1, Inr result)
      | (s1, Inl SessionExpired) \<Rightarrow>
          (case initialize v (s1\<lparr>ms_initialized := False, ms_id := None\<rparr>) of
             (s2, Some k) \<Rightarrow> (s2, Inl k)
           | (s2, None) \<Rightarrow>
               (case left of
                  0 \<Rightarrow> (s2, Inl SessionExpired)
                | Suc l \<Rightarrow> attempt_request v method_name params l s2))
      | (s1, Inl k) \<Rightarrow>
          if k = ProtocolError \<or> k = ToolError then (s1, Inl k)
          else (case left of
                  0 \<Rightarrow> (s1, Inl k)
                | Suc l \<Rightarrow> attempt_request v method_name params l
                    (s1\<lparr>ms_slept := ms_slept s1 + retry_pause (mo_retries v - left)\<rparr>)))"

declare attempt_request.simps [simp del]

definition request :: "mcp_options \<Rightarrow> string \<Rightarrow> json \<Rightarrow> mcp_session \<Rightarrow> mcp_session \<times> (mcp_kind + json option)" where
  "request v method_name params s = attempt_request v method_name params (mo_retries v) s"

definition listTools :: "mcp_options \<Rightarrow> mcp_session \<Rightarrow> mcp_session \<times> (mcp_kind + json list)" where
  "listTools v s =
     (case ensureInitialized v s of
        (s1, Some k) \<Rightarrow> (s1, Inl k)
      | (s1, None) \<Rightarrow>
          (case request v ''tools/list'' (JObj []) s1 of
             (s2, Inl k) \<Rightarrow> (s2, Inl k)
           | (s2, Inr result) \<Rightarrow> (s2, Inr (case member ''tools'' result of Some (JArr ts) \<Rightarrow> ts | _ \<Rightarrow> []))))"

definition session_call :: "mcp_options \<Rightarrow> string \<Rightarrow> json \<Rightarrow> mcp_session \<Rightarrow> mcp_session \<times> (mcp_kind + tool_result)" where
  "session_call v name args s =
     (case ensureInitialized v s of
        (s1, Some k) \<Rightarrow> (s1, Inl k)
      | (s1, None) \<Rightarrow>
          (case request v ''tools/call'' (JObj [(''name'', JStr name), (''arguments'', args)]) s1 of
             (s2, Inl k) \<Rightarrow> (s2, Inl k)
           | (s2, Inr result) \<Rightarrow>
               (s2, case parseToolResult result of (True, r) \<Rightarrow> Inl ToolError | (False, r) \<Rightarrow> Inr r)))"

section \<open>What a session does\<close>

datatype mcp_op = CallTool string json | ListTools

fun mcp_step :: "mcp_options \<Rightarrow> mcp_session \<Rightarrow> mcp_op \<Rightarrow> mcp_session" where
  "mcp_step v s (CallTool name args) = fst (session_call v name args s)"
| "mcp_step v s ListTools = fst (listTools v s)"

text \<open>What each post and the bookkeeping around it keep, every call keeps.\<close>

locale session_keeper =
  fixes v :: mcp_options and keeps :: "mcp_session \<Rightarrow> bool"
  assumes posting: "keeps s \<Longrightarrow> keeps (fst (post v body note s))"
    and taking_id: "keeps s \<Longrightarrow> post v body False s = (s', Inr (r, j)) \<Longrightarrow> filled (mr_session r) = Some x \<Longrightarrow> keeps (s'\<lparr>ms_id := Some x\<rparr>)"
    and numbering: "keeps s \<Longrightarrow> keeps (s\<lparr>ms_next := n\<rparr>)"
    and ready: "keeps s \<Longrightarrow> keeps (s\<lparr>ms_initialized := True\<rparr>)"
    and dropping: "keeps s \<Longrightarrow> keeps (s\<lparr>ms_initialized := False, ms_id := None\<rparr>)"
    and sleeping: "keeps s \<Longrightarrow> keeps (s\<lparr>ms_slept := n\<rparr>)"
begin

lemma request_posting: "keeps s \<Longrightarrow> keeps (fst (post_request v m p s))"
  by (simp add: post_request_def posting numbering)

lemma initialize_keeps: "keeps s \<Longrightarrow> keeps (fst (initialize v s))"
proof -
  assume k: "keeps s"
  obtain s1 x where p: "post_request v ''initialize'' (init_params v) s = (s1, x)" by fastforce
  have k1: "keeps s1" using request_posting [OF k] p by (metis fst_conv)
  have k2: "keeps (case filled (mr_session r) of None \<Rightarrow> s1 | Some sid \<Rightarrow> s1\<lparr>ms_id := Some sid\<rparr>)" if "x = Inr (r, j)" for r j
    using k1 p that taking_id [OF numbering [OF k]] by (auto simp: post_request_def split: option.split)
  show ?thesis
  proof (cases x)
    case (Inr y)
    obtain r j where y: "y = (r, j)" by fastforce
    define s2 where "s2 = (case filled (mr_session r) of None \<Rightarrow> s1 | Some sid \<Rightarrow> s1\<lparr>ms_id := Some sid\<rparr>)"
    have "keeps (fst (post v initialized_note True s2))" using k2 Inr y by (simp add: s2_def posting)
    then show ?thesis using p Inr y k1 by (auto simp: initialize_def s2_def [symmetric] ready split: prod.split sum.split)
  qed (use p k1 in \<open>simp add: initialize_def\<close>)
qed

lemma one_keeps: "keeps s \<Longrightarrow> keeps (fst (one_request v m p s))"
  using request_posting [of s m p] by (cases "post_request v m p s") (auto simp: one_request_def split: sum.split)

lemma attempt_keeps: "keeps s \<Longrightarrow> keeps (fst (attempt_request v m p left s))"
proof (induction left arbitrary: s)
  case (0 s)
  obtain s1 x where o: "one_request v m p s = (s1, x)" by fastforce
  have "keeps s1" using one_keeps [OF 0, of m p] o by simp
  with o show ?case
    by (subst attempt_request.simps)
      (auto split: prod.split sum.split mcp_kind.split option.split dest: initialize_keeps [OF dropping])
next
  case (Suc l)
  obtain s1 x where o: "one_request v m p s = (s1, x)" by fastforce
  have "keeps s1" using one_keeps [OF Suc.prems, of m p] o by simp
  with o show ?case
    by (subst attempt_request.simps)
      (auto split: prod.split sum.split mcp_kind.split option.split intro!: Suc.IH sleeping dest: initialize_keeps [OF dropping])
qed

lemma ensure_keeps: "keeps s \<Longrightarrow> keeps (fst (ensureInitialized v s))"
  by (simp add: ensureInitialized_def initialize_keeps)

lemma step_keeps: "keeps s \<Longrightarrow> keeps (mcp_step v s op)"
proof (induction op)
  case (CallTool name args)
  then show ?case using ensure_keeps [OF CallTool] attempt_keeps
    by (auto simp: session_call_def request_def split: prod.split sum.split option.split) (metis fst_conv)+
next
  case ListTools
  then show ?case using ensure_keeps [OF ListTools] attempt_keeps
    by (auto simp: listTools_def request_def split: prod.split sum.split option.split) (metis fst_conv)+
qed

end

text \<open>A session id was given in the answer to one of the posts, and each post carries the token of the session.\<close>

definition given :: "mcp_options \<Rightarrow> mcp_post list \<Rightarrow> string \<Rightarrow> bool" where
  "given v ps x \<longleftrightarrow>
     list_ex (\<lambda>k. case mo_answer v k (ps ! k) of None \<Rightarrow> False | Some r \<Rightarrow> filled (mr_session r) = Some x) [0..<length ps]"

definition post_ok :: "mcp_options \<Rightarrow> mcp_post list \<Rightarrow> nat \<Rightarrow> bool" where
  "post_ok v ps i \<longleftrightarrow> mp_auth (ps ! i) = authHeader v
     \<and> (case mp_session (ps ! i) of None \<Rightarrow> True | Some x \<Rightarrow> given v (take i ps) x)"

definition own_session :: "mcp_options \<Rightarrow> mcp_session \<Rightarrow> bool" where
  "own_session v s \<longleftrightarrow> (case ms_id s of None \<Rightarrow> True | Some x \<Rightarrow> given v (ms_posts s) x)
     \<and> list_all (post_ok v (ms_posts s)) [0..<length (ms_posts s)]"

lemma given_append: "given v ps x \<Longrightarrow> given v (ps @ qs) x"
  by (auto simp: given_def list_ex_iff nth_append intro!: bexI)

lemma post_ok_append: "i < length ps \<Longrightarrow> post_ok v (ps @ qs) i = post_ok v ps i"
  by (auto simp: post_ok_def nth_append split: option.split)

lemma own_post: "own_session v s \<Longrightarrow> own_session v (fst (post v body n s))"
  by (auto simp: own_session_def post_def Let_def list_all_iff post_ok_append filled_def given_append less_Suc_eq
      split: option.splits if_splits) (auto simp: post_ok_def split: option.split)

lemma post_gives:
  "post v body False s = (s', Inr (r, j)) \<Longrightarrow> filled (mr_session r) = Some x \<Longrightarrow> given v (ms_posts s') x"
  by (auto simp: post_def Let_def given_def list_ex_iff nth_append split: if_splits option.splits sum.splits intro!: bexI)

interpretation ids: session_keeper v "own_session v" for v
proof
  fix s body s' r j x
  assume "own_session v s" and p: "post v body False s = (s', Inr (r, j))" and "filled (mr_session r) = Some x"
  then show "own_session v (s'\<lparr>ms_id := Some x\<rparr>)"
    using own_post [of v s body False] post_gives by (simp add: own_session_def)
next
  fix s body n
  assume "own_session v s"
  then show "own_session v (fst (post v body n s))" by (rule own_post)
qed (auto simp: own_session_def split: option.splits)

interpretation client: machine "mcp_step v" "own_session v" for v
  by unfold_locales (rule ids.step_keeps)

text \<open>C12: Whatever tools are called and whatever the server answers, every post carries the session's own token, and a
  session id only if the server gave that id in its answer to an earlier post.\<close>

theorem session_id_is_the_servers:
  "list_all (post_ok v (ms_posts (foldl (mcp_step v) new_session ops)))
     [0..<length (ms_posts (foldl (mcp_step v) new_session ops))]"
proof -
  have "own_session v new_session" by (simp add: own_session_def new_session_def)
  then have "own_session v (foldl (mcp_step v) new_session ops)" by (rule client.run_inv)
  then show ?thesis by (simp add: own_session_def)
qed

section \<open>Bounds\<close>

definition within_budget :: "mcp_session \<Rightarrow> mcp_session \<Rightarrow> nat \<Rightarrow> nat \<Rightarrow> bool" where
  "within_budget s s' posts sleep \<longleftrightarrow> length (ms_posts s') \<le> length (ms_posts s) + posts \<and> ms_slept s' \<le> ms_slept s + sleep"

lemma budget_trans:
  "within_budget s1 s2 a b \<Longrightarrow> within_budget s2 s3 c d \<Longrightarrow> a + c \<le> m \<Longrightarrow> b + d \<le> n \<Longrightarrow> within_budget s1 s3 m n"
  by (auto simp: within_budget_def)

lemma post_budget: "within_budget s (fst (post v b n s)) 1 0"
  by (simp add: within_budget_def post_def Let_def)

lemma request_budget: "within_budget s (fst (post_request v m p s)) 1 0"
  using post_budget [of "s\<lparr>ms_next := ms_next s + 1\<rparr>"] by (simp add: within_budget_def post_request_def)

lemma one_budget: "within_budget s (fst (one_request v m p s)) 1 0"
  using request_budget [of s v m p] by (cases "post_request v m p s") (auto simp: one_request_def split: sum.split)

lemma initialize_budget: "within_budget s (fst (initialize v s)) 2 0"
proof -
  obtain s1 x where p: "post_request v ''initialize'' (init_params v) s = (s1, x)" by fastforce
  have b: "within_budget s s1 1 0" using request_budget [of s v "''initialize''" "init_params v"] p by simp
  show ?thesis
  proof (cases x)
    case (Inr y)
    obtain r j where y: "y = (r, j)" by fastforce
    define s2 where "s2 = (case filled (mr_session r) of None \<Rightarrow> s1 | Some sid \<Rightarrow> s1\<lparr>ms_id := Some sid\<rparr>)"
    obtain s3 z where n: "post v initialized_note True s2 = (s3, z)" by fastforce
    have "within_budget s s2 1 0" using b by (simp add: s2_def within_budget_def split: option.split)
    moreover have "within_budget s2 s3 1 0" using post_budget [of s2 v initialized_note True] n by simp
    ultimately have "within_budget s s3 2 0" by (rule budget_trans) simp_all
    with b p Inr y n show ?thesis
      by (auto simp: initialize_def s2_def [symmetric] within_budget_def split: sum.split)
  qed (use b p in \<open>simp add: initialize_def within_budget_def\<close>)
qed

lemma pause_bound: "retry_pause n \<le> 4000"
  by (simp add: retry_pause_def)

lemma attempt_budget: "within_budget s (fst (attempt_request v m p left s)) (3 * (left + 1)) (4000 * left)"
proof (induction left arbitrary: s)
  case (0 s)
  obtain s1 x where o: "one_request v m p s = (s1, x)" by fastforce
  have b: "within_budget s s1 1 0" using one_budget [of s v m p] o by simp
  have c: "within_budget s s2 3 0" if "initialize v (s1\<lparr>ms_initialized := False, ms_id := None\<rparr>) = (s2, y)" for s2 y
    using b initialize_budget [of "s1\<lparr>ms_initialized := False, ms_id := None\<rparr>" v] that by (simp add: within_budget_def)
  show ?case using o b
    by (subst attempt_request.simps)
      (auto simp: within_budget_def dest: c [unfolded within_budget_def] split: prod.split sum.split mcp_kind.split option.split)
next
  case (Suc l)
  obtain s1 x where o: "one_request v m p s = (s1, x)" by fastforce
  have b: "within_budget s s1 1 0" using one_budget [of s v m p] o by simp
  have c: "within_budget s s2 3 0" if "initialize v (s1\<lparr>ms_initialized := False, ms_id := None\<rparr>) = (s2, y)" for s2 y
    using b initialize_budget [of "s1\<lparr>ms_initialized := False, ms_id := None\<rparr>" v] that by (simp add: within_budget_def)
  have d: "within_budget s (fst (attempt_request v m p l s2)) (3 * (Suc l + 1)) (4000 * Suc l)"
    if "initialize v (s1\<lparr>ms_initialized := False, ms_id := None\<rparr>) = (s2, y)" for s2 y
    by (rule budget_trans [OF c [OF that] Suc.IH]) simp_all
  have e: "within_budget s (s1\<lparr>ms_slept := ms_slept s1 + retry_pause n\<rparr>) 1 4000" for n
    using b pause_bound [of n] by (simp add: within_budget_def)
  have f: "within_budget s (fst (attempt_request v m p l (s1\<lparr>ms_slept := ms_slept s1 + retry_pause n\<rparr>))) (3 * (Suc l + 1)) (4000 * Suc l)" for n
    by (rule budget_trans [OF e Suc.IH]) simp_all
  have g: "within_budget s s' a c \<Longrightarrow> a \<le> 3 * (Suc l + 1) \<Longrightarrow> within_budget s s' (3 * (Suc l + 1)) (4000 * Suc l)" if "c = 0" for s' a c
    using that by (simp add: within_budget_def)
  show ?case
  proof (cases x)
    case (Inl k)
    show ?thesis
      by (subst attempt_request.simps, cases k)
        (use o Inl b c d f g in \<open>auto split: prod.split option.split simp del: mult_Suc_right\<close>)
  qed (use o b g in \<open>subst attempt_request.simps, simp\<close>)
qed

lemma ensure_budget: "within_budget s (fst (ensureInitialized v s)) 2 0"
  using initialize_budget [of s v] by (simp add: ensureInitialized_def within_budget_def)

text \<open>A call makes at most five posts and three more for each retry, and pauses at most four seconds before each
  retry, whatever the server does.\<close>

theorem calls_are_bounded:
  "length (ms_posts (mcp_step v s op)) \<le> length (ms_posts s) + 3 * mo_retries v + 5
   \<and> ms_slept (mcp_step v s op) \<le> ms_slept s + 4000 * mo_retries v"
proof -
  obtain s1 e where i: "ensureInitialized v s = (s1, e)" by fastforce
  have b: "within_budget s s1 2 0" using ensure_budget [of s v] i by simp
  have r: "within_budget s (fst (request v m p s1)) (3 * mo_retries v + 5) (4000 * mo_retries v)" for m p
    unfolding request_def by (rule budget_trans [OF b attempt_budget]) simp_all
  have "within_budget s (mcp_step v s op) (3 * mo_retries v + 5) (4000 * mo_retries v)"
  proof (cases op)
    case (CallTool name args)
    then show ?thesis
      using i b r [of "''tools/call''" "JObj [(''name'', JStr name), (''arguments'', args)]"]
      by (auto simp: session_call_def within_budget_def split: option.split prod.split sum.split)
  next
    case ListTools
    then show ?thesis
      using i b r [of "''tools/list''" "JObj []"]
      by (auto simp: listTools_def within_budget_def split: option.split prod.split sum.split)
  qed
  then show ?thesis by (simp add: within_budget_def)
qed

section \<open>Reading a stream\<close>

text \<open>A stream as a server writes it: one event for each message.\<close>

definition sse_text :: "json \<Rightarrow> string" where
  "sse_text j = ''event: message'' @ nl @ ''data: '' @ jprint j"

definition sse_event :: "json \<Rightarrow> string" where
  "sse_event j = sse_text j @ nl @ nl"

lemma printed_char: "c \<in> set (json_char d) \<Longrightarrow> c \<noteq> CHR 10"
proof -
  have hex: "hex_digit n \<noteq> CHR 10" if "n < 16" for n
    using that by (auto simp: hex_digit_def dest: arg_cong [where f = "of_char :: char \<Rightarrow> nat"])
  have "of_char d < (256 :: nat)" by (rule of_char_less)
  then show "c \<in> set (json_char d) \<Longrightarrow> c \<noteq> CHR 10"
    by (auto simp: json_char_def Let_def hex hex [THEN not_sym] split: if_splits)
qed

lemma shown_char: "c \<in> set (show_int m) \<Longrightarrow> c \<noteq> CHR 10"
  by (auto simp: show_int_def is_digit_def dest!: show_nat_digits split: if_splits)

lemma joined_chars: "c \<in> set (join_with s xs) \<Longrightarrow> c \<in> set s \<or> (\<exists>x \<in> set xs. c \<in> set x)"
  by (induction s xs rule: join_with.induct) auto

lemma string_chars: "c \<in> set (json_string s) \<Longrightarrow> c \<noteq> CHR 10"
  by (auto simp: json_string_def dest: printed_char)

lemma print_chars: "CHR 10 \<notin> set (jprint j)"
proof (induction j)
  case (JNum m e)
  then show ?case by (auto dest: shown_char)
next
  case (JStr s)
  then show ?case by (auto dest: string_chars)
next
  case (JArr xs)
  then show ?case by (auto dest!: joined_chars)
next
  case (JObj kvs)
  then show ?case by (fastforce dest!: joined_chars dest: string_chars)
qed simp_all

lemma shown_last: "\<not> is_ws (last (show_int m))" "show_int m \<noteq> []"
  using show_nat_digits [of "last (show_nat n)" n for n] show_nat_nonempty is_digit_not_ws
  by (auto simp: show_int_def)

lemma shown_hd: "\<not> is_ws (hd (show_int m))"
  using show_nat_digits [of "hd (show_nat n)" n for n] show_nat_nonempty is_digit_not_ws
  by (auto simp: show_int_def is_ws_def)

lemma print_trim: "trim (CHR '' '' # jprint j) = jprint j"
proof -
  have ne: "jprint j \<noteq> []" using jprint_hd [of j] by auto
  have l: "\<not> is_ws (last (jprint j))"
    using shown_last by (cases j) (auto simp: json_string_def is_ws_def last_append)
  have h: "\<not> is_ws (hd (jprint j))"
  proof (cases j)
    case (JNum m e)
    then show ?thesis using shown_hd [of m] shown_last(2) [of m] by (simp add: hd_append)
  qed (simp_all add: json_string_def is_ws_def)
  have sp: "is_ws (CHR '' '')" by (simp add: is_ws_def)
  have "trim (CHR '' '' # jprint j) = trim_end (trim_start (jprint j))" by (simp add: trim_def trim_start_def sp)
  then show ?thesis using h l trim_start_fixed [of "jprint j"] trim_end_fixed [of "jprint j"] by simp
qed

lemma split_events_step:
  "CHR 10 \<notin> set a \<Longrightarrow> a \<noteq> [] \<Longrightarrow> split_events (a @ CHR 10 # CHR 10 # s) = a # split_events s"
proof (induction a)
  case (Cons c a)
  then show ?case by (cases a) auto
qed simp

lemma event_reads: "event_response (sse_text j) = (if carries_response j then Some j else None)"
proof -
  have s: "split_on (CHR 10) (a @ CHR 10 # b) = a # split_on (CHR 10) b" if "CHR 10 \<notin> set a" for a b
    using that by (induction a) auto
  have o: "split_on (CHR 10) b = [b]" if "CHR 10 \<notin> set b" for b
    using that by (induction b) auto
  have "split_on (CHR 10) (sse_text j) = [''event: message'', ''data: '' @ jprint j]"
    using s [of "''event: message''" "''data: '' @ jprint j"] o [of "''data: '' @ jprint j"] print_chars [of j]
    by (simp add: nl_def sse_text_def)
  then have "data_lines (sse_text j) = [jprint j]"
    by (simp add: data_lines_def starts_with_def print_trim)
  then show ?thesis by (simp add: event_response_def json_roundtrip)
qed

lemma split_event:
  assumes "CHR 10 \<notin> set a" and "CHR 10 \<notin> set b" and "b \<noteq> []" and "t = a @ nl @ b"
  shows "split_events (t @ nl @ nl @ s) = t # split_events s"
  unfolding assms(4) using assms(1,2)
proof (induction a)
  case Nil
  then show ?case using split_events_step [of b s] assms(3) by (cases b) (auto simp: nl_def)
next
  case (Cons c a)
  then show ?case by (cases a) (auto simp: nl_def)
qed

lemma stream_events: "split_events (concat (map sse_event js)) = map sse_text js @ [[]]"
proof (induction js)
  case (Cons j js)
  have "split_events (sse_text j @ nl @ nl @ s) = sse_text j # split_events s" for s
    by (rule split_event [OF _ _ _ sse_text_def]) (use print_chars [of j] in auto)
  moreover have "sse_event j @ s = sse_text j @ nl @ nl @ s" for s by (simp add: sse_event_def)
  ultimately show ?case by (simp add: Cons.IH)
qed simp

text \<open>C14: What a server streams is read back: of the messages it sends, one event each, the last one that is a response.\<close>

theorem last_response_is_read: "parseSse (concat (map sse_event js)) = find carries_response (rev js)"
proof -
  have e: "event_response [] = None" by code_simp
  show ?thesis
    unfolding parseSse_def stream_events
  proof (induction js rule: rev_induct)
    case (snoc j js)
    then show ?case by (simp add: e event_reads first_of_def)
  qed (simp add: e first_of_def)
qed

text \<open>Events that end with carriage returns are not told apart: a progress message and the response are then read as one
  text that is no JSON, and the call succeeds with nothing.\<close>

definition crlf_stream :: string where
  "crlf_stream = concat (map (\<lambda>j. ''data: '' @ jprint j @ [CHR 13, CHR 10, CHR 13, CHR 10])
     [JObj [(''method'', JStr ''p'')], JObj [(''result'', JObj [(''isError'', JBool True)])]])"

lemma crlf_response_is_lost: "parseSse crlf_stream = None"
  by code_simp

section \<open>A session the server has forgotten\<close>

text \<open>A server that knows one session id: a post without an id gets it, a post with another gets 404.\<close>

definition renewing :: "string \<Rightarrow> json \<Rightarrow> nat \<Rightarrow> mcp_post \<Rightarrow> mcp_reply option" where
  "renewing sid result n p =
     Some (if mp_session p = None \<or> mp_session p = Some sid
       then \<lparr>mr_status = 200, mr_session = (if mp_session p = None then Some sid else None), mr_type = None,
         mr_body = Some (jprint (JObj [(''result'', result)]))\<rparr>
       else \<lparr>mr_status = 404, mr_session = None, mr_type = None, mr_body = None\<rparr>)"

definition fits :: "json \<Rightarrow> bool" where
  "fits body \<longleftrightarrow> utf8_length (jprint body) \<le> MAX_BODY"

lemma renewing_post:
  assumes "mo_answer v = renewing sid result" and "fits body" and "sid \<noteq> []"
  shows "post v body note s =
    (s\<lparr>ms_posts := ms_posts s @ [\<lparr>mp_auth = authHeader v, mp_session = filled (ms_id s), mp_body = body\<rparr>]\<rparr>,
     if filled (ms_id s) = None \<or> ms_id s = Some sid
     then Inr (\<lparr>mr_status = 200, mr_session = (if filled (ms_id s) = None then Some sid else None), mr_type = None,
         mr_body = Some (jprint (JObj [(''result'', result)]))\<rparr>, if note then None else Some (JObj [(''result'', result)]))
     else Inl SessionExpired)"
proof -
  have i: "includes_str ''text/event-stream'' [] = False" by code_simp
  have ne: "jprint (JObj [(''result'', result)]) \<noteq> []" by simp
  have r: "json_parse (jprint (JObj [(''result'', result)])) = Some (JObj [(''result'', result)])" by (rule json_roundtrip)
  show ?thesis using assms
    by (auto simp: post_def fits_def Let_def renewing_def parseBody_def or_empty_def i ne r filled_def simp del: jprint.simps split: if_splits option.splits)
qed

lemma renewed_result: "rpc_error (Some (JObj [(''result'', r)])) = False" "member ''result'' (Some (JObj [(''result'', r)])) = Some r"
  by (simp_all add: rpc_error_def member_def json_prop_def)

abbreviation call_params :: "string \<Rightarrow> json \<Rightarrow> json" where
  "call_params name args \<equiv> JObj [(''name'', JStr name), (''arguments'', args)]"


text \<open>But a session that has the id and not yet shaken hands, because its note failed, sends the forgotten id with every further
  handshake and never drops it: it stays useless until the adapter forgets it.\<close>

lemma stale_handshake_never_recovers:
  assumes "mo_answer v = renewing sid result" and "sid \<noteq> []" and "old \<noteq> []" and "old \<noteq> sid"
    and "\<not> ms_initialized s" and "ms_id s = Some old"
  shows "\<not> ms_initialized (foldl (mcp_step v) s ops) \<and> ms_id (foldl (mcp_step v) s ops) = Some old"
    and "\<exists>k. snd (session_call v name args (foldl (mcp_step v) s ops)) = Inl k"
proof -
  have i: "\<exists>s' k. initialize v s0 = (s', Some k) \<and> \<not> ms_initialized s' \<and> ms_id s' = Some old"
    if "\<not> ms_initialized s0" "ms_id s0 = Some old" for s0
    using that assms(2-4) renewing_post [OF assms(1) _ assms(2), of "rpc (ms_next s0) ''initialize'' (init_params v)" False "s0\<lparr>ms_next := ms_next s0 + 1\<rparr>"]
    by (cases "fits (rpc (ms_next s0) ''initialize'' (init_params v))")
      (simp_all add: initialize_def post_request_def filled_def, simp add: post_def fits_def)
  have st: "\<not> ms_initialized (mcp_step v s0 op) \<and> ms_id (mcp_step v s0 op) = Some old"
    if "\<not> ms_initialized s0" "ms_id s0 = Some old" for s0 op
    using i [OF that] that by (cases op) (auto simp: session_call_def listTools_def ensureInitialized_def)
  have f: "\<not> ms_initialized (foldl (mcp_step v) s0 ops) \<and> ms_id (foldl (mcp_step v) s0 ops) = Some old"
    if "\<not> ms_initialized s0" "ms_id s0 = Some old" for s0
    using that by (induction ops arbitrary: s0) (simp_all add: st)
  show "\<not> ms_initialized (foldl (mcp_step v) s ops) \<and> ms_id (foldl (mcp_step v) s ops) = Some old"
    using f assms(5,6) by blast
  then show "\<exists>k. snd (session_call v name args (foldl (mcp_step v) s ops)) = Inl k"
    using i by (fastforce simp: session_call_def ensureInitialized_def)
qed

section \<open>A concrete session\<close>

definition sample_options :: mcp_options where
  "sample_options = \<lparr>mo_scheme = ''pat'', mo_token = ''t'', mo_version = ''v'', mo_retries = 1, mo_name = None, mo_client_version = None,
     mo_answer = renewing ''new'' (JObj [])\<rparr>"

definition sample_session :: mcp_session where
  "sample_session = new_session\<lparr>ms_id := Some ''old'', ms_initialized := True\<rparr>"

lemma fits_short: "length (jprint b) < 1000 \<Longrightarrow> fits b"
proof -
  have "utf8_length s \<le> 2 * length s" for s
    by (induction s) (auto simp: utf8_length_def)
  from this [of "jprint b"] show "length (jprint b) < 1000 \<Longrightarrow> fits b" by (simp add: fits_def MAX_BODY_def)
qed

lemma sample_fits:
  "fits (rpc 1 ''tools/call'' (call_params ''ask'' JNull))" "fits (rpc 2 ''initialize'' (init_params sample_options))"
  "fits initialized_note" "fits (rpc 3 ''tools/call'' (call_params ''ask'' JNull))"
  by (rule fits_short, code_simp)+


text \<open>An empty body, and a stream without a response, are a successful call without a result.\<close>

lemma empty_body_is_success: "parseBody \<lparr>mr_status = 200, mr_session = None, mr_type = None, mr_body = Some []\<rparr> = Inr None"
  "parseToolResult None = (False, \<lparr>tr_text = [], tr_structured = None, tr_raw = JNull\<rparr>)"
  by code_simp+

end
