(* ===== verification/Link.thy ===== *)
theory Link
  imports Jid
begin

text \<open>
  The life of the WhatsApp connection (\<open>src/whatsapp/socket.ts\<close>): linking, pairing, opening sockets,
  closing and reconnecting, and the persisted row. The table holds the row of this process's one
  connection. Opening a socket first fetches the version (\<open>ln_opening\<close> counts the calls that wait for
  it); timers are pauses that may run off at any time. A socket's close is reported at any time after
  it happened. The library, its credentials and the pairing code are events.
\<close>

section \<open>State\<close>

datatype link_status = LinkPending | Linked | LoggedOut

record conn_row =
  wc_number :: string
  wc_status :: link_status
  wc_label :: "string option"
  wc_linked :: "time option"
  wc_created :: time
  wc_updated :: time

record live =
  lv_sock :: "nat option"
  lv_registered :: bool
  lv_status :: link_status
  lv_linked :: "time option"
  lv_attempts :: nat
  lv_rejected :: nat
  lv_pairing :: bool
  lv_stopped :: bool
  lv_code :: "string option"
  lv_number :: string
  lv_label :: "string option"

datatype conn_note = NoteLoggedOut | NoteLinked time | NoteCode string

record line =
  ln_row :: "conn_row option"
  ln_live :: live
  ln_opening :: nat
  ln_sockets :: nat
  ln_timers :: "nat list"
  ln_pairing :: "string list"
  ln_notes :: "conn_note list"
  ln_now :: time

definition MAX_BACKOFF_MS :: nat where "MAX_BACKOFF_MS = 300000"
definition BASE_BACKOFF_MS :: nat where "BASE_BACKOFF_MS = 2000"
definition MAX_LINK_ATTEMPTS :: nat where "MAX_LINK_ATTEMPTS = 20"
definition MAX_LOGGEDOUT_RETRIES :: nat where "MAX_LOGGEDOUT_RETRIES = 4"

abbreviation with_live :: "(live \<Rightarrow> live) \<Rightarrow> line \<Rightarrow> line" where
  "with_live f c \<equiv> c\<lparr>ln_live := f (ln_live c)\<rparr>"

section \<open>The row\<close>

definition readLinkedAt :: "conn_row option \<Rightarrow> time option" where
  "readLinkedAt row = (case row of None \<Rightarrow> None | Some r \<Rightarrow> if wc_status r \<noteq> Linked then None else wc_linked r)"

definition upsertConnectionRow :: "link_status \<Rightarrow> time option \<Rightarrow> line \<Rightarrow> line" where
  "upsertConnectionRow st linked c =
     c\<lparr>ln_row := Some (case ln_row c of
         None \<Rightarrow> \<lparr>wc_number = lv_number (ln_live c), wc_status = st, wc_label = lv_label (ln_live c), wc_linked = linked,
             wc_created = ln_now c, wc_updated = ln_now c\<rparr>
       | Some r \<Rightarrow> r\<lparr>wc_status := st, wc_linked := (case linked of None \<Rightarrow> wc_linked r | Some t \<Rightarrow> Some t), wc_updated := ln_now c\<rparr>)\<rparr>"

text \<open>The constructor: what a process starts with. The credentials are read from the table of session keys.\<close>

definition new_live :: "conn_row option \<Rightarrow> string option \<Rightarrow> bool \<Rightarrow> live" where
  "new_live row default_label registered =
     \<lparr>lv_sock = None, lv_registered = registered,
      lv_status = (if readLinkedAt row = None \<or> readLinkedAt row = Some 0 then LinkPending else Linked),
      lv_linked = readLinkedAt row, lv_attempts = 0, lv_rejected = 0, lv_pairing = False, lv_stopped = False, lv_code = None,
      lv_number = (case row of None \<Rightarrow> [] | Some r \<Rightarrow> wc_number r),
      lv_label = (case row of None \<Rightarrow> default_label | Some r \<Rightarrow> (case wc_label r of None \<Rightarrow> default_label | Some l \<Rightarrow> Some l))\<rparr>"

section \<open>Opening\<close>

text \<open>\<open>openSocket\<close> up to the version, and from it on; the flag is not looked at again.\<close>

definition openSocket :: "line \<Rightarrow> line" where
  "openSocket c = (if lv_stopped (ln_live c) then c else c\<lparr>ln_opening := ln_opening c + 1\<rparr>)"

definition make_socket :: "line \<Rightarrow> line" where
  "make_socket c =
     (let c' = with_live (\<lambda>l. l\<lparr>lv_sock := Some (ln_sockets c)\<rparr>) (c\<lparr>ln_opening := ln_opening c - 1, ln_sockets := ln_sockets c + 1\<rparr>);
          l = ln_live c'
      in if lv_linked l = None \<and> \<not> lv_pairing l \<and> \<not> lv_registered l
         then with_live (\<lambda>l. l\<lparr>lv_pairing := True\<rparr>) (c'\<lparr>ln_pairing := ln_pairing c' @ [e164ToPairingNumber (lv_number l)]\<rparr>)
         else c')"

definition start :: "line \<Rightarrow> line" where
  "start c = openSocket (with_live (\<lambda>l. l\<lparr>lv_stopped := False\<rparr>) c)"

definition stop :: "line \<Rightarrow> line" where
  "stop c = with_live (\<lambda>l. l\<lparr>lv_stopped := True\<rparr>) c"

text \<open>Fresh credentials are not registered; a missing label keeps the old one.\<close>

definition link_number :: "string \<Rightarrow> string option \<Rightarrow> line \<Rightarrow> line" where
  "link_number number label c =
     start (upsertConnectionRow LinkPending None
       (with_live (\<lambda>l. l\<lparr>lv_registered := False, lv_number := number,
           lv_label := (case label of None \<Rightarrow> lv_label l | Some t \<Rightarrow> Some t),
           lv_status := LinkPending, lv_linked := None, lv_attempts := 0, lv_rejected := 0, lv_pairing := False, lv_code := None\<rparr>)
         (stop c)))"

definition unlink :: "line \<Rightarrow> line" where
  "unlink c =
     upsertConnectionRow LoggedOut None
       (with_live (\<lambda>l. l\<lparr>lv_status := LoggedOut, lv_linked := None, lv_code := None\<rparr>) (stop c))"

section \<open>Opened and closed\<close>

definition on_open :: "line \<Rightarrow> line" where
  "on_open c =
     (let old = lv_linked (ln_live c); t = (case old of None \<Rightarrow> ln_now c | Some t \<Rightarrow> t);
          c' = upsertConnectionRow Linked (Some t)
            (with_live (\<lambda>l. l\<lparr>lv_attempts := 0, lv_rejected := 0, lv_code := None, lv_linked := Some t, lv_status := Linked\<rparr>) c)
      in if old = None then c'\<lparr>ln_notes := ln_notes c' @ [NoteLinked t]\<rparr> else c')"

definition backoff :: "nat \<Rightarrow> nat" where
  "backoff attempt = min (BASE_BACKOFF_MS * 2 ^ attempt) MAX_BACKOFF_MS"

text \<open>The counters after a close, and whether to go on.\<close>

definition reconnect :: "bool \<Rightarrow> line \<Rightarrow> line" where
  "reconnect logged_out c =
     (let l = ln_live c; ever = (lv_linked l \<noteq> None);
          pause = backoff (if ever then lv_rejected l else lv_attempts l)
      in (if ever \<and> \<not> logged_out then with_live (\<lambda>l. l\<lparr>lv_rejected := 0\<rparr>) c else c)\<lparr>ln_timers := ln_timers c @ [pause]\<rparr>)"

definition handleClose :: "bool \<Rightarrow> line \<Rightarrow> line" where
  "handleClose logged_out c =
     (let l = ln_live c; ever = (lv_linked l \<noteq> None) in
      if lv_stopped l then c
      else if logged_out \<and> ever then
        (let c1 = with_live (\<lambda>l. l\<lparr>lv_rejected := lv_rejected l + 1\<rparr>) c in
         if MAX_LOGGEDOUT_RETRIES \<le> lv_rejected (ln_live c1)
         then (let c2 = with_live (\<lambda>l. l\<lparr>lv_stopped := True\<rparr>)
                   (upsertConnectionRow LoggedOut None (with_live (\<lambda>l. l\<lparr>lv_status := LoggedOut\<rparr>) c1))
               in c2\<lparr>ln_notes := ln_notes c2 @ [NoteLoggedOut]\<rparr>)
         else reconnect logged_out c1)
      else if \<not> ever then
        (let c1 = with_live (\<lambda>l. l\<lparr>lv_attempts := lv_attempts l + 1\<rparr>) c in
         if MAX_LINK_ATTEMPTS \<le> lv_attempts (ln_live c1) then with_live (\<lambda>l. l\<lparr>lv_stopped := True\<rparr>) c1
         else reconnect logged_out c1)
      else reconnect logged_out c)"

section \<open>Events\<close>

text \<open>Closed with code 401 or otherwise; a close of any socket is handled alike. Starting is part of booting and of linking.\<close>

datatype conn_event =
    Stop | LinkNumber string "string option" | Unlink
  | VersionFetched | Opened | Closed bool | TimerRuns nat | CodeArrives nat "string option" | CredsRegistered | Waits nat

definition drop_nth :: "nat \<Rightarrow> 'a list \<Rightarrow> 'a list" where
  "drop_nth i xs = take i xs @ drop (Suc i) xs"

fun conn_step :: "line \<Rightarrow> conn_event \<Rightarrow> line" where
  "conn_step c Stop = stop c"
| "conn_step c (LinkNumber n l) = link_number n l c"
| "conn_step c Unlink = unlink c"
| "conn_step c VersionFetched = (if ln_opening c = 0 then c else make_socket c)"
| "conn_step c Opened = (if ln_sockets c = 0 then c else on_open c)"
| "conn_step c (Closed logged_out) = (if ln_sockets c = 0 then c else handleClose logged_out c)"
| "conn_step c (TimerRuns i) =
     (if i < length (ln_timers c) then openSocket (c\<lparr>ln_timers := drop_nth i (ln_timers c)\<rparr>) else c)"
| "conn_step c (CodeArrives i code) =
     (if i < length (ln_pairing c)
      then (let c' = c\<lparr>ln_pairing := drop_nth i (ln_pairing c)\<rparr> in
            case code of None \<Rightarrow> c'
            | Some t \<Rightarrow> with_live (\<lambda>l. l\<lparr>lv_code := Some t\<rparr>) (c'\<lparr>ln_notes := ln_notes c' @ [NoteCode t]\<rparr>))
      else c)"
| "conn_step c CredsRegistered = with_live (\<lambda>l. l\<lparr>lv_registered := True\<rparr>) c"
| "conn_step c (Waits n) = c\<lparr>ln_now := ln_now c + n\<rparr>"

text \<open>The process starts: the connection is resumed when it was linked.\<close>

definition boot :: "conn_row option \<Rightarrow> string option \<Rightarrow> bool \<Rightarrow> time \<Rightarrow> line" where
  "boot row label registered now =
     (let c = \<lparr>ln_row = row, ln_live = new_live row label registered, ln_opening = 0, ln_sockets = 0, ln_timers = [], ln_pairing = [],
          ln_notes = [], ln_now = now\<rparr>
      in if lv_status (ln_live c) = Linked then start c else c)"

lemmas link_defs = stop_def unlink_def link_number_def start_def upsertConnectionRow_def make_socket_def on_open_def handleClose_def
  reconnect_def openSocket_def boot_def new_live_def readLinkedAt_def drop_nth_def MAX_LINK_ATTEMPTS_def MAX_LOGGEDOUT_RETRIES_def

section \<open>Invariant\<close>

definition row_linked :: "conn_row option \<Rightarrow> time option" where
  "row_linked row = (case row of None \<Rightarrow> None | Some r \<Rightarrow> if wc_status r = Linked then wc_linked r else None)"

definition row_ok :: "conn_row option \<Rightarrow> bool" where
  "row_ok row \<longleftrightarrow> (case row of None \<Rightarrow> True | Some r \<Rightarrow> wc_status r = Linked \<longrightarrow> wc_linked r \<noteq> None \<and> wc_linked r \<noteq> Some 0)"

definition line_ok :: "line \<Rightarrow> bool" where
  "line_ok c \<longleftrightarrow> (let l = ln_live c in
     (lv_stopped l \<or> lv_attempts l < MAX_LINK_ATTEMPTS \<and> lv_rejected l < MAX_LOGGEDOUT_RETRIES)
     \<and> list_all (\<lambda>p. BASE_BACKOFF_MS \<le> p \<and> p \<le> MAX_BACKOFF_MS) (ln_timers c)
     \<and> row_linked (ln_row c) = (if lv_status l = Linked then lv_linked l else None)
     \<and> (lv_status l = Linked \<longrightarrow> lv_linked l \<noteq> None)
     \<and> 0 < ln_now c \<and> lv_linked l \<noteq> Some 0 \<and> row_ok (ln_row c))"

lemma backoff_bounds: "BASE_BACKOFF_MS \<le> backoff n \<and> backoff n \<le> MAX_BACKOFF_MS"
  by (simp add: backoff_def BASE_BACKOFF_MS_def MAX_BACKOFF_MS_def)

lemma drop_nth_all: "list_all P xs \<Longrightarrow> list_all P (drop_nth i xs)"
  by (auto simp: drop_nth_def list_all_iff dest: in_set_takeD in_set_dropD)

lemmas upsert_simps = upsertConnectionRow_def row_linked_def row_ok_def

lemma openSocket_ok: "line_ok c \<Longrightarrow> line_ok (openSocket c)"
  by (auto simp: openSocket_def line_ok_def Let_def)

lemma make_ok: "line_ok c \<Longrightarrow> line_ok (make_socket c)"
  by (auto simp: make_socket_def line_ok_def Let_def)

lemma link_ok: "line_ok c \<Longrightarrow> line_ok (link_number n l c)"
  unfolding link_number_def start_def
  by (rule openSocket_ok)
    (auto simp: line_ok_def Let_def stop_def upsert_simps MAX_LINK_ATTEMPTS_def MAX_LOGGEDOUT_RETRIES_def split: option.splits)

lemma unlink_ok: "line_ok c \<Longrightarrow> line_ok (unlink c)"
  by (auto simp: unlink_def line_ok_def Let_def stop_def upsert_simps split: option.splits)

lemma on_open_ok: "line_ok c \<Longrightarrow> line_ok (on_open c)"
  by (auto simp: on_open_def line_ok_def Let_def upsert_simps MAX_LINK_ATTEMPTS_def MAX_LOGGEDOUT_RETRIES_def split: option.splits)

lemma reconnect_ok: "line_ok c \<Longrightarrow> line_ok (reconnect b c)"
  using backoff_bounds by (auto simp: reconnect_def line_ok_def Let_def MAX_LOGGEDOUT_RETRIES_def)

lemma close_ok: "line_ok c \<Longrightarrow> line_ok (handleClose b c)"
  by (auto simp: handleClose_def Let_def intro!: reconnect_ok)
    (auto simp: line_ok_def Let_def upsert_simps split: option.splits)

lemma step_ok: "line_ok c \<Longrightarrow> line_ok (conn_step c e)"
proof (cases e)
  case (TimerRuns i)
  assume "line_ok c"
  then have "line_ok (c\<lparr>ln_timers := drop_nth i (ln_timers c)\<rparr>)" by (simp add: line_ok_def Let_def drop_nth_all)
  with \<open>line_ok c\<close> TimerRuns show ?thesis by (simp add: openSocket_ok)
qed (auto simp: link_ok unlink_ok make_ok on_open_ok close_ok, auto simp: line_ok_def Let_def stop_def split: option.split)

interpretation lifecycle: machine conn_step line_ok
  by unfold_locales (rule step_ok)

lemma boot_ok: "row_ok row \<Longrightarrow> 0 < now \<Longrightarrow> line_ok (boot row label reg now)"
  by (auto simp: boot_def Let_def new_live_def line_ok_def start_def openSocket_def readLinkedAt_def row_linked_def row_ok_def
      MAX_LINK_ATTEMPTS_def MAX_LOGGEDOUT_RETRIES_def split: option.splits)

lemma resumed:
  assumes "line_ok c"
  shows "lv_status (new_live (ln_row c) label reg) = Linked \<longleftrightarrow> lv_status (ln_live c) = Linked"
    and "lv_status (ln_live c) = Linked \<Longrightarrow> lv_linked (new_live (ln_row c) label reg) = lv_linked (ln_live c)"
proof -
  have r: "readLinkedAt (ln_row c) = (if lv_status (ln_live c) = Linked then lv_linked (ln_live c) else None)"
    using assms by (auto simp: line_ok_def Let_def readLinkedAt_def row_linked_def split: option.splits)
  then show "lv_status (new_live (ln_row c) label reg) = Linked \<longleftrightarrow> lv_status (ln_live c) = Linked"
    and "lv_status (ln_live c) = Linked \<Longrightarrow> lv_linked (new_live (ln_row c) label reg) = lv_linked (ln_live c)"
    using assms by (auto simp: line_ok_def Let_def new_live_def)
qed

lemma boot_live: "lv_status (ln_live (boot row label reg now)) = lv_status (new_live row label reg)"
  "lv_linked (ln_live (boot row label reg now)) = lv_linked (new_live row label reg)"
  by (simp_all add: boot_def Let_def start_def openSocket_def)



section \<open>Logged out\<close>

fun admin :: "conn_event \<Rightarrow> bool" where
  "admin (LinkNumber n l) = True"
| "admin e = False"

lemma stopped_step:
  assumes "lv_stopped (ln_live c)" and "\<not> admin e"
  shows "lv_stopped (ln_live (conn_step c e)) \<and> ln_sockets (conn_step c e) + ln_opening (conn_step c e) \<le> ln_sockets c + ln_opening c"
  using assms
  by (cases e) (auto simp: stop_def unlink_def upsertConnectionRow_def make_socket_def on_open_def handleClose_def openSocket_def Let_def
      split: option.split)

lemma stopped_run:
  "lv_stopped (ln_live c) \<Longrightarrow> list_all (\<lambda>e. \<not> admin e) es \<Longrightarrow>
     lv_stopped (ln_live (foldl conn_step c es)) \<and> ln_sockets (foldl conn_step c es) \<le> ln_sockets c + ln_opening c"
proof (induction es arbitrary: c)
  case (Cons e es)
  have "lv_stopped (ln_live (conn_step c e))" "ln_sockets (conn_step c e) + ln_opening (conn_step c e) \<le> ln_sockets c + ln_opening c"
    using stopped_step [of c e] Cons.prems by auto
  then show ?case using Cons.IH [of "conn_step c e"] Cons.prems(2) by fastforce
qed simp

text \<open>Events other than opening, being told to stop and the administrator's.\<close>

fun unattended :: "conn_event \<Rightarrow> bool" where
  "unattended (Closed logged_out) = logged_out"
| "unattended VersionFetched = True"
| "unattended (TimerRuns i) = True"
| "unattended (CodeArrives i code) = True"
| "unattended CredsRegistered = True"
| "unattended (Waits n) = True"
| "unattended e = False"

definition given_up :: "line \<Rightarrow> bool" where
  "given_up c \<longleftrightarrow> lv_stopped (ln_live c) \<and> lv_status (ln_live c) = LoggedOut
     \<and> map_option wc_status (ln_row c) = Some LoggedOut \<and> NoteLoggedOut \<in> set (ln_notes c)"

lemma given_up_stays: "given_up c \<Longrightarrow> unattended e \<Longrightarrow> given_up (conn_step c e)"
  by (cases e) (auto simp: given_up_def make_socket_def handleClose_def openSocket_def Let_def split: option.split)

lemma given_up_run: "given_up c \<Longrightarrow> list_all unattended es \<Longrightarrow> given_up (foldl conn_step c es)"
  by (induction es arbitrary: c) (simp_all add: given_up_stays)

definition rejections :: "conn_event list \<Rightarrow> nat" where
  "rejections es = length (filter (\<lambda>e. e = Closed True) es)"

lemma rejected_step:
  assumes "lv_linked (ln_live c) \<noteq> None" and "\<not> lv_stopped (ln_live c)" and "0 < ln_sockets c" and "unattended e"
  shows "if e = Closed True \<and> 3 \<le> lv_rejected (ln_live c) then given_up (conn_step c e)
    else lv_linked (ln_live (conn_step c e)) \<noteq> None \<and> \<not> lv_stopped (ln_live (conn_step c e)) \<and> 0 < ln_sockets (conn_step c e)
      \<and> lv_rejected (ln_live (conn_step c e)) = lv_rejected (ln_live c) + (if e = Closed True then 1 else 0)"
  using assms
  by (cases e) (auto simp: given_up_def make_socket_def handleClose_def reconnect_def openSocket_def upsertConnectionRow_def
      MAX_LOGGEDOUT_RETRIES_def Let_def split: option.split)

lemma rejected_run:
  "lv_linked (ln_live c) \<noteq> None \<Longrightarrow> \<not> lv_stopped (ln_live c) \<Longrightarrow> 0 < ln_sockets c \<Longrightarrow> list_all unattended es \<Longrightarrow>
     lv_rejected (ln_live c) < 4 \<Longrightarrow> 4 \<le> lv_rejected (ln_live c) + rejections es \<Longrightarrow> given_up (foldl conn_step c es)"
proof (induction es arbitrary: c)
  case (Cons e es)
  show ?case
  proof (cases "e = Closed True \<and> 3 \<le> lv_rejected (ln_live c)")
    case True
    then show ?thesis using rejected_step [of c e] Cons.prems given_up_run [of "conn_step c e" es] by simp
  next
    case False
    then show ?thesis
      using rejected_step [of c e] Cons.prems Cons.IH [of "conn_step c e"]
      by (cases "e = Closed True") (auto simp: rejections_def)
  qed
qed (simp add: rejections_def)


definition linked_line :: line where
  "linked_line = foldl conn_step (boot None None False 1) [LinkNumber ''+39333'' None, VersionFetched, CredsRegistered, Opened]"

definition four_closes :: "conn_event list" where
  "four_closes = concat (replicate 4 [Closed True, TimerRuns 0, VersionFetched])"


section \<open>Where the lifecycle slips\<close>

text \<open>The number of the row is that of the first link for good: a restart after linking another number has the old one.\<close>

lemma number_never_updated:
  "ln_row c = Some r \<Longrightarrow> \<exists>r'. ln_row (foldl conn_step c es) = Some r' \<and> wc_number r' = wc_number r"
proof (induction es arbitrary: c r)
  case (Cons e es)
  have "\<exists>r'. ln_row (conn_step c e) = Some r' \<and> wc_number r' = wc_number r" using Cons.prems
    by (cases e) (auto simp: link_defs Let_def split: option.split)
  then show ?case using Cons.IH by fastforce
qed simp

lemma restart_has_old_number:
  "let c = foldl conn_step (boot None None False 1)
       [LinkNumber ''+39333'' None, VersionFetched, Unlink, LinkNumber ''+44777'' None, VersionFetched, Opened] in
     lv_number (ln_live c) = ''+44777'' \<and> lv_number (ln_live (boot (ln_row c) None True 2)) = ''+39333''"
  by (simp add: link_defs)

text \<open>The close of the socket that linking again tore down is taken for a close of the new one, and opens another.\<close>

lemma old_close_opens_another_socket:
  "let c = foldl conn_step (boot None None False 1)
       [LinkNumber ''+39333'' None, VersionFetched, LinkNumber ''+39333'' None, VersionFetched, Closed False, TimerRuns 0, VersionFetched] in
     ln_sockets c = 3 \<and> \<not> lv_stopped (ln_live c)"
  by (simp add: link_defs)

text \<open>Stopping while the version is fetched does not stop the socket.\<close>

lemma stopped_yet_opens:
  "let c = foldl conn_step (boot None None False 1) [LinkNumber ''+39333'' None, Unlink, VersionFetched] in
     ln_sockets c = 1 \<and> lv_stopped (ln_live c) \<and> lv_status (ln_live c) = LoggedOut"
  by (simp add: link_defs)

text \<open>A socket opened after a close while pairing asks for no code of its own.\<close>

lemma no_code_after_reconnect:
  "let c = foldl conn_step (boot None None False 1) [LinkNumber ''+39333'' None, VersionFetched, CodeArrives 0 None, Closed False, TimerRuns 0, VersionFetched] in
     ln_sockets c = 2 \<and> ln_pairing c = [] \<and> lv_code (ln_live c) = None"
  by (simp add: link_defs)

end
