(* ===== verification/AuthState.thy ===== *)
theory AuthState
  imports Credentials Json
begin

text \<open>
  The store of the WhatsApp library's session (\<open>src/whatsapp/authState.ts\<close>): its credentials and keys,
  each value encrypted in a row of its own. A value is JSON, as the library's replacer writes it
  (bytes are not JSON, and the replacer and the reviver are the library's); fresh credentials and
  the restoring of sync keys, which both are the library's, are the parameters \<open>fresh\<close> and \<open>restore\<close>.
\<close>

section \<open>Rows\<close>

record key_row =
  kr_conn :: string
  kr_type :: string
  kr_id :: string
  kr_value :: bytes
  kr_updated :: time

type_synonym key_name = "string \<times> string \<times> string"

definition kr_key :: "key_row \<Rightarrow> key_name" where
  "kr_key r = (kr_conn r, kr_type r, kr_id r)"

text \<open>What cannot be decrypted or read throws, here \<open>Inl\<close>.\<close>

definition readValue :: "vault \<Rightarrow> key_name \<Rightarrow> key_row list \<Rightarrow> unit + json option" where
  "readValue v k rows =
     (case sql_get (\<lambda>r. kr_key r = k) rows of
        None \<Rightarrow> Inr None
      | Some r \<Rightarrow>
          (case decryptToString (v_unseal v) (kr_value r) (v_key v) of
             Inr (Some t) \<Rightarrow> (case json_parse t of None \<Rightarrow> Inl () | Some j \<Rightarrow> Inr (Some j))
           | _ \<Rightarrow> Inl ()))"

definition writeValue :: "vault \<Rightarrow> time \<Rightarrow> bytes \<Rightarrow> key_name \<Rightarrow> json \<Rightarrow> key_row list \<Rightarrow> key_row list" where
  "writeValue v now iv k j rows =
     (let enc = encrypt_string (v_seal v) iv (jprint j) (v_key v) in
      sql_upsert kr_key \<lparr>kr_conn = fst k, kr_type = fst (snd k), kr_id = snd (snd k), kr_value = enc, kr_updated = now\<rparr>
        (\<lambda>r. r\<lparr>kr_value := enc, kr_updated := now\<rparr>) rows)"

definition deleteValue :: "key_name \<Rightarrow> key_row list \<Rightarrow> key_row list" where
  "deleteValue k rows = filter (\<lambda>r. kr_key r \<noteq> k) rows"

section \<open>The handle\<close>

text \<open>The stored credentials, or fresh ones; a stored \<open>null\<close> is none.\<close>

definition stored_creds :: "vault \<Rightarrow> string \<Rightarrow> json \<Rightarrow> key_row list \<Rightarrow> unit + json" where
  "stored_creds v conn fresh rows =
     (case readValue v (conn, ''creds'', []) rows of
        Inl e \<Rightarrow> Inl e
      | Inr None \<Rightarrow> Inr fresh
      | Inr (Some j) \<Rightarrow> Inr (if j = JNull then fresh else j))"

definition usable_value :: "(json \<Rightarrow> json) \<Rightarrow> string \<Rightarrow> json \<Rightarrow> json option" where
  "usable_value restore ty j =
     (if \<not> truthy j then None else Some (if ty = ''app-state-sync-key'' then restore j else j))"

fun get_keys :: "vault \<Rightarrow> (json \<Rightarrow> json) \<Rightarrow> string \<Rightarrow> string \<Rightarrow> string list \<Rightarrow> key_row list \<Rightarrow> unit + (string \<rightharpoonup> json)" where
  "get_keys v restore conn ty [] rows = Inr Map.empty"
| "get_keys v restore conn ty (i # ids) rows =
     (case readValue v (conn, ty, i) rows of
        Inl e \<Rightarrow> Inl e
      | Inr found \<Rightarrow>
          (case get_keys v restore conn ty ids rows of
             Inl e \<Rightarrow> Inl e
           | Inr m \<Rightarrow>
               Inr (case Option.bind found (usable_value restore ty) of
                   None \<Rightarrow> m | Some j \<Rightarrow> m(i \<mapsto> j))))"

text \<open>One entry of \<open>set\<close>: its type, its id, its value; an empty value deletes. Each write draws a nonce.\<close>

type_synonym key_entry = "string \<times> string \<times> json"

definition set_key :: "vault \<Rightarrow> time \<Rightarrow> string \<Rightarrow> key_row list \<Rightarrow> key_entry \<times> bytes \<Rightarrow> key_row list" where
  "set_key v now conn rows e =
     (case e of ((ty, i, j), iv) \<Rightarrow>
        if \<not> truthy j then deleteValue (conn, ty, i) rows else writeValue v now iv (conn, ty, i) j rows)"

definition set_keys :: "vault \<Rightarrow> time \<Rightarrow> string \<Rightarrow> (key_entry \<times> bytes) list \<Rightarrow> key_row list \<Rightarrow> key_row list" where
  "set_keys v now conn entries rows = foldl (set_key v now conn) rows entries"

definition saveCreds :: "vault \<Rightarrow> time \<Rightarrow> bytes \<Rightarrow> string \<Rightarrow> json \<Rightarrow> key_row list \<Rightarrow> key_row list" where
  "saveCreds v now iv conn creds rows = writeValue v now iv (conn, ''creds'', []) creds rows"

definition clear_session :: "string \<Rightarrow> key_row list \<Rightarrow> key_row list" where
  "clear_session conn rows = filter (\<lambda>r. kr_conn r \<noteq> conn) rows"

section \<open>Reading back\<close>

definition vault_ok :: "vault \<Rightarrow> bool" where
  "vault_ok v \<longleftrightarrow> aead (v_seal v) (v_unseal v)"

lemma read_write:
  assumes "vault_ok v" and "length iv = IV_LEN"
  shows "readValue v k' (writeValue v now iv k j rows) = (if k' = k then Inr (Some j) else readValue v k' rows)"
proof -
  have d: "decryptToString (v_unseal v) (encrypt_string (v_seal v) iv s (v_key v)) (v_key v) = Inr (Some s)" for s
    using assms by (simp add: vault_ok_def decryptToString_encrypt)
  obtain a b c where k: "k = (a, b, c)" by (cases k)
  have g: "sql_get (\<lambda>r. kr_key r = k') (writeValue v now iv k j rows)
    = (if k' = k then Some (case sql_get (\<lambda>r. kr_key r = k) rows of
           None \<Rightarrow> \<lparr>kr_conn = a, kr_type = b, kr_id = c, kr_value = encrypt_string (v_seal v) iv (jprint j) (v_key v), kr_updated = now\<rparr>
         | Some r \<Rightarrow> r\<lparr>kr_value := encrypt_string (v_seal v) iv (jprint j) (v_key v), kr_updated := now\<rparr>)
       else sql_get (\<lambda>r. kr_key r = k') rows)"
    unfolding writeValue_def Let_def by (subst sql_get_upsert) (auto simp: kr_key_def k split: option.split)
  show ?thesis unfolding readValue_def g by (simp add: d json_roundtrip split: option.split)
qed

lemma read_delete: "readValue v k' (deleteValue k rows) = (if k' = k then Inr None else readValue v k' rows)"
proof -
  have "sql_get (\<lambda>r. kr_key r = k') (deleteValue k rows) = (if k' = k then None else sql_get (\<lambda>r. kr_key r = k') rows)"
    by (induction rows) (auto simp: deleteValue_def sql_get_Cons)
  then show ?thesis by (simp add: readValue_def)
qed

definition entry_key :: "string \<Rightarrow> key_entry \<times> bytes \<Rightarrow> key_name" where
  "entry_key conn e = (conn, fst (fst e), fst (snd (fst e)))"

definition entry_value :: "key_entry \<times> bytes \<Rightarrow> json option" where
  "entry_value e = (let j = snd (snd (fst e)) in if \<not> truthy j then None else Some j)"

lemma read_set:
  assumes "vault_ok v" and "length (snd e) = IV_LEN"
  shows "readValue v k (set_key v now conn rows e) = (if k = entry_key conn e then Inr (entry_value e) else readValue v k rows)"
  using assms by (auto simp: set_key_def entry_key_def entry_value_def read_write read_delete split: prod.split)

lemma read_sets:
  "vault_ok v \<Longrightarrow> list_all (\<lambda>e. length (snd e) = IV_LEN) es \<Longrightarrow>
     readValue v k (foldl (set_key v now conn) rows es)
     = (case map_of (rev (map (\<lambda>e. (entry_key conn e, entry_value e)) es)) k of None \<Rightarrow> readValue v k rows | Some x \<Rightarrow> Inr x)"
proof (induction es rule: rev_induct)
  case (snoc e es)
  then show ?case by (simp add: read_set)
qed simp

lemma read_clear: "readValue v (conn', ty, i) (clear_session conn rows) = (if conn' = conn then Inr None else readValue v (conn', ty, i) rows)"
proof -
  have "sql_get (\<lambda>r. kr_key r = (conn', ty, i)) (clear_session conn rows)
      = (if conn' = conn then None else sql_get (\<lambda>r. kr_key r = (conn', ty, i)) rows)"
    by (induction rows) (auto simp: clear_session_def sql_get_Cons kr_key_def)
  then show ?thesis by (simp add: readValue_def)
qed

section \<open>Properties\<close>

text \<open>C37: The library reads back what it stored: after a batch each key has its last value of the batch, an empty one is gone, any
  other key of any connection is as before; and clearing a connection forgets its keys only.\<close>

theorem session_keys_read_back:
  assumes "vault_ok v" and "list_all (\<lambda>e. length (snd e) = IV_LEN) entries"
  shows "readValue v k (set_keys v now conn entries rows)
      = (case map_of (rev (map (\<lambda>e. (entry_key conn e, entry_value e)) entries)) k of None \<Rightarrow> readValue v k rows | Some x \<Rightarrow> Inr x)
    \<and> readValue v k (clear_session conn rows) = (if fst k = conn then Inr None else readValue v k rows)"
  using read_sets [OF assms] read_clear by (cases k) (auto simp: set_keys_def)

definition sample_vault :: vault where
  "sample_vault = \<lparr>v_seal = plain_seal, v_unseal = plain_unseal, v_sha = id, v_key = [1]\<rparr>"

theorem session_keys_read_back_witness:
  "readValue sample_vault (''c'', ''pre-key'', ''1'')
     (set_keys sample_vault 5 ''c'' [((''pre-key'', ''1'', JNull), replicate 12 0), ((''pre-key'', ''1'', JBool True), replicate 12 0)] [])
   = Inr (Some (JBool True))"
proof -
  have "vault_ok sample_vault" by (simp add: vault_ok_def sample_vault_def plain_aead)
  then show ?thesis
    using session_keys_read_back [of sample_vault "[((''pre-key'', ''1'', JNull), replicate 12 0), ((''pre-key'', ''1'', JBool True), replicate 12 0)]"
        "(''c'', ''pre-key'', ''1'')" 5 "''c''" "[]"]
    by (simp add: IV_LEN_def entry_key_def entry_value_def)
qed

end
