(* ===== verification/GroupEvents.thy ===== *)
theory GroupEvents
  imports Jid Json
begin

text \<open>
  What the gateway believes of the events of the WhatsApp library (\<open>src/whatsapp/groupEvents.ts\<close>): its
  own identities, mentions, its own joining and leaving, and the validation of history. An event is
  a JSON value; bytes are the object that the library's replacer writes for them, a \<open>Long\<close> the object
  of its two halves. A schema is a predicate of a field that may be missing.
\<close>

section \<open>Schemas\<close>

type_synonym schema = "json option \<Rightarrow> bool"

definition nullish :: "schema \<Rightarrow> schema" where
  "nullish s j \<longleftrightarrow> j = None \<or> j = Some JNull \<or> s j"

definition optional :: "schema \<Rightarrow> schema" where
  "optional s j \<longleftrightarrow> j = None \<or> s j"

definition text_of :: "(string \<Rightarrow> bool) \<Rightarrow> schema" where
  "text_of p j \<longleftrightarrow> (case j of Some (JStr t) \<Rightarrow> p t | _ \<Rightarrow> False)"

definition any_text :: schema where "any_text = text_of (\<lambda>t. True)"

definition any_bool :: schema where
  "any_bool j \<longleftrightarrow> (case j of Some (JBool b) \<Rightarrow> True | _ \<Rightarrow> False)"

definition array_of :: "schema \<Rightarrow> schema" where
  "array_of s j \<longleftrightarrow> (case j of Some (JArr xs) \<Rightarrow> list_all (\<lambda>x. s (Some x)) xs | _ \<Rightarrow> False)"

definition object_of :: "(string \<times> schema) list \<Rightarrow> schema" where
  "object_of fields j \<longleftrightarrow> (case j of Some (JObj kvs) \<Rightarrow> list_all (\<lambda>(k, s). s (json_prop k kvs)) fields | _ \<Rightarrow> False)"

text \<open>The whole number that a mantissa and a power of ten denote, if it is one.\<close>

definition whole :: "int \<Rightarrow> int \<Rightarrow> int option" where
  "whole m e =
     (if 0 \<le> e then Some (m * 10 ^ nat e)
      else if m mod 10 ^ nat (- e) = 0 then Some (m div 10 ^ nat (- e)) else None)"

definition int_where :: "(int \<Rightarrow> bool) \<Rightarrow> schema" where
  "int_where p j \<longleftrightarrow> (case j of Some (JNum m e) \<Rightarrow> (case whole m e of Some n \<Rightarrow> p n | None \<Rightarrow> False) | _ \<Rightarrow> False)"

definition number_between :: "rat \<Rightarrow> rat \<Rightarrow> schema" where
  "number_between lo hi j \<longleftrightarrow>
     (case j of
        Some (JNum m e) \<Rightarrow>
          (let x = (if 0 \<le> e then of_int (m * 10 ^ nat e) else of_int m / 10 ^ nat (- e)) in lo \<le> x \<and> x \<le> hi)
      | _ \<Rightarrow> False)"

text \<open>The field of an object, and a path of fields.\<close>

definition field :: "string \<Rightarrow> json option \<Rightarrow> json option" where
  "field k j = (case j of Some (JObj kvs) \<Rightarrow> json_prop k kvs | _ \<Rightarrow> None)"

definition text_at :: "string \<Rightarrow> json option \<Rightarrow> string option" where
  "text_at k j = (case field k j of Some (JStr t) \<Rightarrow> Some t | _ \<Rightarrow> None)"

section \<open>Identities\<close>

text \<open>\<open>/^[^@\s]+@[^@\s]+$/\<close> and \<open>/^[^@\s]+@g\.us$/\<close>.\<close>

definition jid_part :: "string \<Rightarrow> bool" where
  "jid_part s \<longleftrightarrow> s \<noteq> [] \<and> list_all (\<lambda>c. c \<noteq> CHR ''@'' \<and> \<not> is_ws c) s"

definition is_jid :: "string \<Rightarrow> bool" where
  "is_jid s \<longleftrightarrow> jid_part (before_char (CHR ''@'') s) \<and> jid_part (drop 1 (from_char (CHR ''@'') s))"

definition is_group_id :: "string \<Rightarrow> bool" where
  "is_group_id s \<longleftrightarrow> jid_part (before_char (CHR ''@'') s) \<and> from_char (CHR ''@'') s = ''@g.us''"

definition Jid_schema :: schema where "Jid_schema = text_of is_jid"
definition GroupId :: schema where "GroupId = text_of is_group_id"
definition OwnUser :: schema where "OwnUser = object_of [(''id'', Jid_schema), (''lid'', optional Jid_schema)]"
definition Participant :: schema where
  "Participant = object_of [(''id'', Jid_schema), (''lid'', optional Jid_schema), (''phoneNumber'', optional Jid_schema)]"

definition actions :: "string list" where
  "actions = [''add'', ''remove'', ''promote'', ''demote'', ''modify'']"

definition ParticipantUpdate :: schema where
  "ParticipantUpdate = object_of [(''id'', GroupId), (''author'', nullish Jid_schema), (''participants'', array_of Participant),
     (''action'', text_of (\<lambda>t. t \<in> set actions))]"

definition GroupUpserts :: schema where
  "GroupUpserts = array_of (object_of [(''id'', GroupId), (''participants'', array_of Participant)])"

definition MentionContext :: schema where
  "MentionContext = object_of [(''mentionedJid'', nullish (array_of Jid_schema))]"

text \<open>The device of a jid is dropped, its domain kept.\<close>

fun bareJid :: "string \<Rightarrow> string" where
  "bareJid [] = []"
| "bareJid (c # s) =
     (if c = CHR '':'' \<and> takeWhile is_digit s \<noteq> [] \<and> starts_with ''@'' (dropWhile is_digit s)
      then dropWhile is_digit s else c # bareJid s)"

definition texts_in :: "json option \<Rightarrow> string list" where
  "texts_in j = (case j of Some (JArr xs) \<Rightarrow> List.map_filter (\<lambda>x. case x of JStr t \<Rightarrow> Some t | _ \<Rightarrow> None) xs | _ \<Rightarrow> [])"

definition named_jids :: "string list \<Rightarrow> json option \<Rightarrow> string list" where
  "named_jids ks j = map bareJid (filter (\<lambda>t. t \<noteq> []) (List.map_filter (\<lambda>k. text_at k j) ks))"

definition ownJids :: "json option \<Rightarrow> string list" where
  "ownJids user = (if OwnUser user then named_jids [''id'', ''lid''] user else [])"

definition mentions :: "string list \<Rightarrow> json \<Rightarrow> bool" where
  "mentions own value \<longleftrightarrow>
     (case field ''contextInfo'' (Some value) of
        None \<Rightarrow> False
      | Some ctx \<Rightarrow> MentionContext (Some ctx) \<and> list_ex (\<lambda>t. bareJid t \<in> set own) (texts_in (field ''mentionedJid'' (Some ctx))))"

text \<open>The normalized content is the library's.\<close>

definition mentionsSelf :: "bool \<Rightarrow> json option \<Rightarrow> json option \<Rightarrow> bool" where
  "mentionsSelf fromMe content user \<longleftrightarrow>
     \<not> fromMe \<and> (case content of Some (JObj kvs) \<Rightarrow> list_ex (\<lambda>(k, value). mentions (ownJids user) value) kvs | _ \<Rightarrow> False)"

definition is_own :: "string list \<Rightarrow> json \<Rightarrow> bool" where
  "is_own own p \<longleftrightarrow> list_ex (\<lambda>t. t \<in> set own) (named_jids [''id'', ''lid'', ''phoneNumber''] (Some p))"

definition elements :: "json option \<Rightarrow> json list" where
  "elements j = (case j of Some (JArr xs) \<Rightarrow> xs | _ \<Rightarrow> [])"

datatype membership_action = AddSelf | RemoveSelf

text \<open>\<open>None\<close>: the payload is refused, which throws; \<open>Some None\<close>: not about the gateway.\<close>

definition selfParticipantUpdate :: "json option \<Rightarrow> json option \<Rightarrow> (string \<times> membership_action \<times> string option) option option" where
  "selfParticipantUpdate payload user =
     (if \<not> ParticipantUpdate payload then None
      else
        (let action = text_at ''action'' payload;
             author = (case text_at ''author'' payload of None \<Rightarrow> None | Some t \<Rightarrow> if t = [] then None else Some (bareJid t))
         in case (action, text_at ''id'' payload) of
              (Some a, Some g) \<Rightarrow>
                Some (if a \<noteq> ''add'' \<and> a \<noteq> ''remove'' then None
                  else if \<not> list_ex (is_own (ownJids user)) (elements (field ''participants'' payload)) then None
                  else Some (g, if a = ''add'' then AddSelf else RemoveSelf, author))
            | _ \<Rightarrow> None))"

definition selfGroupUpserts :: "json option \<Rightarrow> json option \<Rightarrow> string list option" where
  "selfGroupUpserts payload user =
     (if \<not> GroupUpserts payload then None
      else Some (List.map_filter (\<lambda>g. if list_ex (is_own (ownJids user)) (elements (field ''participants'' (Some g)))
          then text_at ''id'' (Some g) else None) (elements payload)))"

section \<open>History\<close>

definition entry_with_id :: schema where
  "entry_with_id = object_of [(''id'', Jid_schema)]"

text \<open>The members of the library's enumeration of kinds of history are the parameter \<open>kinds\<close>.\<close>

definition HistoryBatch :: "int list \<Rightarrow> schema" where
  "HistoryBatch kinds = object_of
     [(''chats'', array_of entry_with_id), (''contacts'', array_of entry_with_id), (''messages'', array_of (\<lambda>j. True)),
      (''isLatest'', optional any_bool), (''progress'', nullish (number_between 0 100)),
      (''syncType'', nullish (int_where (\<lambda>n. n \<in> set kinds))), (''chunkOrder'', nullish (int_where (\<lambda>n. 0 \<le> n))),
      (''peerDataRequestSessionId'', nullish any_text)]"

definition SAFE_INT :: int where "SAFE_INT = 9007199254740991"

definition HistoryTimestamp :: schema where
  "HistoryTimestamp j \<longleftrightarrow> int_where (\<lambda>n. 0 \<le> n \<and> n \<le> SAFE_INT) j
     \<or> object_of [(''low'', int_where (\<lambda>n. True)), (''high'', int_where (\<lambda>n. True)), (''unsigned'', any_bool)] j"

definition is_bytes :: schema where
  "is_bytes j \<longleftrightarrow> field ''type'' j = Some (JStr ''Buffer'')"

definition HistoryContentNode :: schema where
  "HistoryContentNode = object_of
     [(''text'', nullish any_text), (''caption'', nullish any_text), (''mimetype'', nullish any_text), (''fileName'', nullish any_text),
      (''ptt'', nullish any_bool),
      (''fileLength'', nullish (\<lambda>j. HistoryTimestamp j \<or> text_of (\<lambda>t. t \<noteq> [] \<and> list_all is_digit t) j)),
      (''url'', nullish any_text), (''directPath'', nullish any_text), (''mediaKey'', nullish is_bytes),
      (''contextInfo'', nullish MentionContext)]"

definition content_nodes :: "string list" where
  "content_nodes = [''extendedTextMessage'', ''imageMessage'', ''videoMessage'', ''audioMessage'', ''documentMessage'', ''stickerMessage'']"

definition content_wrappers :: "string list" where
  "content_wrappers = [''ephemeralMessage'', ''viewOnceMessage'', ''viewOnceMessageV2'', ''viewOnceMessageV2Extension'', ''documentWithCaptionMessage'']"

lemma prop_size: "json_prop k kvs = Some j \<Longrightarrow> size j < size (JObj kvs)"
proof -
  assume "json_prop k kvs = Some j"
  then have "(k, j) \<in> set kvs" by (auto simp: json_prop_def dest: map_of_SomeD)
  then have "size_prod (\<lambda>x. 0) size (k, j) \<le> size_list (size_prod (\<lambda>x. 0) size) kvs"
    by (rule size_list_estimation') simp
  then show ?thesis by simp
qed

function HistoryContent :: "json \<Rightarrow> bool" where
  "HistoryContent (JObj kvs) =
     (nullish any_text (json_prop ''conversation'' kvs)
      \<and> list_all (\<lambda>k. nullish HistoryContentNode (json_prop k kvs)) content_nodes
      \<and> list_all (\<lambda>k. case json_prop k kvs of
            None \<Rightarrow> True
          | Some (JObj ws) \<Rightarrow> (case json_prop ''message'' ws of None \<Rightarrow> True | Some m \<Rightarrow> m = JNull \<or> HistoryContent m)
          | Some j \<Rightarrow> j = JNull) content_wrappers)"
| "HistoryContent JNull = False"
| "HistoryContent (JBool b) = False"
| "HistoryContent (JNum m e) = False"
| "HistoryContent (JStr s) = False"
| "HistoryContent (JArr xs) = False"
  by pat_completeness auto
termination
  by (relation "measure size") (auto dest!: prop_size)

definition HistoryEnvelope :: schema where
  "HistoryEnvelope = object_of
     [(''key'', object_of [(''remoteJid'', GroupId), (''id'', text_of (\<lambda>t. t \<noteq> [])), (''participant'', nullish Jid_schema),
         (''participantAlt'', nullish Jid_schema), (''remoteJidAlt'', nullish Jid_schema), (''fromMe'', nullish any_bool)]),
      (''messageTimestamp'', HistoryTimestamp),
      (''message'', nullish (\<lambda>j. case j of Some m \<Rightarrow> HistoryContent m | None \<Rightarrow> False)),
      (''pushName'', nullish any_text)]"

text \<open>\<open>Number(timestamp)\<close> of a number or of a \<open>Long\<close>.\<close>

definition half :: "string \<Rightarrow> json option \<Rightarrow> int" where
  "half k j = (case field k j of Some (JNum m e) \<Rightarrow> (case whole m e of Some n \<Rightarrow> n | None \<Rightarrow> 0) | _ \<Rightarrow> 0)"

definition seconds_of :: "json option \<Rightarrow> int" where
  "seconds_of j =
     (case j of
        Some (JNum m e) \<Rightarrow> (case whole m e of Some n \<Rightarrow> n | None \<Rightarrow> 0)
      | _ \<Rightarrow>
          (let v = (half ''high'' j mod 2 ^ 32) * 2 ^ 32 + half ''low'' j mod 2 ^ 32 in
           if field ''unsigned'' j = Some (JBool True) \<or> v < 2 ^ 63 then v else v - 2 ^ 64))"

definition parseHistoryMessage :: "json \<Rightarrow> json option" where
  "parseHistoryMessage value =
     (if \<not> HistoryEnvelope (Some value) then None
      else
        (let s = seconds_of (field ''messageTimestamp'' (Some value)) in
         if SAFE_INT < s * 1000 \<or> s < 0 then None else Some value))"

end
