(* ===== verification/Media.thy ===== *)
theory Media
  imports GroupEvents Blocks AskFiles MessageStore
begin

text \<open>
  Media of a message (\<open>src/whatsapp/media.ts\<close>): its kind, its name, its declared size, the repair of
  its address, and the bounded download. A message is given by its normalized content, a JSON value.
  The stream that the library opens is a list of chunks and the error that ends it, if one does;
  the URL parser is the platform's.
\<close>

section \<open>Content\<close>

definition MEDIA_TYPES :: "string list" where
  "MEDIA_TYPES = [''imageMessage'', ''videoMessage'', ''audioMessage'', ''documentMessage'', ''stickerMessage'']"

definition MESSAGE_TYPES :: "(string \<times> string) list" where
  "MESSAGE_TYPES = [(''imageMessage'', ''image''), (''videoMessage'', ''video''), (''audioMessage'', ''audio''),
     (''documentMessage'', ''document''), (''stickerMessage'', ''sticker''), (''contactMessage'', ''contact''),
     (''contactsArrayMessage'', ''contact''), (''locationMessage'', ''location''), (''liveLocationMessage'', ''location'')]"

definition has_field :: "json option \<Rightarrow> string \<Rightarrow> bool" where
  "has_field content k \<longleftrightarrow> (case field k content of None \<Rightarrow> False | Some j \<Rightarrow> truthy j)"

definition hasMedia :: "json option \<Rightarrow> bool" where
  "hasMedia content \<longleftrightarrow> list_ex (has_field content) MEDIA_TYPES"

definition classifyMessage :: "json option \<Rightarrow> string" where
  "classifyMessage content =
     (case find (\<lambda>(k, t). has_field content k) MESSAGE_TYPES of
        Some (k, t) \<Rightarrow> t
      | None \<Rightarrow> if has_field content ''conversation'' \<or> has_field content ''extendedTextMessage'' then ''text'' else ''unknown'')"

definition mediaMime :: "json option \<Rightarrow> string option" where
  "mediaMime content =
     (case find (\<lambda>k. has_field (field k content) ''mimetype'') MEDIA_TYPES of
        None \<Rightarrow> None | Some k \<Rightarrow> text_at ''mimetype'' (field k content))"

definition name_safe :: "char \<Rightarrow> char" where
  "name_safe c = (let n = of_char c :: nat in if n < 32 \<or> n = 127 then CHR ''_'' else c)"

text \<open>The last piece of a path.\<close>

definition path_end :: "string \<Rightarrow> string" where
  "path_end s = rev (takeWhile (\<lambda>c. c \<noteq> CHR ''/'' \<and> c \<noteq> CHR 92) (rev s))"

definition documentFileName :: "json option \<Rightarrow> string option" where
  "documentFileName content =
     (case filled (text_at ''fileName'' (field ''documentMessage'' content)) of
        None \<Rightarrow> None
      | Some t \<Rightarrow>
          (let name = take 255 (trim (map name_safe (path_end t))) in
           if name \<noteq> [] \<and> name \<noteq> ''.'' \<and> name \<noteq> ''..'' then Some name else None))"

section \<open>Numbers in texts\<close>

text \<open>\<open>Number(text)\<close> where it is finite.\<close>

definition based_digit :: "nat \<Rightarrow> char \<Rightarrow> bool" where
  "based_digit b c \<longleftrightarrow> (case hex_val c of None \<Rightarrow> False | Some d \<Rightarrow> d < b)"

definition based_number :: "nat \<Rightarrow> string \<Rightarrow> rat option" where
  "based_number b ds =
     (if ds \<noteq> [] \<and> list_all (based_digit b) ds
      then Some (of_nat (foldl (\<lambda>n c. b * n + (case hex_val c of None \<Rightarrow> 0 | Some d \<Rightarrow> d)) 0 ds)) else None)"

definition power_of_ten :: "string \<Rightarrow> rat option" where
  "power_of_ten s =
     (if s = [] then Some 1
      else if hd s \<noteq> CHR ''e'' \<and> hd s \<noteq> CHR ''E'' then None
      else
        (let neg = starts_with ''-'' (tl s); ds = (if neg \<or> starts_with ''+'' (tl s) then drop 2 s else tl s) in
         if ds = [] \<or> \<not> list_all is_digit ds then None
         else Some (if neg then 1 / 10 ^ read_nat ds else 10 ^ read_nat ds)))"

definition decimal_number :: "string \<Rightarrow> rat option" where
  "decimal_number s =
     (let whole_part = takeWhile is_digit s; r = dropWhile is_digit s;
          frac = (if starts_with ''.'' r then takeWhile is_digit (tl r) else []);
          e = (if starts_with ''.'' r then dropWhile is_digit (tl r) else r)
      in if whole_part = [] \<and> frac = [] then None
         else map_option (\<lambda>p. (of_nat (read_nat whole_part) + of_nat (read_nat frac) / 10 ^ length frac) * p) (power_of_ten e))"

definition js_number :: "string \<Rightarrow> rat option" where
  "js_number s =
     (let t = trim s in
      if t = [] then Some 0
      else if starts_with ''0x'' t \<or> starts_with ''0X'' t then based_number 16 (drop 2 t)
      else if starts_with ''0o'' t \<or> starts_with ''0O'' t then based_number 8 (drop 2 t)
      else if starts_with ''0b'' t \<or> starts_with ''0B'' t then based_number 2 (drop 2 t)
      else if starts_with ''-'' t then map_option uminus (decimal_number (tl t))
      else if starts_with ''+'' t then decimal_number (tl t)
      else decimal_number t)"

section \<open>Declared size\<close>

definition json_rat :: "int \<Rightarrow> int \<Rightarrow> rat" where
  "json_rat m e = (if 0 \<le> e then of_int (m * 10 ^ nat e) else of_int m / 10 ^ nat (- e))"

fun is_long :: "json \<Rightarrow> bool" where
  "is_long (JObj kvs) = (json_prop ''low'' kvs \<noteq> None \<and> json_prop ''high'' kvs \<noteq> None)"
| "is_long j = False"

text \<open>The first length that is a number, a text or a \<open>Long\<close> decides.\<close>

fun declared_length :: "json option list \<Rightarrow> rat option" where
  "declared_length [] = None"
| "declared_length (j # js) =
     (case j of
        Some (JNum m e) \<Rightarrow> Some (json_rat m e)
      | Some (JStr t) \<Rightarrow> js_number t
      | Some (JObj kvs) \<Rightarrow> if is_long (JObj kvs) then Some (of_int (seconds_of (Some (JObj kvs)))) else declared_length js
      | _ \<Rightarrow> declared_length js)"

definition mediaFileLength :: "json option \<Rightarrow> rat option" where
  "mediaFileLength content = declared_length (map (\<lambda>k. field ''fileLength'' (field k content)) MEDIA_TYPES)"

section \<open>Addresses\<close>

record media_url =
  mu_host :: string
  mu_pathname :: string
  mu_search :: string

text \<open>\<open>node[k] = text\<close>.\<close>

fun set_field :: "string \<Rightarrow> string \<Rightarrow> (string \<times> json) list \<Rightarrow> (string \<times> json) list" where
  "set_field k t [] = [(k, JStr t)]"
| "set_field k t ((k', v) # kvs) = (if k' = k then (k, JStr t) # filter (\<lambda>x. fst x \<noteq> k) kvs else (k', v) # set_field k t kvs)"

definition is_media_host :: "string \<Rightarrow> bool" where
  "is_media_host h \<longleftrightarrow> (let l = lowercase h in
     l = ''mmg.whatsapp.net'' \<or> l = ''media.whatsapp.net''
     \<or> (ends_with ''.cdn.whatsapp.net'' l \<and> length ''.cdn.whatsapp.net'' < length l \<and> \<not> list_ex is_eol (take (length h - length ''.cdn.whatsapp.net'') h)))"

definition repairMediaNode :: "(string \<Rightarrow> media_url option) \<Rightarrow> (string \<times> json) list \<Rightarrow> (string \<times> json) list" where
  "repairMediaNode parse kvs =
     (let directPath = (case text_at ''directPath'' (Some (JObj kvs)) of None \<Rightarrow> [] | Some t \<Rightarrow> t);
          rawUrl = (case text_at ''url'' (Some (JObj kvs)) of None \<Rightarrow> [] | Some t \<Rightarrow> t);
          repaired = (if starts_with ''/'' directPath then set_field ''url'' (''https://mmg.whatsapp.net'' @ directPath) kvs else kvs)
      in case (if starts_with ''https://'' rawUrl then parse rawUrl else None) of
           None \<Rightarrow> repaired
         | Some u \<Rightarrow>
             if is_media_host (mu_host u) \<and> 1 < length (mu_pathname u)
             then set_field ''directPath'' (mu_pathname u @ mu_search u) kvs else repaired)"

definition repairWhatsAppMediaMessage :: "(string \<Rightarrow> media_url option) \<Rightarrow> json option \<Rightarrow> json option" where
  "repairWhatsAppMediaMessage parse content =
     (case content of
        Some (JObj kvs) \<Rightarrow>
          Some (JObj (map (\<lambda>(k, v). (k, case v of
              JObj node \<Rightarrow> if k \<in> set MEDIA_TYPES then JObj (repairMediaNode parse node) else v
            | _ \<Rightarrow> v)) kvs))
      | j \<Rightarrow> j)"

section \<open>Download\<close>

record media_stream =
  sm_chunks :: "bytes list"
  sm_error :: "string option"

text \<open>The chunks so far, in order; none once they exceed the limit.\<close>

fun read_chunks :: "nat \<Rightarrow> bytes \<Rightarrow> bytes list \<Rightarrow> bytes option" where
  "read_chunks maxBytes got [] = Some got"
| "read_chunks maxBytes got (c # cs) =
     (if maxBytes < length got + length c then None else read_chunks maxBytes (got @ c) cs)"

definition gone_reason :: rx where
  "gone_reason = either [lit ''410'', lit_i ''expired'', sq [lit_i ''not'', star dot, lit_i ''found''], lit_i ''no longer'']"

definition download ::
    "(string \<Rightarrow> media_url option) \<Rightarrow> (json option \<Rightarrow> media_stream) \<Rightarrow> nat \<Rightarrow> json option \<Rightarrow> media_status \<times> media option" where
  "download parse open_stream maxBytes content =
     (if \<not> hasMedia content then (MsNone, None)
      else
        (let repaired = repairWhatsAppMediaMessage parse content;
             declared = mediaFileLength repaired
         in if (case declared of None \<Rightarrow> False | Some n \<Rightarrow> of_nat maxBytes < n) then (MsTooLarge, None)
            else
              (let st = open_stream repaired in
               case read_chunks maxBytes [] (sm_chunks st) of
                 None \<Rightarrow> (MsTooLarge, None)
               | Some bs \<Rightarrow>
                   (case sm_error st of
                      Some e \<Rightarrow> (if test gone_reason e then MsExpired else MsFailed, None)
                    | None \<Rightarrow>
                        (MsReady, Some \<lparr>md_bytes = bs, md_mime = mediaMime repaired, md_size = length bs,
                           md_file = documentFileName repaired\<rparr>)))))"

section \<open>Properties\<close>

lemma read_chunks_result: "read_chunks m got cs = Some bs \<Longrightarrow> length got \<le> m \<Longrightarrow> bs = got @ concat cs \<and> length bs \<le> m"
proof (induction cs arbitrary: got)
  case (Cons c cs)
  have "read_chunks m (got @ c) cs = Some bs" "length (got @ c) \<le> m" using Cons.prems by (auto split: if_splits)
  from Cons.IH [OF this] show ?case by auto
qed simp

lemma name_safe_ok: "\<not> (of_char (name_safe c) < (32 :: nat))" "name_safe c = CHR ''/'' \<longleftrightarrow> c = CHR ''/''" "name_safe c = CHR 92 \<longleftrightarrow> c = CHR 92"
  by (auto simp: name_safe_def Let_def)

definition plain_name_char :: "char \<Rightarrow> bool" where
  "plain_name_char c \<longleftrightarrow> 32 \<le> (of_char c :: nat) \<and> c \<noteq> CHR ''/'' \<and> c \<noteq> CHR 92"

lemma path_end_chars: "list_all (\<lambda>c. c \<noteq> CHR ''/'' \<and> c \<noteq> CHR 92) (path_end s)"
  by (auto simp: path_end_def list_all_iff dest: set_takeWhileD)

lemma document_name: "documentFileName content = Some name \<Longrightarrow> list_all plain_name_char name \<and> 0 < length name \<and> length name \<le> 255"
proof -
  have "list_all plain_name_char (map name_safe (path_end t))" for t
    using path_end_chars [of t] by (auto simp: list_all_iff plain_name_char_def name_safe_ok not_less [symmetric])
  then have "list_all plain_name_char (take 255 (trim (map name_safe (path_end t))))" for t
    using set_trim [of "map name_safe (path_end t)"] by (auto simp: list_all_iff dest: in_set_takeD)
  then show "documentFileName content = Some name \<Longrightarrow> list_all plain_name_char name \<and> 0 < length name \<and> length name \<le> 255"
    by (auto simp: documentFileName_def Let_def split: option.splits if_splits)
qed


end
