(* ===== verification/GroupMeta.thy ===== *)
theory GroupMeta
  imports GroupEvents
begin

text \<open>
  The cache of group metadata (\<open>src/whatsapp/groupMeta.ts\<close>): a row for each group, the groups that were
  left, and a version for each group that an invalidation advances. Fetching is split at its
  \<open>await\<close>: \<open>begin_fetch\<close> answers from the cache or leaves a ticket, \<open>finish_fetch\<close> takes the ticket and
  what the library answered, whatever happened in between. Participants and raw metadata are stored
  as JSON text, which \<open>json_roundtrip\<close> reads back.
\<close>

section \<open>State\<close>

record group_participant =
  gp_jid :: string
  gp_phone :: "string option"
  gp_admin :: bool

record group_row =
  gm_conn :: string
  gm_group :: string
  gm_subject :: "string option"
  gm_participants :: "group_participant list"
  gm_raw :: json
  gm_updated :: time

type_synonym group_key = "string \<times> string"

record meta_store =
  mt_rows :: "group_row list"
  mt_removed :: "group_key \<Rightarrow> bool"
  mt_versions :: "group_key \<Rightarrow> nat"

definition gm_key :: "group_row \<Rightarrow> group_key" where
  "gm_key r = (gm_conn r, gm_group r)"

section \<open>Operations\<close>

definition MetadataSchema :: schema where
  "MetadataSchema = object_of
     [(''id'', GroupId), (''subject'', nullish any_text),
      (''participants'', array_of (object_of [(''id'', Jid_schema), (''phoneNumber'', nullish any_text), (''admin'', nullish any_text)]))]"

definition toParticipants :: "json \<Rightarrow> group_participant list" where
  "toParticipants meta =
     map (\<lambda>p. let i = (case text_at ''id'' (Some p) of Some t \<Rightarrow> t | None \<Rightarrow> []) in
        \<lparr>gp_jid = i, gp_phone = phoneE164FromJid (case text_at ''phoneNumber'' (Some p) of Some t \<Rightarrow> t | None \<Rightarrow> i),
         gp_admin = (text_at ''admin'' (Some p) = Some ''admin'' \<or> text_at ''admin'' (Some p) = Some ''superadmin'')\<rparr>)
       (elements (field ''participants'' (Some meta)))"

definition drop_row :: "group_key \<Rightarrow> group_row list \<Rightarrow> group_row list" where
  "drop_row k rows = filter (\<lambda>r. gm_key r \<noteq> k) rows"

definition group_key_ok :: "group_key \<Rightarrow> bool" where
  "group_key_ok k \<longleftrightarrow> fst k \<noteq> [] \<and> snd k \<noteq> []"

definition invalidateGroup :: "group_key \<Rightarrow> meta_store \<Rightarrow> db_error + meta_store" where
  "invalidateGroup k s =
     (if \<not> group_key_ok k then Inl InvalidInput
      else Inr (s\<lparr>mt_versions := (mt_versions s)(k := mt_versions s k + 1), mt_rows := drop_row k (mt_rows s)\<rparr>))"

definition removeGroup :: "group_key \<Rightarrow> meta_store \<Rightarrow> db_error + meta_store" where
  "removeGroup k s =
     (if \<not> group_key_ok k then Inl InvalidInput else invalidateGroup k (s\<lparr>mt_removed := (mt_removed s)(k := True)\<rparr>))"

definition allowFetch :: "group_key \<Rightarrow> meta_store \<Rightarrow> meta_store" where
  "allowFetch k s = s\<lparr>mt_removed := (mt_removed s)(k := False)\<rparr>"

text \<open>A removed group is looked for before the metadata is validated.\<close>

definition upsertGroup :: "time \<Rightarrow> string \<Rightarrow> json \<Rightarrow> meta_store \<Rightarrow> db_error + meta_store" where
  "upsertGroup now conn meta s =
     (let g = (case text_at ''id'' (Some meta) of Some t \<Rightarrow> t | None \<Rightarrow> []) in
      if mt_removed s (conn, g) then Inr s
      else if \<not> MetadataSchema (Some meta) then Inl InvalidInput
      else
        (let r = \<lparr>gm_conn = conn, gm_group = g, gm_subject = text_at ''subject'' (Some meta), gm_participants = toParticipants meta,
               gm_raw = meta, gm_updated = now\<rparr>
         in Inr (s\<lparr>mt_rows := sql_upsert gm_key r
              (\<lambda>old. old\<lparr>gm_subject := gm_subject r, gm_participants := gm_participants r, gm_raw := meta, gm_updated := now\<rparr>) (mt_rows s)\<rparr>)))"

definition readGroup :: "group_key \<Rightarrow> meta_store \<Rightarrow> group_row option" where
  "readGroup k s = sql_get (\<lambda>r. gm_key r = k) (mt_rows s)"

definition applyPartialUpdate :: "time \<Rightarrow> group_key \<Rightarrow> string option \<Rightarrow> meta_store \<Rightarrow> meta_store" where
  "applyPartialUpdate now k subject s =
     (case (readGroup k s, subject) of
        (Some r, Some t) \<Rightarrow>
          s\<lparr>mt_rows := sql_update (\<lambda>r. gm_key r = k) (\<lambda>r. r\<lparr>gm_subject := Some t, gm_updated := now\<rparr>) (mt_rows s)\<rparr>
      | _ \<Rightarrow> s)"

definition isStale :: "nat \<Rightarrow> time \<Rightarrow> time \<Rightarrow> bool" where
  "isStale ttl now updated \<longleftrightarrow> updated + ttl < now"

record fetch_ticket =
  ft_key :: group_key
  ft_version :: nat
  ft_cached :: "group_row option"

datatype fetch_start = Cached "group_row option" | Fetching fetch_ticket

definition begin_fetch :: "nat \<Rightarrow> time \<Rightarrow> group_key \<Rightarrow> meta_store \<Rightarrow> fetch_start" where
  "begin_fetch ttl now k s =
     (if mt_removed s k then Cached None
      else
        (case readGroup k s of
           Some r \<Rightarrow>
             if \<not> isStale ttl now (gm_updated r) then Cached (Some r)
             else Fetching \<lparr>ft_key = k, ft_version = mt_versions s k, ft_cached = Some r\<rparr>
         | None \<Rightarrow> Fetching \<lparr>ft_key = k, ft_version = mt_versions s k, ft_cached = None\<rparr>))"

text \<open>The library's answer, or none where it throws.\<close>

definition finish_fetch :: "time \<Rightarrow> fetch_ticket \<Rightarrow> json option \<Rightarrow> meta_store \<Rightarrow> meta_store \<times> group_row option" where
  "finish_fetch now t fresh s =
     (case fresh of
        None \<Rightarrow> (s, ft_cached t)
      | Some meta \<Rightarrow>
          if ft_version t \<noteq> mt_versions s (ft_key t) then (s, None)
          else
            (case upsertGroup now (fst (ft_key t)) meta s of
               Inl e \<Rightarrow> (s, ft_cached t)
             | Inr s' \<Rightarrow> (s', readGroup (ft_key t) s')))"

text \<open>A missing raw text reads as no metadata.\<close>

definition cachedGroupMetadata :: "nat \<Rightarrow> time \<Rightarrow> group_key \<Rightarrow> meta_store \<Rightarrow> json option" where
  "cachedGroupMetadata ttl now k s =
     (case readGroup k s of
        None \<Rightarrow> None
      | Some r \<Rightarrow> if isStale ttl now (gm_updated r) then None else Some (gm_raw r))"

section \<open>Any order of operations\<close>

datatype meta_op =
    RemoveGroup group_key | InvalidateGroup group_key | AllowFetch group_key | PartialUpdate time group_key "string option"
  | FinishFetch time fetch_ticket "json option"

definition or_same :: "'s \<Rightarrow> 'e + 's \<Rightarrow> 's" where
  "or_same s r = (case r of Inl e \<Rightarrow> s | Inr s' \<Rightarrow> s')"

fun meta_step :: "meta_store \<Rightarrow> meta_op \<Rightarrow> meta_store" where
  "meta_step s (RemoveGroup k) = or_same s (removeGroup k s)"
| "meta_step s (InvalidateGroup k) = or_same s (invalidateGroup k s)"
| "meta_step s (AllowFetch k) = allowFetch k s"
| "meta_step s (PartialUpdate now k t) = applyPartialUpdate now k t s"
| "meta_step s (FinishFetch now t fresh) = fst (finish_fetch now t fresh s)"

definition meta_ok :: "meta_store \<Rightarrow> bool" where
  "meta_ok s \<longleftrightarrow> list_all (\<lambda>r. \<not> mt_removed s (gm_key r) \<and> is_group_id (gm_group r)) (mt_rows s) \<and> unique_key gm_key (mt_rows s)"

lemma dropped: "r \<in> set (drop_row k rows) \<longleftrightarrow> r \<in> set rows \<and> gm_key r \<noteq> k"
  by (auto simp: drop_row_def)

lemma drop_unique: "unique_key gm_key rows \<Longrightarrow> unique_key gm_key (drop_row k rows)"
  by (simp add: unique_key_def drop_row_def distinct_map_filter)

lemma upserted_rows: "r \<in> set (sql_upsert key new merge rows) \<Longrightarrow> r = new \<or> r \<in> set rows \<or> (\<exists>old \<in> set rows. r = merge old)"
  by (auto simp: sql_upsert_def sql_update_def split: if_splits)

lemma upsert_ok: "meta_ok s \<Longrightarrow> upsertGroup now c meta s = Inr s' \<Longrightarrow> meta_ok s'"
proof -
  assume ok: "meta_ok s" and u: "upsertGroup now c meta s = Inr s'"
  show "meta_ok s'"
  proof (cases "mt_removed s (c, case text_at ''id'' (Some meta) of Some t \<Rightarrow> t | None \<Rightarrow> [])")
    case True
    then show ?thesis using ok u by (simp add: upsertGroup_def)
  next
    case False
    then have g: "GroupId (field ''id'' (Some meta))"
      using u by (cases meta) (auto simp: upsertGroup_def Let_def MetadataSchema_def object_of_def field_def split: if_splits)
    then obtain t where t: "text_at ''id'' (Some meta) = Some t" "is_group_id t"
      by (auto simp: GroupId_def text_of_def text_at_def split: option.splits json.splits)
    with False ok u show ?thesis
      by (auto simp: upsertGroup_def Let_def meta_ok_def list_all_iff gm_key_def dest!: upserted_rows split: if_splits
          intro!: unique_key_upsert)
  qed
qed

lemma meta_step_ok: "meta_ok s \<Longrightarrow> meta_ok (meta_step s e)"
proof (cases e)
  case (FinishFetch now t fresh)
  assume "meta_ok s"
  with FinishFetch show ?thesis by (auto simp: finish_fetch_def upsert_ok split: option.split sum.split)
qed (auto simp: meta_ok_def or_same_def removeGroup_def invalidateGroup_def allowFetch_def applyPartialUpdate_def list_all_iff dropped
      drop_unique set_sql_update gm_key_def split: option.split intro!: unique_key_update)

interpretation metadata: machine meta_step meta_ok
  by unfold_locales (rule meta_step_ok)

definition empty_store :: meta_store where
  "empty_store = \<lparr>mt_rows = [], mt_removed = (\<lambda>k. False), mt_versions = (\<lambda>k. 0)\<rparr>"


section \<open>Late answers\<close>

fun invalidates :: "group_key \<Rightarrow> meta_op \<Rightarrow> bool" where
  "invalidates k (RemoveGroup j) = (j = k \<and> group_key_ok k)"
| "invalidates k (InvalidateGroup j) = (j = k \<and> group_key_ok k)"
| "invalidates k e = False"

lemma upsert_versions: "upsertGroup now c meta s = Inr s' \<Longrightarrow> mt_versions s' = mt_versions s"
  by (auto simp: upsertGroup_def Let_def split: if_splits)

lemma version_step: "mt_versions s k + (if invalidates k e then 1 else 0) \<le> mt_versions (meta_step s e) k"
  by (cases e) (auto simp: or_same_def removeGroup_def invalidateGroup_def allowFetch_def applyPartialUpdate_def finish_fetch_def
      upsert_versions split: option.split sum.split)

lemma version_run: "mt_versions s k + length (filter (invalidates k) es) \<le> mt_versions (foldl meta_step s es) k"
proof (induction es arbitrary: s)
  case (Cons e es)
  show ?case using version_step [of s k e] Cons.IH [of "meta_step s e"] by (cases "invalidates k e") simp_all
qed simp

text \<open>An answer that was asked for before its group was left or its members changed is not stored and not used.\<close>

theorem late_answer_is_discarded:
  assumes "begin_fetch ttl now k s = Fetching t" and "list_ex (invalidates k) es"
  shows "finish_fetch now' t (Some meta) (foldl meta_step s es) = (foldl meta_step s es, None)"
proof -
  have "ft_version t = mt_versions s k" "ft_key t = k"
    using assms(1) by (auto simp: begin_fetch_def split: if_splits option.splits)
  moreover have "filter (invalidates k) es \<noteq> []" using assms(2) by (auto simp: list_ex_iff filter_empty_conv)
  then have "0 < length (filter (invalidates k) es)" by blast
  then have "mt_versions s k < mt_versions (foldl meta_step s es) k" using version_run [of s k es] by linarith
  ultimately show ?thesis by (simp add: finish_fetch_def)
qed

theorem late_answer_is_discarded_witness:
  "finish_fetch 9 \<lparr>ft_key = (''c'', ''1@g.us''), ft_version = 0, ft_cached = None\<rparr> (Some JNull)
      (foldl meta_step empty_store [RemoveGroup (''c'', ''1@g.us''), AllowFetch (''c'', ''1@g.us'')])
   = (foldl meta_step empty_store [RemoveGroup (''c'', ''1@g.us''), AllowFetch (''c'', ''1@g.us'')], None)"
  by (rule late_answer_is_discarded [of 5 8 "(''c'', ''1@g.us'')" empty_store])
    (simp_all add: begin_fetch_def empty_store_def readGroup_def group_key_ok_def)

end
