(* ===== verification/Intake.thy ===== *)
theory Intake
  imports Media GroupMeta Messages OutboundLog Credentials
begin

text \<open>
  What the WhatsApp connection does with what arrives (\<open>src/whatsapp/socket.ts\<close>): parsing a message,
  following its own membership of groups, holding live messages of a joined group until its history
  is replayed, capturing, downloading, and handing over to the router. Work is queued and runs one
  job at a time; at each \<open>await\<close> of a job other events may happen (\<open>ie_during\<close>). A message is a JSON
  value; the library's normalization of content, the streams and the state of its socket are
  parameters. A hook does not throw; what it is called with is \<open>ik_out\<close>.
\<close>

section \<open>State\<close>

record join_wait =
  jw_messages :: "json list"
  jw_user :: "json option"
  jw_epoch :: nat
  jw_fired :: bool

text \<open>A message is handed over with the epoch of its group when it arrived, and now.\<close>

datatype intake_effect =
    HandOver inbound nat nat
  | BurstTick inbound
  | HistoryNote string nat
  | SelfAdded string "string option"
  | SelfRemoved string "string option"

datatype intake_job =
    LiveJob string "json list" "json option" "string \<Rightarrow> nat"
  | HistoryJob json "json option" "string \<Rightarrow> nat"
  | ReleaseJob string nat

record intake =
  ik_present :: "string \<Rightarrow> bool"
  ik_epochs :: "string \<Rightarrow> nat"
  ik_pending :: "string list"
  ik_waits :: "string \<rightharpoonup> join_wait"
  ik_meta :: meta_store
  ik_store :: "stored list"
  ik_log :: "out_row list"
  ik_bursts :: "string \<rightharpoonup> time"
  ik_queue :: "intake_job list"
  ik_out :: "intake_effect list"
  ik_user :: "json option"
  ik_live :: bool
  ik_now :: time
  ik_awaits :: nat

datatype intake_event =
    ParticipantsChanged json
  | GroupsUpserted json
  | SessionCleared
  | LiveArrives string "json list"
  | HistoryArrives json
  | JoinTimer string
  | LogChange out_op
  | StoreChange store_op
  | MetaChange meta_op
  | SocketChange bool "json option"

record intake_env =
  ie_conn :: string
  ie_history :: bool
  ie_join_wait :: nat
  ie_debounce :: nat
  ie_media_burst :: nat
  ie_max_media :: nat
  ie_kinds :: "int list"
  ie_vault :: vault
  ie_normalize :: "json option \<Rightarrow> json option"
  ie_parse :: "string \<Rightarrow> media_url option"
  ie_stream :: "nat \<Rightarrow> json option \<Rightarrow> media_stream"
  ie_tick :: "nat \<Rightarrow> bool"
  ie_ticks :: "nat \<Rightarrow> nat"
  ie_during :: "nat \<Rightarrow> intake_event list"
  ie_pause :: "nat \<Rightarrow> nat"
  ie_iv :: "nat \<Rightarrow> bytes"

section \<open>Parsing\<close>

definition text_key :: "string \<Rightarrow> json \<Rightarrow> string option" where
  "text_key k m = text_at k (field ''key'' (Some m))"

definition sender_of :: "json \<Rightarrow> json option \<Rightarrow> string \<Rightarrow> bool \<Rightarrow> string" where
  "sender_of m user chat fromMe =
     (let other = (case text_key ''participant'' m of None \<Rightarrow> chat | Some p \<Rightarrow> p) in
      if fromMe then (case find (\<lambda>j. phoneE164FromJid j \<noteq> None) (ownJids user) of Some j \<Rightarrow> j | None \<Rightarrow> other)
      else if isGroupJid chat then other else chat)"

definition phone_of :: "json \<Rightarrow> string \<Rightarrow> string \<Rightarrow> bool \<Rightarrow> string option" where
  "phone_of m chat sender fromMe =
     (let alt = (if isGroupJid chat then text_key ''participantAlt'' m else text_key ''remoteJidAlt'' m);
          bearing = (case alt of None \<Rightarrow> sender | Some j \<Rightarrow> j)
      in if fromMe then phoneE164FromJid sender else first_of (phoneE164FromJid bearing) (phoneE164FromJid sender))"

text \<open>The first that is there, of the places a text may be in.\<close>

definition extractText :: "json option \<Rightarrow> string" where
  "extractText content =
     (case find (\<lambda>j. j \<noteq> None \<and> j \<noteq> Some JNull)
         [field ''conversation'' content, field ''text'' (field ''extendedTextMessage'' content), field ''caption'' (field ''imageMessage'' content),
          field ''caption'' (field ''videoMessage'' content), field ''caption'' (field ''documentMessage'' content)] of
        Some (Some (JStr t)) \<Rightarrow> t
      | _ \<Rightarrow> [])"

text \<open>The metadata that is validated: a name, and whether an audio is a voice note.\<close>

definition metadata_ok :: "json \<Rightarrow> json option \<Rightarrow> bool" where
  "metadata_ok m content \<longleftrightarrow> nullish any_text (field ''pushName'' (Some m))
     \<and> nullish (object_of [(''audioMessage'', nullish (object_of [(''ptt'', nullish any_bool)]))]) content"

definition timestamp_of :: "time \<Rightarrow> json \<Rightarrow> nat" where
  "timestamp_of now m =
     (let s = (case field ''messageTimestamp'' (Some m) of None \<Rightarrow> 0 | Some JNull \<Rightarrow> 0 | j \<Rightarrow> seconds_of j) in
      if s = 0 then now else nat (s * 1000))"

definition from_me :: "json \<Rightarrow> bool" where
  "from_me m \<longleftrightarrow> has_field (field ''key'' (Some m)) ''fromMe''"

definition parseMessage :: "intake_env \<Rightarrow> time \<Rightarrow> json \<Rightarrow> json option \<Rightarrow> inbound option" where
  "parseMessage v now m user =
     (case (filled (text_key ''remoteJid'' m), filled (text_key ''id'' m)) of
        (Some chat, Some i) \<Rightarrow>
          (let fromMe = from_me m;
               sender = sender_of m user chat fromMe;
               content = ie_normalize v (field ''message'' (Some m));
               ok = metadata_ok m content
           in Some \<lparr>im_connection = ie_conn v, im_chat = chat, im_sender = sender, im_phone = phone_of m chat sender fromMe, im_id = i,
                im_ts = timestamp_of now m, im_text = extractText (ie_normalize v content), im_type = classifyMessage content,
                im_push = (if ok then text_at ''pushName'' (Some m) else None), im_file = documentFileName content,
                im_ptt = (ok \<and> has_field (field ''audioMessage'' content) ''ptt''), im_status = MsNone, im_media = None,
                im_group = isGroupJid chat, im_fromMe = fromMe, im_mentions = mentionsSelf fromMe content user\<rparr>)
      | _ \<Rightarrow> None)"

definition captured_of :: "inbound \<Rightarrow> captured" where
  "captured_of m = \<lparr>cm_connection = im_connection m, cm_chat = im_chat m, cm_sender = im_sender m, cm_phone = im_phone m,
     cm_message = im_id m, cm_ts = im_ts m, cm_type = im_type m, cm_text = im_text m, cm_from_me = im_fromMe m\<rparr>"

section \<open>Membership\<close>

definition emit_intake :: "intake_effect \<Rightarrow> intake \<Rightarrow> intake" where
  "emit_intake e s = s\<lparr>ik_out := ik_out s @ [e]\<rparr>"

definition self_left :: "intake_env \<Rightarrow> string \<Rightarrow> string option \<Rightarrow> intake \<Rightarrow> intake" where
  "self_left v g by_jid s =
     (let s' = s\<lparr>ik_pending := filter (\<lambda>j. j \<noteq> g) (ik_pending s)\<rparr> in
      case removeGroup (ie_conn v, g) (ik_meta s') of
        Inl e \<Rightarrow> s'
      | Inr mt \<Rightarrow> emit_intake (SelfRemoved g by_jid) (s'\<lparr>ik_meta := mt\<rparr>))"

definition self_joined :: "intake_env \<Rightarrow> string \<Rightarrow> string option \<Rightarrow> intake \<Rightarrow> intake" where
  "self_joined v g by_jid s =
     (let s1 = (if ie_history v \<and> g \<notin> set (ik_pending s) then s\<lparr>ik_pending := ik_pending s @ [g]\<rparr> else s);
          s2 = emit_intake (SelfAdded g by_jid) (s1\<lparr>ik_meta := allowFetch (ie_conn v, g) (ik_meta s1)\<rparr>)
      in if ie_history v \<and> 0 < ie_join_wait v \<and> ik_live s2
         then s2\<lparr>ik_waits := (ik_waits s2)(g \<mapsto> \<lparr>jw_messages = [], jw_user = ik_user s2, jw_epoch = ik_epochs s2 g, jw_fired = False\<rparr>)\<rparr>
         else s2)"

definition onSelfMembership :: "intake_env \<Rightarrow> string \<Rightarrow> membership_action \<Rightarrow> string option \<Rightarrow> intake \<Rightarrow> intake" where
  "onSelfMembership v g action by_jid s =
     (let s1 = s\<lparr>ik_present := (ik_present s)(g := (action = AddSelf))\<rparr> in
      if action = AddSelf \<and> ik_present s g then emit_intake (SelfAdded g by_jid) s1
      else
        (let s2 = s1\<lparr>ik_epochs := (ik_epochs s1)(g := ik_epochs s1 g + 1), ik_waits := (ik_waits s1)(g := None)\<rparr> in
         if action = RemoveSelf then self_left v g (filled by_jid) s2 else self_joined v g (filled by_jid) s2))"

definition enqueueInbound :: "intake_job \<Rightarrow> intake \<Rightarrow> intake" where
  "enqueueInbound j s = s\<lparr>ik_queue := ik_queue s @ [j]\<rparr>"

definition queueHistoryBatch :: "intake_env \<Rightarrow> json \<Rightarrow> intake \<Rightarrow> intake" where
  "queueHistoryBatch v payload s =
     (if \<not> ie_history v then s else enqueueInbound (HistoryJob payload (ik_user s) (ik_epochs s)) s)"

definition onParticipantUpdate :: "intake_env \<Rightarrow> json \<Rightarrow> intake \<Rightarrow> intake" where
  "onParticipantUpdate v payload s =
     (case selfParticipantUpdate (Some payload) (ik_user s) of
        None \<Rightarrow> s
      | Some (Some (g, RemoveSelf, by_jid)) \<Rightarrow> onSelfMembership v g RemoveSelf by_jid s
      | Some change \<Rightarrow>
          (let s' = (case change of Some (g, a, by_jid) \<Rightarrow> onSelfMembership v g a by_jid s | None \<Rightarrow> s) in
           case filled (text_at ''id'' (Some payload)) of
             None \<Rightarrow> s'
           | Some g \<Rightarrow> s'\<lparr>ik_meta := or_same (ik_meta s') (invalidateGroup (ie_conn v, g) (ik_meta s'))\<rparr>))"

definition onGroupUpserts :: "intake_env \<Rightarrow> json \<Rightarrow> intake \<Rightarrow> intake" where
  "onGroupUpserts v payload s =
     (case selfGroupUpserts (Some payload) (ik_user s) of
        None \<Rightarrow> s
      | Some gs \<Rightarrow> foldl (\<lambda>s g. onSelfMembership v g AddSelf None s) s gs)"

text \<open>Linking and unlinking forget what was known of the groups of the session, but not their epochs.\<close>

definition clear_groups :: "intake \<Rightarrow> intake" where
  "clear_groups s = s\<lparr>ik_pending := [], ik_present := (\<lambda>g. False), ik_waits := Map.empty\<rparr>"

fun intake_happen :: "intake_env \<Rightarrow> intake \<Rightarrow> intake_event \<Rightarrow> intake" where
  "intake_happen v s (ParticipantsChanged payload) = onParticipantUpdate v payload s"
| "intake_happen v s (GroupsUpserted payload) = onGroupUpserts v payload s"
| "intake_happen v s SessionCleared = clear_groups s"
| "intake_happen v s (LiveArrives kind ms) = enqueueInbound (LiveJob kind ms (ik_user s) (ik_epochs s)) s"
| "intake_happen v s (HistoryArrives payload) = queueHistoryBatch v payload s"
| "intake_happen v s (JoinTimer g) =
     (case ik_waits s g of
        None \<Rightarrow> s
      | Some w \<Rightarrow>
          if jw_fired w then s
          else enqueueInbound (ReleaseJob g (jw_epoch w)) (s\<lparr>ik_waits := (ik_waits s)(g \<mapsto> w\<lparr>jw_fired := True\<rparr>)\<rparr>))"
| "intake_happen v s (LogChange e) = s\<lparr>ik_log := out_step (ik_log s) e\<rparr>"
| "intake_happen v s (StoreChange e) = s\<lparr>ik_store := store_step (ik_store s) e\<rparr>"
| "intake_happen v s (MetaChange e) = s\<lparr>ik_meta := meta_step (ik_meta s) e\<rparr>"
| "intake_happen v s (SocketChange live user) = s\<lparr>ik_live := live, ik_user := user\<rparr>"

definition settle :: "intake_env \<Rightarrow> intake \<Rightarrow> intake" where
  "settle v s =
     (let n = ik_awaits s in foldl (intake_happen v) (s\<lparr>ik_awaits := n + 1, ik_now := ik_now s + ie_pause v n\<rparr>) (ie_during v n))"

section \<open>Live messages\<close>

definition quiet_ms :: "intake_env \<Rightarrow> nat" where
  "quiet_ms v = max (ie_debounce v) (ie_media_burst v)"

text \<open>Whether the burst of the chat has closed, in which case its submission is awaited.\<close>

definition waitIfChatBurstClosed :: "intake_env \<Rightarrow> string \<Rightarrow> intake \<Rightarrow> intake \<times> bool" where
  "waitIfChatBurstClosed v chat s =
     (settle v s,
      case ik_bursts s chat of
        None \<Rightarrow> False
      | Some accepted \<Rightarrow> 0 < quiet_ms v \<and> accepted + quiet_ms v \<le> ik_now s)"

text \<open>A tick tells the router of a message that is still downloading; if it holds a buffer open, the burst is prolonged.\<close>

definition tick :: "intake_env \<Rightarrow> inbound \<Rightarrow> intake \<Rightarrow> intake" where
  "tick v m s =
     (let s' = emit_intake (BurstTick m) s in
      if ie_tick v (length (ik_out s)) \<and> ik_bursts s' (im_chat m) \<noteq> None
      then s'\<lparr>ik_bursts := (ik_bursts s')(im_chat m \<mapsto> ik_now s')\<rparr> else s')"

definition holdOpenBurst :: "intake_env \<Rightarrow> nat \<Rightarrow> inbound \<Rightarrow> intake \<Rightarrow> intake" where
  "holdOpenBurst v n m s = (if quiet_ms v = 0 then s else (tick v m ^^ n) s)"

definition stale :: "(string \<Rightarrow> nat) \<Rightarrow> inbound \<Rightarrow> intake \<Rightarrow> bool" where
  "stale epochs m s \<longleftrightarrow> im_group m \<and> epochs (im_chat m) \<noteq> ik_epochs s (im_chat m)"

definition hand_over :: "intake_env \<Rightarrow> (string \<Rightarrow> nat) \<Rightarrow> inbound \<Rightarrow> intake \<Rightarrow> intake" where
  "hand_over v epochs m s =
     (let s' = emit_intake (HandOver m (epochs (im_chat m)) (ik_epochs s (im_chat m))) s in
      if quiet_ms v = 0 then settle v s' else s'\<lparr>ik_bursts := (ik_bursts s')(im_chat m \<mapsto> ik_now s')\<rparr>)"

text \<open>Waiting for the burst, downloading and handing over.\<close>

definition download_and_hand_over :: "intake_env \<Rightarrow> (string \<Rightarrow> nat) \<Rightarrow> json \<Rightarrow> inbound \<Rightarrow> intake \<Rightarrow> intake" where
  "download_and_hand_over v epochs message m s =
     (case waitIfChatBurstClosed v (im_chat m) s of
        (s1, over) \<Rightarrow>
          (let n = ik_awaits s1;
               s2 = (if over then s1 else holdOpenBurst v 1 m s1);
               s3 = settle v s2;
               s4 = (if over then s3 else holdOpenBurst v (ie_ticks v n) m s3)
           in case download (ie_parse v) (ie_stream v n) (ie_max_media v) (ie_normalize v (field ''message'' (Some message))) of
                (st, media) \<Rightarrow>
                  if stale epochs m s4 then s4 else hand_over v epochs (m\<lparr>im_status := st, im_media := media\<rparr>) s4))"

definition accept_live :: "intake_env \<Rightarrow> (string \<Rightarrow> nat) \<Rightarrow> json \<Rightarrow> inbound \<Rightarrow> intake \<Rightarrow> intake" where
  "accept_live v epochs message m s =
     (case capture (captured_of m) (ik_store s) of
        Inl e \<Rightarrow> s
      | Inr (rows, new) \<Rightarrow>
          (let s' = s\<lparr>ik_store := rows\<rparr> in
           if \<not> new \<and> im_group m then s'
           else
             (case (if im_fromMe m then isGatewayMessage (im_connection m) (im_chat m) (im_id m) (ik_log s') else Inr False) of
                Inl e \<Rightarrow> s'
              | Inr True \<Rightarrow> s'
              | Inr False \<Rightarrow> if stale epochs m s' then s' else download_and_hand_over v epochs message m s')))"

definition live_message :: "intake_env \<Rightarrow> json option \<Rightarrow> (string \<Rightarrow> nat) \<Rightarrow> intake \<Rightarrow> json \<Rightarrow> intake" where
  "live_message v user epochs s message =
     (case parseMessage v (ik_now s) message user of
        None \<Rightarrow> s
      | Some m \<Rightarrow>
          (case (if im_group m then ik_waits s (im_chat m) else None) of
             Some w \<Rightarrow>
               if jw_epoch w = epochs (im_chat m)
               then s\<lparr>ik_waits := (ik_waits s)(im_chat m \<mapsto> w\<lparr>jw_messages := jw_messages w @ [message]\<rparr>)\<rparr> else s
           | None \<Rightarrow> accept_live v epochs message m s))"

definition onMessagesUpsert :: "intake_env \<Rightarrow> string \<Rightarrow> json list \<Rightarrow> json option \<Rightarrow> (string \<Rightarrow> nat) \<Rightarrow> intake \<Rightarrow> intake" where
  "onMessagesUpsert v kind messages user epochs s =
     (if kind \<noteq> ''notify'' \<and> kind \<noteq> ''append'' then s else foldl (live_message v user epochs) s messages)"

section \<open>History\<close>

definition notifyHistory :: "intake_env \<Rightarrow> string \<Rightarrow> nat \<Rightarrow> intake \<Rightarrow> intake" where
  "notifyHistory v g count s = settle v (emit_intake (HistoryNote g count) s)"

definition releaseJoinWait :: "intake_env \<Rightarrow> string \<Rightarrow> intake \<Rightarrow> intake" where
  "releaseJoinWait v g s =
     (case ik_waits s g of
        None \<Rightarrow> s
      | Some w \<Rightarrow>
          (let s' = s\<lparr>ik_waits := (ik_waits s)(g := None)\<rparr> in
           if jw_epoch w \<noteq> ik_epochs s' g then s'
           else onMessagesUpsert v ''notify'' (jw_messages w) (jw_user w) (\<lambda>x. if x = g then jw_epoch w else 0) s'))"

definition release_job :: "intake_env \<Rightarrow> string \<Rightarrow> nat \<Rightarrow> intake \<Rightarrow> intake" where
  "release_job v g epoch s =
     (if map_option jw_epoch (ik_waits s g) \<noteq> Some epoch then s
      else
        (let s' = notifyHistory v g 0 s in
         if map_option jw_epoch (ik_waits s' g) = Some epoch then releaseJoinWait v g s' else s'))"

definition append_to :: "string \<Rightarrow> json \<Rightarrow> (string \<times> json list) list \<Rightarrow> (string \<times> json list) list" where
  "append_to g m grouped =
     (if g \<in> fst ` set grouped then map (\<lambda>(k, ms). (k, if k = g then ms @ [m] else ms)) grouped else grouped @ [(g, [m])])"

definition current :: "(string \<Rightarrow> nat) \<Rightarrow> string \<Rightarrow> intake \<Rightarrow> bool" where
  "current epochs g s \<longleftrightarrow> g \<in> set (ik_pending s) \<and> epochs g = ik_epochs s g"

text \<open>The messages of the batch by group, for the groups whose history is still open.\<close>

definition group_messages :: "(string \<Rightarrow> nat) \<Rightarrow> intake \<Rightarrow> json list \<Rightarrow> (string \<times> json list) list" where
  "group_messages epochs s values =
     foldl (\<lambda>grouped value.
        case parseHistoryMessage value of
          None \<Rightarrow> grouped
        | Some m \<Rightarrow>
            (case text_key ''remoteJid'' m of
               None \<Rightarrow> grouped
             | Some g \<Rightarrow> if current epochs g s then append_to g m grouped else grouped)) [] values"

definition complete_batch :: "json \<Rightarrow> bool" where
  "complete_batch payload \<longleftrightarrow>
     (let progress = field ''progress'' (Some payload); chunk = field ''chunkOrder'' (Some payload) in
      (case progress of Some (JNum m e) \<Rightarrow> json_rat m e = 100 | _ \<Rightarrow> False)
      \<or> (progress = None \<or> progress = Some JNull) \<and> (chunk = None \<or> chunk = Some JNull))"

definition with_open_groups :: "(string \<Rightarrow> nat) \<Rightarrow> intake \<Rightarrow> (string \<times> json list) list \<Rightarrow> (string \<times> json list) list" where
  "with_open_groups epochs s grouped =
     grouped @ map (\<lambda>g. (g, [])) (filter (\<lambda>g. current epochs g s \<and> g \<notin> fst ` set grouped) (ik_pending s))"

definition seconds :: "json \<Rightarrow> int" where
  "seconds m = seconds_of (field ''messageTimestamp'' (Some m))"

text \<open>Newest first becomes oldest first; messages of one second keep their order.\<close>

definition in_order :: "json list \<Rightarrow> json list" where
  "in_order ms = sort_key seconds (rev ms)"

definition with_seconds :: "json \<Rightarrow> json" where
  "with_seconds m =
     (case m of
        JObj kvs \<Rightarrow> JObj (map (\<lambda>(k, x). (k, if k = ''messageTimestamp'' then JNum (seconds m) 0 else x)) kvs)
      | j \<Rightarrow> j)"

text \<open>One row of history, and whether it is new; none where it throws.\<close>

definition capture_row :: "intake_env \<Rightarrow> json option \<Rightarrow> string \<Rightarrow> json \<Rightarrow> intake \<Rightarrow> intake \<times> bool option" where
  "capture_row v user g message s =
     (case parseMessage v (ik_now s) message user of
        None \<Rightarrow> (s, Some False)
      | Some p \<Rightarrow>
          (let m = p\<lparr>im_ts := nat (seconds message * 1000)\<rparr>;
               envelope = encrypt_string (v_seal (ie_vault v)) (ie_iv v (length (ik_store s))) (jprint (with_seconds message)) (v_key (ie_vault v));
               media = (if hasMedia (ie_normalize v (field ''message'' (Some message))) then MsPending else MsNone)
           in case captureHistory (captured_of m) envelope media (ik_store s) of
                Inl e \<Rightarrow> (s, None)
              | Inr (rows, new) \<Rightarrow>
                  (let s' = s\<lparr>ik_store := rows\<rparr> in
                   if \<not> new then (s', Some False)
                   else if \<not> im_fromMe m then (s', Some True)
                   else
                     (case isGatewayMessage (im_connection m) g (im_id m) (ik_log s') of
                        Inl e \<Rightarrow> (s', None)
                      | Inr False \<Rightarrow> (s', Some True)
                      | Inr True \<Rightarrow>
                          (case markMessageRelayed (ik_now s) (im_connection m, g, im_id m) rows of
                             Inl e \<Rightarrow> (s', None) | Inr r \<Rightarrow> (s'\<lparr>ik_store := fst r\<rparr>, Some True))))))"

fun capture_rows :: "intake_env \<Rightarrow> json option \<Rightarrow> string \<Rightarrow> json list \<Rightarrow> nat \<Rightarrow> intake \<Rightarrow> intake \<times> nat option" where
  "capture_rows v user g [] count s = (s, Some count)"
| "capture_rows v user g (m # ms) count s =
     (case capture_row v user g m s of
        (s', None) \<Rightarrow> (s', None)
      | (s', Some new) \<Rightarrow> capture_rows v user g ms (if new then count + 1 else count) s')"

text \<open>The groups of a batch; the flag is false where the job throws.\<close>

fun history_groups ::
    "intake_env \<Rightarrow> json option \<Rightarrow> (string \<Rightarrow> nat) \<Rightarrow> bool \<Rightarrow> (string \<times> json list) list \<Rightarrow> intake \<Rightarrow> intake \<times> bool" where
  "history_groups v user epochs ended [] s = (s, True)"
| "history_groups v user epochs ended ((g, ms) # gs) s =
     (if \<not> current epochs g s then history_groups v user epochs ended gs s
      else
        (case capture_rows v user g (in_order ms) 0 s of
           (s1, None) \<Rightarrow> (s1, False)
         | (s1, Some count) \<Rightarrow>
             (let s2 = (if ended then s1\<lparr>ik_pending := filter (\<lambda>j. j \<noteq> g) (ik_pending s1)\<rparr> else s1) in
              if ended \<or> ik_waits s2 g = None then
                (let s3 = notifyHistory v g count s2;
                     s4 = (if ended \<and> epochs g = ik_epochs s3 g then releaseJoinWait v g s3 else s3)
                 in history_groups v user epochs ended gs s4)
              else history_groups v user epochs ended gs s2)))"

definition onHistoryBatch :: "intake_env \<Rightarrow> json \<Rightarrow> json option \<Rightarrow> (string \<Rightarrow> nat) \<Rightarrow> intake \<Rightarrow> intake" where
  "onHistoryBatch v payload user epochs s =
     (if \<not> ie_history v \<or> \<not> HistoryBatch (ie_kinds v) (Some payload) then s
      else
        (let grouped = group_messages epochs s (elements (field ''messages'' (Some payload)));
             ended = complete_batch payload
         in fst (history_groups v user epochs ended (if ended then with_open_groups epochs s grouped else grouped) s)))"

section \<open>The queue\<close>

fun run_intake :: "intake_env \<Rightarrow> intake_job \<Rightarrow> intake \<Rightarrow> intake" where
  "run_intake v (LiveJob kind ms user epochs) s = onMessagesUpsert v kind ms user epochs s"
| "run_intake v (HistoryJob payload user epochs) s = onHistoryBatch v payload user epochs s"
| "run_intake v (ReleaseJob g epoch) s = release_job v g epoch s"

text \<open>Between jobs anything may happen; the next job takes the head of the queue.\<close>

datatype intake_move = Happens intake_event | RunsNext

fun intake_step :: "intake_env \<Rightarrow> intake \<Rightarrow> intake_move \<Rightarrow> intake" where
  "intake_step v s (Happens e) = intake_happen v s e"
| "intake_step v s RunsNext =
     (case ik_queue s of [] \<Rightarrow> s | j # js \<Rightarrow> run_intake v j (s\<lparr>ik_queue := js\<rparr>))"

section \<open>Routing\<close>

text \<open>What the router is told of a group: whether the linked account is a member, by a jid or by its phone.\<close>

definition linkedMember :: "json option \<Rightarrow> group_row \<Rightarrow> bool" where
  "linkedMember user r \<longleftrightarrow>
     (let own = ownJids user; phones = List.map_filter phoneE164FromJid own in
      list_ex (\<lambda>p. bareJid (gp_jid p) \<in> set own \<or> (case filled (gp_phone p) of None \<Rightarrow> False | Some t \<Rightarrow> t \<in> set phones)) (gm_participants r))"

section \<open>Replaying\<close>

text \<open>\<open>prepareHistoryMessage\<close>: \<open>None\<close> throws, \<open>Some None\<close> is nothing to relay.\<close>

definition prepareHistoryMessage :: "intake_env \<Rightarrow> stored \<Rightarrow> intake \<Rightarrow> intake \<times> inbound option option" where
  "prepareHistoryMessage v row s =
     (if cm_connection row \<noteq> ie_conn v \<or> \<not> is_group_id (cm_chat row) \<or> cm_message row = [] then (s, None)
      else
        (case map_option (\<lambda>e. decryptToString (v_unseal (ie_vault v)) e (v_key (ie_vault v))) (st_envelope row) of
           Some (Inr (Some t)) \<Rightarrow>
             (case Option.bind (json_parse t) parseHistoryMessage of
                None \<Rightarrow> (s, None)
              | Some message \<Rightarrow>
                  if text_key ''remoteJid'' message \<noteq> Some (cm_chat row) \<or> text_key ''id'' message \<noteq> Some (cm_message row) then (s, None)
                  else
                    (case parseMessage v (ik_now s) message (ik_user s) of
                       None \<Rightarrow> (s, Some None)
                     | Some p \<Rightarrow>
                         (let content = ie_normalize v (field ''message'' (Some message));
                              n = ik_awaits s; s' = (if ik_live s then settle v s else s);
                              (st, media) = (if ik_live s then download (ie_parse v) (ie_stream v n) (ie_max_media v) content
                                else (if hasMedia content then MsFailed else MsNone, None));
                              m = p\<lparr>im_ts := cm_ts row, im_sender := cm_sender row, im_phone := cm_phone row, im_mentions := False,
                                im_status := st, im_media := media\<rparr>
                          in case setHistoryMediaStatus (cm_connection row, cm_chat row, cm_message row) st (ik_store s') of
                               Inl e \<Rightarrow> (s', None)
                             | Inr rows \<Rightarrow> (s'\<lparr>ik_store := rows\<rparr>, Some (Some m)))))
         | _ \<Rightarrow> (s, None)))"

end
