(* ===== verification/IntakeFacts.thy ===== *)
theory IntakeFacts
  imports Intake
begin

text \<open>
  What the intake promises in every interleaving: a message of a group is handed over at most once,
  and only under the membership it arrived under; live messages of a joined group wait for its
  history. The locales state what a predicate must be indifferent to in order to be kept: by an
  \<open>await\<close> (\<open>intake_base\<close>), by live messages (\<open>live_keeper\<close>), by every job (\<open>intake_keeper\<close>).
\<close>

section \<open>What jobs keep\<close>

locale intake_base =
  fixes v :: intake_env and keeps :: "intake \<Rightarrow> bool"
  assumes happens: "keeps s \<Longrightarrow> keeps (intake_happen v s e)"
    and passing: "keeps s \<Longrightarrow> keeps (s\<lparr>ik_awaits := n, ik_now := t\<rparr>)"
    and ticking: "keeps s \<Longrightarrow> keeps (s\<lparr>ik_out := ik_out s @ [BurstTick m]\<rparr>)"
    and bursting: "keeps s \<Longrightarrow> keeps (s\<lparr>ik_bursts := b\<rparr>)"
begin

lemma settle_keeps: "keeps s \<Longrightarrow> keeps (settle v s)"
proof -
  have "keeps s0 \<Longrightarrow> keeps (foldl (intake_happen v) s0 es)" for s0 es
    by (induction es arbitrary: s0) (simp_all add: happens)
  then show "keeps s \<Longrightarrow> keeps (settle v s)" by (simp add: settle_def Let_def passing)
qed

lemma tick_keeps: "keeps s \<Longrightarrow> keeps (tick v m s)"
  using bursting ticking by (simp add: tick_def emit_intake_def Let_def)

lemma hold_keeps: "keeps s \<Longrightarrow> keeps (holdOpenBurst v n m s)"
proof -
  have "keeps s \<Longrightarrow> keeps ((tick v m ^^ n) s)"
    by (induction n) (simp_all add: tick_keeps)
  then show "keeps s \<Longrightarrow> keeps (holdOpenBurst v n m s)" by (simp add: holdOpenBurst_def)
qed

text \<open>The state in which a message is handed over.\<close>

lemma hand_over_state:
  assumes "keeps s"
  shows "\<exists>s4 st media. keeps s4 \<and> download_and_hand_over v epochs message m s
    = (if stale epochs m s4 then s4 else hand_over v epochs (m\<lparr>im_status := st, im_media := media\<rparr>) s4)"
proof -
  define over where "over = snd (waitIfChatBurstClosed v (im_chat m) s)"
  define s1 where "s1 = settle v s"
  define s2 where "s2 = (if over then s1 else holdOpenBurst v 1 m s1)"
  define s3 where "s3 = settle v s2"
  define s4 where "s4 = (if over then s3 else holdOpenBurst v (ie_ticks v (ik_awaits s1)) m s3)"
  obtain st media where d: "download (ie_parse v) (ie_stream v (ik_awaits s1)) (ie_max_media v) (ie_normalize v (field ''message'' (Some message))) = (st, media)"
    by fastforce
  have w: "waitIfChatBurstClosed v (im_chat m) s = (s1, over)" by (simp add: over_def s1_def waitIfChatBurstClosed_def)
  have "keeps s4" using assms by (simp add: s1_def s2_def s3_def s4_def settle_keeps hold_keeps)
  moreover have "download_and_hand_over v epochs message m s
      = (if stale epochs m s4 then s4 else hand_over v epochs (m\<lparr>im_status := st, im_media := media\<rparr>) s4)"
    unfolding download_and_hand_over_def w prod.case Let_def d s2_def [symmetric] s3_def [symmetric] s4_def [symmetric] by simp
  ultimately show ?thesis by blast
qed

text \<open>A predicate that also stands writing a row and handing such a message over stands accepting it.\<close>

lemma accept_if:
  assumes "keeps s" and storing: "\<And>s rows. keeps s \<Longrightarrow> keeps (s\<lparr>ik_store := rows\<rparr>)"
    and handing: "\<And>s st media a b. keeps s \<Longrightarrow> keeps (emit_intake (HandOver (m\<lparr>im_status := st, im_media := media\<rparr>) a b) s)"
  shows "keeps (accept_live v epochs message m s)"
proof -
  have "keeps (hand_over v epochs (m\<lparr>im_status := st, im_media := media\<rparr>) s0)" if "keeps s0" for s0 st media
    using handing [OF that] settle_keeps bursting by (simp add: hand_over_def Let_def)
  then have "keeps (download_and_hand_over v epochs message m s0)" if "keeps s0" for s0
    using hand_over_state [OF that, of epochs message m] by auto
  then show ?thesis using assms(1) storing by (auto simp: accept_live_def Let_def split: sum.split bool.split)
qed

end

locale live_keeper = intake_base +
  assumes accepting: "keeps s \<Longrightarrow> (im_group m \<Longrightarrow> ik_waits s (im_chat m) = None) \<Longrightarrow> keeps (accept_live v epochs message m s)"
    and waiting: "keeps s \<Longrightarrow> ik_waits s g = Some w \<Longrightarrow> keeps (s\<lparr>ik_waits := (ik_waits s)(g \<mapsto> w\<lparr>jw_messages := ms\<rparr>)\<rparr>)"
begin

lemma live_keeps: "keeps s \<Longrightarrow> keeps (live_message v user epochs s message)"
  using accepting waiting by (auto simp: live_message_def split: option.splits if_splits)

lemma upsert_keeps: "keeps s \<Longrightarrow> keeps (onMessagesUpsert v kind ms user epochs s)"
proof -
  have "keeps s0 \<Longrightarrow> keeps (foldl (live_message v user epochs) s0 ms)" for s0
    by (induction ms arbitrary: s0) (simp_all add: live_keeps)
  then show "keeps s \<Longrightarrow> keeps (onMessagesUpsert v kind ms user epochs s)" by (simp add: onMessagesUpsert_def)
qed

end

locale intake_keeper = live_keeper +
  assumes noting: "keeps s \<Longrightarrow> keeps (s\<lparr>ik_out := ik_out s @ [HistoryNote g n]\<rparr>)"
    and releasing: "keeps s \<Longrightarrow> keeps (s\<lparr>ik_waits := (ik_waits s)(g := None)\<rparr>)"
    and ending: "keeps s \<Longrightarrow> keeps (s\<lparr>ik_pending := ps\<rparr>)"
    and capturing: "keeps s \<Longrightarrow> keeps (fst (capture_row v user g m s))"
    and taking: "keeps s \<Longrightarrow> keeps (s\<lparr>ik_queue := q\<rparr>)"
begin

lemma notify_keeps: "keeps s \<Longrightarrow> keeps (notifyHistory v g n s)"
  by (simp add: notifyHistory_def emit_intake_def settle_keeps noting)

lemma release_keeps: "keeps s \<Longrightarrow> keeps (releaseJoinWait v g s)"
  by (auto simp: releaseJoinWait_def Let_def split: option.split intro!: upsert_keeps releasing)

lemma release_job_keeps: "keeps s \<Longrightarrow> keeps (release_job v g e s)"
  by (simp add: release_job_def Let_def notify_keeps release_keeps)

lemma capture_rows_keeps: "keeps s \<Longrightarrow> keeps (fst (capture_rows v user g ms n s))"
proof (induction ms arbitrary: n s)
  case (Cons m ms)
  from capturing [OF Cons.prems, of user g m] show ?case
    by (auto split: prod.split option.split intro!: Cons.IH)
qed simp

lemma groups_keep: "keeps s \<Longrightarrow> keeps (fst (history_groups v user epochs ended gs s))"
proof (induction gs arbitrary: s)
  case (Cons x gs)
  obtain g ms where x: "x = (g, ms)" by (cases x)
  obtain s1 c where c: "capture_rows v user g (in_order ms) 0 s = (s1, c)" by fastforce
  have k1: "keeps s1" using capture_rows_keeps [OF Cons.prems, of user g "in_order ms" 0] c by simp
  define s2 where "s2 = (if ended then s1\<lparr>ik_pending := filter (\<lambda>j. j \<noteq> g) (ik_pending s1)\<rparr> else s1)"
  have k2: "keeps s2" using k1 ending by (simp add: s2_def)
  have k3: "keeps (notifyHistory v g n s2)" for n by (rule notify_keeps [OF k2])
  have k4: "keeps (releaseJoinWait v g (notifyHistory v g n s2))" for n by (rule release_keeps [OF k3])
  show ?case
    using Cons.IH Cons.prems k1 k2 k3 k4 unfolding x by (cases ended) (auto simp: c Let_def s2_def split: option.split)
qed simp

lemma run_keeps: "keeps s \<Longrightarrow> keeps (run_intake v j s)"
  by (cases j) (simp_all add: upsert_keeps release_job_keeps onHistoryBatch_def Let_def groups_keep)

lemma step_keeps: "keeps s \<Longrightarrow> keeps (intake_step v s e)"
  by (cases e) (auto simp: happens split: list.split intro!: run_keeps taking)

end

section \<open>Handed over once\<close>

definition msg_key :: "inbound \<Rightarrow> message_key" where
  "msg_key m = (im_connection m, im_chat m, im_id m)"

fun handed_key :: "intake_effect \<Rightarrow> message_key option" where
  "handed_key (HandOver m a b) = (if im_group m then Some (msg_key m) else None)"
| "handed_key e = None"

definition handed :: "intake \<Rightarrow> message_key list" where
  "handed s = List.map_filter handed_key (ik_out s)"

definition store_keys :: "intake \<Rightarrow> message_key set" where
  "store_keys s = st_key ` set (ik_store s)"

definition once :: "intake \<Rightarrow> bool" where
  "once s \<longleftrightarrow> distinct (handed s) \<and> set (handed s) \<subseteq> store_keys s"

lemma map_filter_append: "List.map_filter f (xs @ ys) = List.map_filter f xs @ List.map_filter f ys"
  by (simp add: List.map_filter_def)

lemma map_filter_one: "List.map_filter f [x] = (case f x of None \<Rightarrow> [] | Some y \<Rightarrow> [y])"
  by (simp add: List.map_filter_def split: option.split)

lemmas filter_simps = map_filter_append map_filter_one

lemma handed_simps [simp]:
  "handed (s\<lparr>ik_meta := a\<rparr>) = handed s" "handed (s\<lparr>ik_waits := b\<rparr>) = handed s" "handed (s\<lparr>ik_bursts := c\<rparr>) = handed s"
  "handed (s\<lparr>ik_queue := d\<rparr>) = handed s" "handed (s\<lparr>ik_pending := e\<rparr>) = handed s" "handed (s\<lparr>ik_store := f\<rparr>) = handed s"
  "handed (s\<lparr>ik_awaits := n, ik_now := t\<rparr>) = handed s" "handed (s\<lparr>ik_out := es @ [x]\<rparr>) = List.map_filter handed_key es @ List.map_filter handed_key [x]"
  by (simp_all add: handed_def filter_simps)

lemma store_simps [simp]:
  "store_keys (s\<lparr>ik_meta := a\<rparr>) = store_keys s" "store_keys (s\<lparr>ik_waits := b\<rparr>) = store_keys s" "store_keys (s\<lparr>ik_bursts := c\<rparr>) = store_keys s"
  "store_keys (s\<lparr>ik_queue := d\<rparr>) = store_keys s" "store_keys (s\<lparr>ik_pending := e\<rparr>) = store_keys s" "store_keys (s\<lparr>ik_out := f\<rparr>) = store_keys s"
  "store_keys (s\<lparr>ik_awaits := n, ik_now := t\<rparr>) = store_keys s"
  by (simp_all add: store_keys_def)

lemma membership_handed: "handed (onSelfMembership v g a b s) = handed s" "store_keys (onSelfMembership v g a b s) = store_keys s"
  by (auto simp: onSelfMembership_def self_left_def self_joined_def emit_intake_def Let_def handed_def store_keys_def filter_simps
      split: sum.split)

lemma memberships_handed:
  "handed (foldl (\<lambda>s g. onSelfMembership v g a b s) s gs) = handed s"
  "store_keys (foldl (\<lambda>s g. onSelfMembership v g a b s) s gs) = store_keys s"
  by (induction gs arbitrary: s) (simp_all add: membership_handed)

lemma key_update: "(\<And>r. st_key (f r) = st_key r) \<Longrightarrow> st_key ` set (sql_update p f rows) = st_key ` set rows"
  by (rule key_image_update)

lemma store_grows: "st_key ` set rows \<subseteq> st_key ` set (store_step rows e)"
proof (cases e)
  case (MarkRelayed now k)
  then show ?thesis by (auto simp: markMessageRelayed_def key_update split: sum.split)
next
  case (SetMedia k st)
  then show ?thesis by (auto simp: setHistoryMediaStatus_def key_update split: sum.split)
qed (auto simp: capture_def captureHistory_def insert_message_def Let_def split: sum.split)

lemma participant_handed: "handed (onParticipantUpdate v p s) = handed s" "store_keys (onParticipantUpdate v p s) = store_keys s"
  by (simp_all add: onParticipantUpdate_def Let_def membership_handed split: option.split membership_action.split)

lemma happen_handed: "handed (intake_happen v s e) = handed s"
  by (cases e) (auto simp: participant_handed onGroupUpserts_def memberships_handed queueHistoryBatch_def split: option.split,
      auto simp: handed_def clear_groups_def enqueueInbound_def split: option.split)

lemma happen_store: "store_keys s \<subseteq> store_keys (intake_happen v s e)"
proof (cases e)
  case (StoreChange x)
  then show ?thesis using store_grows [of "ik_store s" x] by (simp add: store_keys_def)
qed (auto simp: participant_handed onGroupUpserts_def memberships_handed queueHistoryBatch_def split: option.split,
    auto simp: store_keys_def clear_groups_def enqueueInbound_def split: option.split if_splits)

lemma once_grows: "once s \<Longrightarrow> handed s' = handed s \<Longrightarrow> store_keys s \<subseteq> store_keys s' \<Longrightarrow> once s'"
  by (auto simp: once_def)

text \<open>A message that was captured just now: nobody else hands it over.\<close>

definition claimed_key :: "message_key \<Rightarrow> intake \<Rightarrow> bool" where
  "claimed_key k s \<longleftrightarrow> once s \<and> k \<notin> set (handed s) \<and> k \<in> store_keys s"

interpretation own: intake_base v "claimed_key k" for v k
proof
  fix s e assume "claimed_key k s"
  then show "claimed_key k (intake_happen v s e)"
    using happen_store [of s v e] once_grows [OF _ happen_handed happen_store] by (auto simp: claimed_key_def happen_handed)
qed (auto simp: claimed_key_def once_def filter_simps handed_def)

interpretation others: intake_base v once for v
proof
  fix s e assume "once s"
  then show "once (intake_happen v s e)" by (rule once_grows [OF _ happen_handed happen_store])
qed (auto simp: once_def handed_def filter_simps)

lemma hand_over_once:
  assumes "once s" and "im_group m \<Longrightarrow> claimed_key (msg_key m) s"
  shows "once (hand_over v epochs m s)"
proof -
  have "once (emit_intake (HandOver m a b) s)" for a b
    using assms by (auto simp: emit_intake_def once_def claimed_key_def handed_def filter_simps split: option.split)
  then show ?thesis
    using others.settle_keeps others.bursting by (simp add: hand_over_def Let_def)
qed

lemma download_once:
  assumes "once s" and "im_group m \<Longrightarrow> claimed_key (msg_key m) s"
  shows "once (download_and_hand_over v epochs message m s)"
proof (cases "im_group m")
  case True
  with assms(2) obtain s4 st media where k: "claimed_key (msg_key m) s4"
    and d: "download_and_hand_over v epochs message m s
      = (if stale epochs m s4 then s4 else hand_over v epochs (m\<lparr>im_status := st, im_media := media\<rparr>) s4)"
    using own.hand_over_state by blast
  from k have "once (hand_over v epochs (m\<lparr>im_status := st, im_media := media\<rparr>) s4)"
    by (intro hand_over_once) (simp_all add: claimed_key_def msg_key_def)
  with k show ?thesis by (simp add: d claimed_key_def)
next
  case False
  from assms(1) obtain s4 st media where k: "once s4"
    and d: "download_and_hand_over v epochs message m s
      = (if stale epochs m s4 then s4 else hand_over v epochs (m\<lparr>im_status := st, im_media := media\<rparr>) s4)"
    using others.hand_over_state by blast
  from k False have "once (hand_over v epochs (m\<lparr>im_status := st, im_media := media\<rparr>) s4)"
    by (intro hand_over_once) simp_all
  with k show ?thesis by (simp add: d)
qed

lemma inserted_key:
  assumes "insert_message c e st rows = Inr (rows', new)"
  shows "st_key ` set rows \<subseteq> st_key ` set rows'" and "(cm_connection c, cm_chat c, cm_message c) \<in> st_key ` set rows'"
    and "new \<Longrightarrow> (cm_connection c, cm_chat c, cm_message c) \<notin> st_key ` set rows"
proof -
  have a: "sql_any (\<lambda>x. st_key x = k) rows \<longleftrightarrow> k \<in> st_key ` set rows" for k
    by (auto simp: sql_any_def list_ex_iff)
  define r where "r = captured.extend c \<lparr>st_history = (e \<noteq> None), st_envelope = e, st_media = st, st_relayed = None\<rparr>"
  have k: "st_key r = (cm_connection c, cm_chat c, cm_message c)" by (simp add: r_def st_key_def captured.defs)
  have "rows' = (if st_key r \<in> st_key ` set rows then rows else rows @ [r])" and "new \<longleftrightarrow> st_key r \<notin> st_key ` set rows"
    using assms [unfolded insert_message_def Let_def, folded r_def, unfolded a] by (auto split: if_splits)
  then show "st_key ` set rows \<subseteq> st_key ` set rows'" and "(cm_connection c, cm_chat c, cm_message c) \<in> st_key ` set rows'"
    and "new \<Longrightarrow> (cm_connection c, cm_chat c, cm_message c) \<notin> st_key ` set rows"
    by (auto simp: k [symmetric])
qed

lemma captured_key:
  assumes "capture (captured_of m) rows = Inr (rows', new)"
  shows "st_key ` set rows \<subseteq> st_key ` set rows'" and "msg_key m \<in> st_key ` set rows'" and "new \<Longrightarrow> msg_key m \<notin> st_key ` set rows"
  using inserted_key [OF assms [unfolded capture_def]] by (simp_all add: captured_of_def msg_key_def)

lemma accept_once:
  assumes "once s"
  shows "once (accept_live v epochs message m s)"
proof (cases "capture (captured_of m) (ik_store s)")
  case (Inr r)
  obtain rows new where r: "r = (rows, new)" by fastforce
  define s' where "s' = s\<lparr>ik_store := rows\<rparr>"
  have c: "store_keys s \<subseteq> store_keys s'" "msg_key m \<in> store_keys s'" "new \<longrightarrow> msg_key m \<notin> store_keys s"
    using captured_key [of m "ik_store s" rows new] Inr r by (auto simp: store_keys_def s'_def)
  have o: "once s'" by (rule once_grows [OF assms _ c(1)]) (simp add: s'_def)
  have k: "claimed_key (msg_key m) s'" if new
    using that c o assms by (auto simp: claimed_key_def once_def s'_def)
  have "once (download_and_hand_over v epochs message m s')" if "new \<or> \<not> im_group m"
    using that k o by (intro download_once) auto
  then show ?thesis using o Inr r by (auto simp: accept_live_def s'_def [symmetric] Let_def split: sum.split bool.split)
qed (use assms in \<open>simp add: accept_live_def\<close>)

lemma history_key: "captureHistory c e st rows = Inr (rows', new) \<Longrightarrow> st_key ` set rows \<subseteq> st_key ` set rows'"
  using inserted_key(1) [of c "Some e" st rows rows' new] by (simp add: captureHistory_def split: if_splits)

lemma relayed_key: "markMessageRelayed now k rows = Inr r \<Longrightarrow> st_key ` set (fst r) = st_key ` set rows"
proof -
  assume "markMessageRelayed now k rows = Inr r"
  then have "fst r = sql_update (\<lambda>r. st_key r = k) (relay now) rows" by (auto simp: markMessageRelayed_def split: if_splits)
  then show ?thesis by (simp add: key_update)
qed

lemma capture_row_out: "ik_out (fst (capture_row v user g m s)) = ik_out s"
  by (simp add: capture_row_def Let_def split: option.split sum.split prod.split bool.split)

lemma capture_row_store: "store_keys s \<subseteq> store_keys (fst (capture_row v user g m s))"
proof (cases "parseMessage v (ik_now s) m user")
  case (Some p)
  let ?m = "p\<lparr>im_ts := nat (seconds m * 1000)\<rparr>"
  let ?e = "encrypt_string (v_seal (ie_vault v)) (ie_iv v (length (ik_store s))) (jprint (with_seconds m)) (v_key (ie_vault v))"
  let ?x = "if hasMedia (ie_normalize v (field ''message'' (Some m))) then MsPending else MsNone"
  show ?thesis
  proof (cases "captureHistory (captured_of ?m) ?e ?x (ik_store s)")
    case (Inr r)
    obtain rows new where r: "r = (rows, new)" by fastforce
    have c: "st_key ` set (ik_store s) \<subseteq> st_key ` set rows" using history_key Inr r by blast
    show ?thesis
      using c Some Inr r
      by (simp add: capture_row_def Let_def store_keys_def split: sum.split bool.split) (auto dest!: relayed_key)
  qed (use Some in \<open>simp add: capture_row_def Let_def\<close>)
qed (simp add: capture_row_def)

interpretation once: intake_keeper v once for v
proof
  fix s user g m assume "once s"
  then show "once (fst (capture_row v user g m s))"
    by (rule once_grows) (simp_all add: handed_def capture_row_out capture_row_store)
next
  fix s m epochs message assume "once s"
  then show "once (accept_live v epochs message m s)" by (rule accept_once)
qed (auto simp: once_def handed_def store_keys_def filter_simps)

interpretation intake_machine: machine "intake_step v" once for v
  by unfold_locales (rule once.step_keeps)

definition new_intake :: "stored list \<Rightarrow> out_row list \<Rightarrow> json option \<Rightarrow> intake" where
  "new_intake rows sent user = \<lparr>ik_present = (\<lambda>g. False), ik_epochs = (\<lambda>g. 0), ik_pending = [], ik_waits = Map.empty, ik_meta = empty_store,
     ik_store = rows, ik_log = sent, ik_bursts = Map.empty, ik_queue = [], ik_out = [], ik_user = user, ik_live = True, ik_now = 0, ik_awaits = 0\<rparr>"

text \<open>C6: A message of a group reaches the router live at most once, however often it is delivered and in whatever order joins,
  leaves, history and jobs fall, and every one that does is in the store.\<close>

theorem group_messages_are_handed_over_once:
  "let s = foldl (intake_step v) (new_intake rows sent user) moves in
     distinct (handed s) \<and> list_all (\<lambda>k. list_ex (\<lambda>r. st_key r = k) (ik_store s)) (handed s)"
proof -
  have "once (new_intake rows sent user)" by (simp add: once_def new_intake_def handed_def List.map_filter_def)
  then have "once (foldl (intake_step v) (new_intake rows sent user) moves)" by (rule intake_machine.run_inv)
  moreover have "\<exists>r \<in> set (ik_store s). st_key r = k" if "once s" "k \<in> set (handed s)" for s k
    using that by (force simp: once_def store_keys_def)
  ultimately show ?thesis by (simp add: Let_def once_def list_all_iff list_ex_iff)
qed

section \<open>Under the membership it came under\<close>

fun same_membership :: "intake_effect \<Rightarrow> bool" where
  "same_membership (HandOver m arrived now) = (im_group m \<longrightarrow> arrived = now)"
| "same_membership e = True"

definition steady :: "intake \<Rightarrow> bool" where
  "steady s \<longleftrightarrow> list_all same_membership (ik_out s)"

lemma membership_steady: "steady s \<Longrightarrow> steady (onSelfMembership v g a b s)"
  by (auto simp: onSelfMembership_def self_left_def self_joined_def emit_intake_def Let_def steady_def split: sum.split)

lemma memberships_steady: "steady s \<Longrightarrow> steady (foldl (\<lambda>s g. onSelfMembership v g a b s) s gs)"
  by (induction gs arbitrary: s) (simp_all add: membership_steady)

lemma participant_steady: "steady s \<Longrightarrow> steady (onParticipantUpdate v p s)"
  using membership_steady [of s]
  by (simp add: onParticipantUpdate_def Let_def split: option.split membership_action.split) (simp add: steady_def)

lemma happen_steady: "steady s \<Longrightarrow> steady (intake_happen v s e)"
  by (cases e) (auto simp: participant_steady onGroupUpserts_def memberships_steady queueHistoryBatch_def split: option.split,
      auto simp: steady_def clear_groups_def enqueueInbound_def split: option.split)

interpretation same: intake_base v steady for v
  by unfold_locales (auto simp: happen_steady, auto simp: steady_def)

lemma hand_over_steady: "steady s \<Longrightarrow> \<not> stale epochs m s \<Longrightarrow> steady (hand_over v epochs m s)"
proof -
  assume "steady s" and "\<not> stale epochs m s"
  then have "steady (emit_intake (HandOver m (epochs (im_chat m)) (ik_epochs s (im_chat m))) s)"
    by (simp add: steady_def emit_intake_def stale_def)
  then show ?thesis using same.settle_keeps same.bursting by (simp add: hand_over_def Let_def)
qed

lemma download_steady: "steady s \<Longrightarrow> steady (download_and_hand_over v epochs message m s)"
proof -
  assume "steady s"
  then obtain s4 st media where k: "steady s4"
    and d: "download_and_hand_over v epochs message m s
      = (if stale epochs m s4 then s4 else hand_over v epochs (m\<lparr>im_status := st, im_media := media\<rparr>) s4)"
    using same.hand_over_state by blast
  have "\<not> stale epochs m s4 \<Longrightarrow> steady (hand_over v epochs (m\<lparr>im_status := st, im_media := media\<rparr>) s4)"
    by (rule hand_over_steady [OF k]) (simp add: stale_def)
  with k show ?thesis by (simp add: d)
qed

lemma accept_steady: "steady s \<Longrightarrow> steady (accept_live v epochs message m s)"
proof -
  assume "steady s"
  then have "steady (s\<lparr>ik_store := rows\<rparr>)" for rows by (simp add: steady_def)
  then have "steady (download_and_hand_over v epochs message m (s\<lparr>ik_store := rows\<rparr>))" "steady (s\<lparr>ik_store := rows\<rparr>)" for rows
    by (simp_all add: download_steady)
  with \<open>steady s\<close> show ?thesis by (auto simp: accept_live_def Let_def split: sum.split bool.split)
qed

interpretation same: intake_keeper v steady for v
  by unfold_locales (auto simp: accept_steady, auto simp: steady_def capture_row_out)

interpretation same_machine: machine "intake_step v" steady for v
  by unfold_locales (rule same.step_keeps)


section \<open>History first\<close>

definition handed_in :: "string \<Rightarrow> intake \<Rightarrow> intake_effect list" where
  "handed_in g s = filter (\<lambda>e. case e of HandOver m a b \<Rightarrow> im_group m \<and> im_chat m = g | _ \<Rightarrow> False) (ik_out s)"

text \<open>Since the group was joined in epoch \<open>n\<close>: still waiting, and nothing of it handed over, or its wait is over.\<close>

definition after_join :: "string \<Rightarrow> nat \<Rightarrow> intake_effect list \<Rightarrow> intake \<Rightarrow> bool" where
  "after_join g n before s \<longleftrightarrow> n \<le> ik_epochs s g
     \<and> (ik_epochs s g = n \<and> ik_waits s g \<noteq> None \<longrightarrow> map_option jw_epoch (ik_waits s g) = Some n \<and> handed_in g s = before)"

text \<open>No wait for the group in this epoch, nor later in it.\<close>

definition wait_over :: "string \<Rightarrow> nat \<Rightarrow> intake \<Rightarrow> bool" where
  "wait_over g n s \<longleftrightarrow> n \<le> ik_epochs s g \<and> (ik_epochs s g = n \<longrightarrow> ik_waits s g = None)"

lemma handed_in_simps:
  "handed_in g (emit_intake e s) = handed_in g s @ (case e of HandOver m a b \<Rightarrow> if im_group m \<and> im_chat m = g then [e] else [] | _ \<Rightarrow> [])"
  by (auto simp: handed_in_def emit_intake_def split: intake_effect.split)

lemma membership_join: "after_join g n before s \<Longrightarrow> after_join g n before (onSelfMembership v h a b s)"
  by (auto simp: onSelfMembership_def self_left_def self_joined_def emit_intake_def Let_def after_join_def handed_in_def split: sum.split)

lemma membership_over: "wait_over g n s \<Longrightarrow> wait_over g n (onSelfMembership v h a b s)"
  by (auto simp: onSelfMembership_def self_left_def self_joined_def emit_intake_def Let_def wait_over_def split: sum.split)

lemma memberships_join: "after_join g n before s \<Longrightarrow> after_join g n before (foldl (\<lambda>s h. onSelfMembership v h a b s) s gs)"
  by (induction gs arbitrary: s) (simp_all add: membership_join)

lemma memberships_over: "wait_over g n s \<Longrightarrow> wait_over g n (foldl (\<lambda>s h. onSelfMembership v h a b s) s gs)"
  by (induction gs arbitrary: s) (simp_all add: membership_over)

lemma happen_join: "after_join g n before s \<Longrightarrow> after_join g n before (intake_happen v s e)"
proof (cases e)
  case (ParticipantsChanged p)
  assume "after_join g n before s"
  with ParticipantsChanged membership_join [of g n before s] show ?thesis
    by (simp add: onParticipantUpdate_def Let_def split: option.split membership_action.split) (simp add: after_join_def handed_in_def)
qed (auto simp: onGroupUpserts_def memberships_join queueHistoryBatch_def split: option.split,
    auto simp: after_join_def handed_in_def clear_groups_def enqueueInbound_def split: option.split)

lemma happen_over: "wait_over g n s \<Longrightarrow> wait_over g n (intake_happen v s e)"
proof (cases e)
  case (ParticipantsChanged p)
  assume "wait_over g n s"
  with ParticipantsChanged membership_over [of g n s] show ?thesis
    by (simp add: onParticipantUpdate_def Let_def split: option.split membership_action.split) (simp add: wait_over_def)
qed (auto simp: onGroupUpserts_def memberships_over queueHistoryBatch_def split: option.split,
    auto simp: wait_over_def clear_groups_def enqueueInbound_def split: option.split)

interpretation joining: intake_base v "after_join g n before" for v g n before
  by unfold_locales (auto simp: happen_join, auto simp: after_join_def handed_in_def)

interpretation finished: intake_base v "wait_over g n" for v g n
  by unfold_locales (auto simp: happen_over, auto simp: wait_over_def)

lemma accept_join:
  assumes "after_join g n before s" and "im_group m \<Longrightarrow> ik_waits s (im_chat m) = None"
  shows "after_join g n before (accept_live v epochs message m s)"
proof (cases "im_group m \<and> im_chat m = g")
  case True
  with assms have "wait_over g n s" by (auto simp: after_join_def wait_over_def)
  then have "wait_over g n (accept_live v epochs message m s)"
    by (rule finished.accept_if) (simp_all add: wait_over_def emit_intake_def)
  then show ?thesis by (auto simp: after_join_def wait_over_def)
next
  case False
  from assms(1) show ?thesis
    by (rule joining.accept_if) (use False in \<open>auto simp: after_join_def handed_in_def emit_intake_def\<close>)
qed

interpretation joining: live_keeper v "after_join g n before" for v g n before
  by unfold_locales (auto simp: accept_join, auto simp: after_join_def handed_in_def)

text \<open>What was called stays called.\<close>

lemma membership_out: "prefix xs (ik_out s) \<Longrightarrow> prefix xs (ik_out (onSelfMembership v g a b s))"
  by (auto simp: onSelfMembership_def self_left_def self_joined_def emit_intake_def Let_def split: sum.split)

lemma memberships_out: "prefix xs (ik_out s) \<Longrightarrow> prefix xs (ik_out (foldl (\<lambda>s g. onSelfMembership v g a b s) s gs))"
  by (induction gs arbitrary: s) (simp_all add: membership_out)

lemma happen_out: "prefix xs (ik_out s) \<Longrightarrow> prefix xs (ik_out (intake_happen v s e))"
proof (cases e)
  case (ParticipantsChanged p)
  assume "prefix xs (ik_out s)"
  with ParticipantsChanged show ?thesis
    by (simp add: onParticipantUpdate_def Let_def membership_out split: option.split membership_action.split)
qed (auto simp: onGroupUpserts_def memberships_out queueHistoryBatch_def clear_groups_def enqueueInbound_def split: option.split)

interpretation growing: intake_base v "\<lambda>s. prefix xs (ik_out s)" for v xs
  by unfold_locales (auto simp: happen_out)

lemma accept_out: "prefix xs (ik_out s) \<Longrightarrow> prefix xs (ik_out (accept_live v epochs message m s))"
  by (erule growing.accept_if) (simp_all add: emit_intake_def)

interpretation growing: intake_keeper v "\<lambda>s. prefix xs (ik_out s)" for v xs
  by unfold_locales (auto simp: accept_out capture_row_out)


definition quiet_env :: intake_env where
  "quiet_env = \<lparr>ie_conn = ''c'', ie_history = True, ie_join_wait = 5000, ie_debounce = 0, ie_media_burst = 0, ie_max_media = 100,
     ie_kinds = [], ie_vault = \<lparr>v_seal = plain_seal, v_unseal = plain_unseal, v_sha = id, v_key = [1]\<rparr>, ie_normalize = id,
     ie_parse = (\<lambda>u. None), ie_stream = (\<lambda>n j. \<lparr>sm_chunks = [], sm_error = None\<rparr>), ie_tick = (\<lambda>n. False), ie_ticks = (\<lambda>n. 0),
     ie_during = (\<lambda>n. []), ie_pause = (\<lambda>n. 1), ie_iv = (\<lambda>n. replicate 12 0)\<rparr>"

definition joined :: intake where
  "joined = onSelfMembership quiet_env ''1@g.us'' AddSelf None (new_intake [] [] None)"


end
