(* ===== verification/Spec2Isabelle.thy ===== *)
theory Spec2Isabelle
  imports Jid DealInvoice Crypto Resolver OutboundLog ChatBots MessageStore Welcome ServiceTables EphemeralMedia AntiBan Bursts
    DispatchFacts McpClient Link AuthState IntakeFacts
begin

text \<open>
  The program is a gateway between WhatsApp and an agent service, PromptQL. Messages arrive from the
  WhatsApp socket, are collected per sender and handled per chat by the inbound router, which posts
  them to a thread of the agent; the agent's answer is cleaned and sent back through a paced queue.
  SQLite tables hold the shoppers, credentials, chats, messages and the log of what was sent.

  Foundations. \<open>Prelude\<close> has the JavaScript text operations, tables as lists of rows, and the generic
  interfaces (a keyed store, a state machine with an invariant). A text is a list of code units below
  256. \<open>Json\<close> has \<open>JSON.stringify\<close> and \<open>JSON.parse\<close> with their round trip, \<open>Regex\<close> a backtracking matcher
  with the semantics of JavaScript's patterns, so that the patterns of the code are definitions and
  replacing and splitting by them are functions. \<open>Jid\<close> is \<open>src/util.ts\<close>.

  Storage (\<open>src/storage\<close>, \<open>src/crypto.ts\<close>, \<open>src/security\<close>). \<open>Crypto\<close>, \<open>Shoppers\<close>, \<open>Credentials\<close>, \<open>Resolver\<close>
  (with \<open>src/routing/resolver.ts\<close>), \<open>OutboundLog\<close>, \<open>ChatBots\<close>, \<open>MessageStore\<close>, \<open>Welcome\<close>, \<open>ServiceTables\<close> hold one
  repository each: its row as a record, one definition per method, errors as the left of a sum, and
  what every sequence of calls keeps.

  Messages (\<open>src/promptql\<close>, \<open>src/craft\<close>, \<open>src/routing\<close>). \<open>AskFiles\<close> are the files of an ask and their re-encoding,
  \<open>Messages\<close> the envelope of a client post, \<open>Craft\<close> the system instruction, \<open>Voice\<close> the grounding of voice notes.

  The inbound router (\<open>src/routing/inboundRouter.ts\<close>). \<open>World\<close> is the state and the environment: an
  asynchronous handler is a function of the world that returns a new world and a value or an error,
  and at each await the environment may deliver events. \<open>Router\<close> has the guards, the destination and
  the asks, \<open>Batch\<close> the handlers of a burst and of a history batch, \<open>Bursts\<close> the buffers, the chains and
  the event loop. \<open>BatchFacts\<close>, \<open>Settling\<close> and \<open>Delivery\<close> show what a handler does in every environment: which asks
  it makes, that it settles its claims, that a registered operator is answered. The locales
  \<open>quiet_observer\<close>, \<open>ask_observer\<close>, \<open>log_blind\<close> and \<open>ask_only\<close> state what a predicate must be indifferent to in
  order to be kept by the router's actions; they are interpreted on the predicates of the properties.

  The agent (\<open>src/promptql/promptqlAdapter.ts\<close>). \<open>Blocks\<close> and \<open>Artifacts\<close> read what its tools return, \<open>Adapter\<close> is the
  class itself: the session of each identity, asking, waiting for the answer (a loop that may run
  forever, so a \<open>partial_function\<close>, shown to end as soon as calls take time), declining approvals,
  resolving and recovering files. The locale \<open>caller\<close> states what everything done with a session keeps.

  The way out. \<open>Truth\<close> and \<open>Sanitizer\<close> clean a text (\<open>src/routing/outboundTruth.ts\<close>, \<open>sanitizer.ts\<close>);
  \<open>InvoicePdf\<close> and \<open>PdfGuard\<close> (\<open>src/routing/invoicePdfGuard.ts\<close>) read the facts of an invoice, write its PDF
  and decide what leaves where a PDF is due; \<open>Dispatcher\<close> (\<open>src/routing/outboundDispatcher.ts\<close>,
  with the senders of \<open>src/whatsapp/socket.ts\<close>) waits for the answer, fetches its files, writes the reply and
  sends it. \<open>DispatchFacts\<close> shows what a dispatch does with its claim; its locale \<open>claim_keeper\<close> is
  interpreted on settling and on honesty. \<open>AntiBan\<close> is the paced queue (\<open>src/whatsapp/antiBan.ts\<close>),
  \<open>EphemeralMedia\<close> the media bridge (\<open>src/http/ephemeralMedia.ts\<close>), \<open>DealInvoice\<close> the ledger of
  \<open>src/modules/integrity\<close>.

  The tools' transport. \<open>McpClient\<close> (\<open>src/promptql/mcpClient.ts\<close>) is one client of the agent's tool server: the
  handshake, the reading of event streams, the calls and their retries, a recursion on the attempts
  left. The locale \<open>session_keeper\<close> states what everything the client does with its session id keeps.

  The socket (\<open>src/whatsapp\<close>). \<open>Link\<close> is the life of the connection and the boot of \<open>src/server.ts\<close>,
  one step per event of the library; \<open>AuthState\<close> the key store the library reads and writes
  (\<open>authState.ts\<close>); \<open>GroupEvents\<close> the readings of group events; \<open>GroupMeta\<close> the metadata cache with its
  generations, split at its awaits; \<open>Media\<close> the bounded download; \<open>Intake\<close> what becomes of a message until the
  router has it. An intake is cut at its awaits into steps that other events may come between, and
  \<open>IntakeFacts\<close> shows what every interleaving keeps: the locale \<open>intake_base\<close> lists the steps, \<open>live_keeper\<close>
  and \<open>intake_keeper\<close> say which of them a predicate must survive.

  Fuel. The JSON parser has the length of its input, a repetition of a pattern the iterations due plus
  the characters left; lemmas \<open>jparse_print\<close> and \<open>rep_fuel\<close> show both to be enough.

  Parameters, with named hypotheses where a property needs them: the cipher and the hash, the JPEG
  codec, the URL parser, the HTTP download, the answers of the agent's tools, the group lookup, the
  speech service, the queue and the WhatsApp library (its content of a message, its media streams,
  its fresh credentials), the clock, random bytes and uuids.

  Not modelled: log lines; the SQL text (tables are lists of rows in insertion order); code units
  above 255; the wiring of the components; the HTTP listener; the WhatsApp library; the Python
  programs under \<open>src/modules\<close>, which the gateway does not call.
\<close>

end
